(* ===== verification/Orion_Prelude.thy ===== *)
theory Orion_Prelude
  imports Main "HOL-Library.Sublist" "HOL-Library.Char_ord" "HOL-Library.List_Lexorder"
    "HOL-Library.Word"
begin

text \<open>
  What every component of the model shares: the shape of Go results, the loops that stop at
  the first error, Go's machine integers and its clock.

  \<^item> A Go \<open>error\<close> result is an option, \<open>None\<close> for \<open>nil\<close>; a pair \<open>(T, error)\<close> is a sum,
    \<open>Inl\<close> for the error and \<open>Inr\<close> for the value.
  \<^item> A Go string is its sequence of bytes, a \<^typ>\<open>string\<close>. The order on strings
    (\<open>HOL-Library.List_Lexorder\<close> over \<open>Char_ord\<close>) is Go's bytewise order.
  \<^item> A \<open>time.Duration\<close> is an \<open>int64\<close> count of nanoseconds; its products wrap around
    (\<open>wrap64\<close>). A \<open>time.Time\<close> is the number of nanoseconds since the zero time, so
    \<open>IsZero\<close> is \<open>t = 0\<close>; the wall clock and the monotonic clock are one.
\<close>

named_theorems go_simps \<open>rewrite rules of the Go string functions\<close>
named_theorems orion_defs \<open>definitions of the handlers, unfolded together\<close>

subsection \<open>Loops that return at the first error\<close>

text \<open>\<open>for _, x := range xs { if err := f(x); err != nil { return err } }; return nil\<close>\<close>

fun first_err :: "('a \<Rightarrow> 'e option) \<Rightarrow> 'a list \<Rightarrow> 'e option" where
  "first_err f [] = None"
| "first_err f (x # xs) = (case f x of Some e \<Rightarrow> Some e | None \<Rightarrow> first_err f xs)"

lemma first_err_None [simp]: "first_err f xs = None \<longleftrightarrow> (\<forall>x\<in>set xs. f x = None)"
  by (induction xs) (auto split: option.splits)

lemma first_err_SomeD: "first_err f xs = Some e \<Longrightarrow> \<exists>x\<in>set xs. f x = Some e"
  by (induction xs) (auto split: option.splits)

text \<open>A validation is a chain of such loops and of guards; it passes when each of them does.\<close>

lemma case_err_None [simp]:
  "(case r of None \<Rightarrow> k | Some e \<Rightarrow> Some (g e)) = None \<longleftrightarrow> r = None \<and> k = None"
  by (auto split: option.splits)

lemma if_err_None [simp]: "(if b then Some e else k) = None \<longleftrightarrow> \<not> b \<and> k = None"
  by auto

text \<open>Looking a value up in a list of candidates: \<open>for ... { if p(x) { return true } }; return false\<close>
  is \<^const>\<open>list_ex\<close>; the dual loop is \<^const>\<open>list_all\<close>.\<close>

lemma foldl_cases_absorb:
  assumes "\<And>x. step (Inl e) x = Inl e"
  shows "foldl step (Inl e) xs = Inl e"
  using assms by (induction xs) auto

subsection \<open>Results\<close>

abbreviation is_ok :: "'e + 'a \<Rightarrow> bool" where
  "is_ok r \<equiv> (\<exists>x. r = Inr x)"

lemma is_ok_simps [simp]: "is_ok (Inr x)" "\<not> is_ok (Inl e)"
  by auto

lemma not_is_ok: "\<not> is_ok r \<longleftrightarrow> (\<exists>e. r = Inl e)"
  by (cases r) auto

lemma sum_case_InrD:
  "(case r of Inl e \<Rightarrow> Inl (g e) | Inr x \<Rightarrow> f x) = Inr y \<Longrightarrow> \<exists>x. r = Inr x \<and> f x = Inr y"
  by (cases r) auto

lemma opt_case_InrD:
  "(case r of Some e \<Rightarrow> Inl (g e) | None \<Rightarrow> f) = Inr y \<Longrightarrow> r = None \<and> f = Inr y"
  by (cases r) auto

subsection \<open>Machine integers and the clock\<close>

type_synonym duration = int
type_synonym time = int

text \<open>The value an \<open>int64\<close> holds after an operation whose exact result is \<open>x\<close>.\<close>

definition wrap64 :: "int \<Rightarrow> int" where
  "wrap64 x = sint (word_of_int x :: 64 word)"

definition min_int64 :: int where "min_int64 = - (2 ^ 63)"
definition max_int64 :: int where "max_int64 = 2 ^ 63 - 1"

definition second :: duration where "second = 1000000000"
definition minute :: duration where "minute = 60 * second"
definition hour :: duration where "hour = 60 * minute"

lemma wrap64_alt: "wrap64 x = (x + 2 ^ 63) mod 2 ^ 64 - 2 ^ 63"
  unfolding wrap64_def
  by (simp add: sint_sbintrunc' sint_word_ariths signed_take_bit_eq_take_bit_shift take_bit_eq_mod)

lemma wrap64_id: "min_int64 \<le> x \<Longrightarrow> x \<le> max_int64 \<Longrightarrow> wrap64 x = x"
  unfolding wrap64_alt min_int64_def max_int64_def by (simp add: mod_pos_pos_trivial)

lemma wrap64_range: "min_int64 \<le> wrap64 x \<and> wrap64 x \<le> max_int64"
proof -
  have "0 \<le> (x + 2 ^ 63) mod 2 ^ 64" "(x + 2 ^ 63) mod 2 ^ 64 < (2::int) ^ 64"
    by simp_all
  then show ?thesis by (simp add: wrap64_alt min_int64_def max_int64_def)
qed

text \<open>\<open>t.Add(d)\<close>, \<open>t.Sub(u)\<close> (which saturates) and \<open>t.Before(u)\<close>.\<close>

definition time_add :: "time \<Rightarrow> duration \<Rightarrow> time" where
  "time_add t d = t + d"

definition time_sub :: "time \<Rightarrow> time \<Rightarrow> duration" where
  "time_sub t u = max min_int64 (min max_int64 (t - u))"

definition time_before :: "time \<Rightarrow> time \<Rightarrow> bool" where
  "time_before t u \<longleftrightarrow> t < u"

definition time_is_zero :: "time \<Rightarrow> bool" where
  "time_is_zero t \<longleftrightarrow> t = 0"

lemma time_sub_le: "d < max_int64 \<Longrightarrow> time_sub t u \<le> d \<Longrightarrow> min_int64 \<le> d \<Longrightarrow> t - u \<le> d"
  unfolding time_sub_def by (auto simp: min_def max_def split: if_splits)

lemma time_sub_gt: "min_int64 \<le> d \<Longrightarrow> d < time_sub t u \<Longrightarrow> d < t - u"
  unfolding time_sub_def by (auto simp: min_def max_def split: if_splits)

text \<open>Go's integer division truncates towards zero.\<close>

definition go_div :: "int \<Rightarrow> int \<Rightarrow> int" where
  "go_div a b = sgn a * sgn b * (\<bar>a\<bar> div \<bar>b\<bar>)"

subsection \<open>Lists\<close>

lemma sorted_distinct_set_eq:
  fixes xs ys :: "'a :: linorder list"
  assumes "sorted xs" "distinct xs" "sorted ys" "distinct ys" "set xs = set ys"
  shows "xs = ys"
  using sorted_distinct_set_unique[OF assms(1,2,3,4,5)] .

lemma append_split_longer:
  "xs @ ys = us @ vs \<Longrightarrow> length us < length xs \<Longrightarrow> \<exists>u. u \<noteq> [] \<and> xs = us @ u \<and> vs = u @ ys"
  by (auto simp: append_eq_append_conv2)

lemma append_split_shorter:
  "xs @ ys = us @ vs \<Longrightarrow> length xs \<le> length us \<Longrightarrow> \<exists>u. us = xs @ u \<and> ys = u @ vs"
  by (auto simp: append_eq_append_conv2)

lemma notin_imageD: "y \<notin> f ` S \<Longrightarrow> x \<in> S \<Longrightarrow> f x \<noteq> y"
  by auto

text \<open>The \<open>Must\<close> functions panic with the error of the function they wrap; a panic is a value here.\<close>

datatype 'e panic = Panic 'e

definition must :: "'e + 'a \<Rightarrow> 'e panic + 'a" where
  "must r = (case r of Inl err \<Rightarrow> Inl (Panic err) | Inr x \<Rightarrow> Inr x)"

lemma must_simps [simp]: "must (Inl err) = Inl (Panic err)" "must (Inr x) = Inr x"
  by (simp_all add: must_def)

end
