(* ===== verification/Go_Strings.thy ===== *)
theory Go_Strings
  imports Orion_Prelude
begin

text \<open>
  The part of Go's \<open>strings\<close> package the program uses, on byte strings.

  White space is \<open>unicode.IsSpace\<close>: \<open>space_runes\<close> lists the UTF-8 encodings of its 25
  code points. Every encoding starts with a byte that is not a UTF-8 continuation byte and
  goes on with continuation bytes, so an encoding can only occur at a rune boundary, and
  scanning the bytes for one (\<open>space_len\<close>) is what Go's rune-wise scan does, on invalid
  UTF-8 too (there Go's decoder advances by one byte).

  The lemmas characterise \<open>TrimSpace\<close> and \<open>Fields\<close>: fields are non-empty and free of
  white space, fields of space-joined fields are the fields again, and a string is blank
  exactly when trimming it leaves nothing, exactly when it has no fields.
\<close>

subsection \<open>White space\<close>

definition space_runes :: "string list" where
  "space_runes =
     [[CHR 0x09], [CHR 0x0A], [CHR 0x0B], [CHR 0x0C], [CHR 0x0D], [CHR 0x20],
      [CHR 0xC2, CHR 0x85], [CHR 0xC2, CHR 0xA0],
      [CHR 0xE1, CHR 0x9A, CHR 0x80],
      [CHR 0xE2, CHR 0x80, CHR 0x80], [CHR 0xE2, CHR 0x80, CHR 0x81],
      [CHR 0xE2, CHR 0x80, CHR 0x82], [CHR 0xE2, CHR 0x80, CHR 0x83],
      [CHR 0xE2, CHR 0x80, CHR 0x84], [CHR 0xE2, CHR 0x80, CHR 0x85],
      [CHR 0xE2, CHR 0x80, CHR 0x86], [CHR 0xE2, CHR 0x80, CHR 0x87],
      [CHR 0xE2, CHR 0x80, CHR 0x88], [CHR 0xE2, CHR 0x80, CHR 0x89],
      [CHR 0xE2, CHR 0x80, CHR 0x8A],
      [CHR 0xE2, CHR 0x80, CHR 0xA8], [CHR 0xE2, CHR 0x80, CHR 0xA9],
      [CHR 0xE2, CHR 0x80, CHR 0xAF], [CHR 0xE2, CHR 0x81, CHR 0x9F],
      [CHR 0xE3, CHR 0x80, CHR 0x80]]"

text \<open>The UTF-8 continuation bytes, \<open>0x80\<close> to \<open>0xBF\<close>.\<close>

definition is_cont :: "char \<Rightarrow> bool" where
  "is_cont c \<longleftrightarrow> 128 \<le> (of_char c :: nat) \<and> (of_char c :: nat) < 192"

text \<open>The length of the white-space rune a string starts (ends) with, 0 if there is none.\<close>

definition space_len :: "string \<Rightarrow> nat" where
  "space_len s = (case find (\<lambda>p. prefix p s) space_runes of None \<Rightarrow> 0 | Some p \<Rightarrow> length p)"

definition space_len_end :: "string \<Rightarrow> nat" where
  "space_len_end s = (case find (\<lambda>p. suffix p s) space_runes of None \<Rightarrow> 0 | Some p \<Rightarrow> length p)"

lemma space_runes_shape_eval:
  "list_all (\<lambda>p. p \<noteq> [] \<and> \<not> is_cont (hd p) \<and> list_all is_cont (tl p)) space_runes"
  by code_simp

lemma space_runes_shape:
  assumes "p \<in> set space_runes"
  shows "\<exists>c q. p = c # q \<and> \<not> is_cont c \<and> list_all is_cont q"
proof (cases p)
  case Nil
  with assms show ?thesis using space_runes_shape_eval by (auto simp: list_all_iff)
next
  case (Cons c q)
  with assms show ?thesis using space_runes_shape_eval by (auto simp: list_all_iff)
qed

lemma space_runes_nonempty [simp]: "[] \<notin> set space_runes"
  using space_runes_shape by blast

lemma space_in_runes [simp]: "'' '' \<in> set space_runes"
  by (simp add: space_runes_def)

lemma space_len_0: "space_len s = 0 \<longleftrightarrow> (\<forall>p\<in>set space_runes. \<not> prefix p s)"
  unfolding space_len_def
  by (auto split: option.splits simp: find_None_iff find_Some_iff)
    (metis length_0_conv nth_mem space_runes_nonempty)

lemma space_len_pos: "space_len s > 0 \<Longrightarrow> \<exists>p r. p \<in> set space_runes \<and> s = p @ r \<and> length p = space_len s"
  unfolding space_len_def prefix_def
  by (auto split: option.splits simp: find_Some_iff) (metis nth_mem prefix_def)

lemma space_len_posI: "p \<in> set space_runes \<Longrightarrow> prefix p s \<Longrightarrow> 0 < space_len s"
  using space_len_0[of s] by (metis gr0I)

lemma space_len_end_0: "space_len_end s = 0 \<longleftrightarrow> (\<forall>p\<in>set space_runes. \<not> suffix p s)"
  unfolding space_len_end_def
  by (auto split: option.splits simp: find_None_iff find_Some_iff)
    (metis length_0_conv nth_mem space_runes_nonempty)

lemma space_len_end_pos:
  "space_len_end s > 0 \<Longrightarrow> \<exists>p r. p \<in> set space_runes \<and> s = r @ p \<and> length p = space_len_end s"
  unfolding space_len_end_def suffix_def
  by (auto split: option.splits simp: find_Some_iff) (metis nth_mem suffix_def)

lemma space_len_Nil [simp]: "space_len [] = 0"
  by (auto simp: space_len_0)

lemma space_len_end_Nil [simp]: "space_len_end [] = 0"
  by (auto simp: space_len_end_0)

lemma space_len_le: "space_len s \<le> length s"
  using space_len_pos[of s] by (cases "space_len s") auto

lemma space_len_end_le: "space_len_end s \<le> length s"
  using space_len_end_pos[of s] by (cases "space_len_end s") auto

text \<open>Whether a string starts with white space does not depend on what follows, unless what
  follows continues a rune.\<close>

lemma prefix_space_append:
  assumes p: "p \<in> set space_runes" and b: "b \<noteq> []" and s: "s = [] \<or> \<not> is_cont (hd s)"
  shows "prefix p (b @ s) \<longleftrightarrow> prefix p b"
proof
  assume *: "prefix p (b @ s)"
  show "prefix p b"
  proof (rule ccontr)
    assume "\<not> prefix p b"
    with * obtain t where t: "p = b @ t" "prefix t s" "t \<noteq> []"
      by (auto simp: prefix_append)
    then have "hd t = hd s" "s \<noteq> []"
      by (auto simp: prefix_def)
    moreover from t b have "hd t \<in> set (tl p)"
      by (cases b; cases t) auto
    with space_runes_shape[OF p] have "is_cont (hd t)"
      by (auto simp: list_all_iff)
    ultimately show False using s by simp
  qed
qed (simp add: prefix_prefix)

lemma space_len_append:
  assumes "b \<noteq> []" "s = [] \<or> \<not> is_cont (hd s)"
  shows "space_len (b @ s) = space_len b"
proof -
  have "find (\<lambda>p. prefix p (b @ s)) space_runes = find (\<lambda>p. prefix p b) space_runes"
    by (rule find_cong) (auto simp: prefix_space_append[OF _ assms])
  then show ?thesis by (simp add: space_len_def)
qed

definition space_free :: "string \<Rightarrow> bool" where
  "space_free s \<longleftrightarrow> (\<forall>t\<in>set (suffixes s). space_len t = 0)"

lemma space_free_iff: "space_free s \<longleftrightarrow> (\<forall>a b. s = a @ b \<longrightarrow> space_len b = 0)"
  by (auto simp: space_free_def suffix_def)

lemma space_free_Nil [simp]: "space_free []"
  by (simp add: space_free_iff)

lemma space_free_Cons [simp]: "space_free (c # s) \<longleftrightarrow> space_len (c # s) = 0 \<and> space_free s"
  by (auto simp: space_free_def)

lemma space_len_end_space_free: "space_free s \<Longrightarrow> space_len_end s = 0"
  using space_len_end_pos[of s] by (auto simp: space_free_iff space_len_0)

text \<open>ASCII strings without control characters and blanks are free of white space.\<close>

lemma space_runes_hd_eval:
  "list_all (\<lambda>p. (of_char (hd p) :: nat) < 33 \<or> 128 \<le> (of_char (hd p) :: nat)) space_runes"
  by code_simp

lemma graphic_space_free:
  assumes "\<forall>c\<in>set s. 33 \<le> (of_char c :: nat) \<and> (of_char c :: nat) < 128"
  shows "space_free s"
  unfolding space_free_iff
proof (intro allI impI)
  fix a b assume s: "s = a @ b"
  show "space_len b = 0"
  proof (rule ccontr)
    assume "space_len b \<noteq> 0"
    then obtain p r where p: "p \<in> set space_runes" "b = p @ r"
      using space_len_pos[of b] by auto
    then have "hd p \<in> set s" using s space_runes_shape by force
    with assms p(1) space_runes_hd_eval show False by (fastforce simp: list_all_iff)
  qed
qed

subsection \<open>TrimSpace\<close>

function trim_left :: "string \<Rightarrow> string" where
  "trim_left s = (if space_len s = 0 then s else trim_left (drop (space_len s) s))"
  by pat_completeness auto
termination
proof (relation "measure length", goal_cases)
  case (2 s)
  then have "s \<noteq> []" by auto
  with 2 show ?case by simp
qed simp

function trim_right :: "string \<Rightarrow> string" where
  "trim_right s =
     (if space_len_end s = 0 then s else trim_right (take (length s - space_len_end s) s))"
  by pat_completeness auto
termination
proof (relation "measure length", goal_cases)
  case (2 s)
  then have "s \<noteq> []" by auto
  with 2 show ?case by simp
qed simp

declare trim_left.simps [simp del] trim_right.simps [simp del]

definition TrimSpace :: "string \<Rightarrow> string" where
  "TrimSpace s = trim_right (trim_left s)"

text \<open>The strings of white space.\<close>

definition blank :: "string \<Rightarrow> bool" where
  "blank s \<longleftrightarrow> (\<exists>ps. set ps \<subseteq> set space_runes \<and> s = concat ps)"

lemma blank_Nil [simp]: "blank []"
  unfolding blank_def by (rule exI[of _ "[]"]) simp

lemma blank_append: "blank s \<Longrightarrow> blank t \<Longrightarrow> blank (s @ t)"
  unfolding blank_def by (metis concat_append le_sup_iff set_append)

lemma blank_rune: "p \<in> set space_runes \<Longrightarrow> blank p"
  unfolding blank_def by (rule exI[of _ "[p]"]) simp

lemma blank_space_len: "blank s \<Longrightarrow> s \<noteq> [] \<Longrightarrow> 0 < space_len s"
proof -
  assume "blank s" "s \<noteq> []"
  then obtain ps where ps: "set ps \<subseteq> set space_runes" "s = concat ps"
    unfolding blank_def by blast
  with \<open>s \<noteq> []\<close> obtain p qs where "ps = p # qs" by (cases ps) auto
  with ps show ?thesis by (auto intro: space_len_posI)
qed

lemma trim_left_split: "\<exists>l. blank l \<and> s = l @ trim_left s"
proof (induction s rule: trim_left.induct)
  case (1 s)
  show ?case
  proof (cases "space_len s = 0")
    case True
    then show ?thesis by (auto simp: trim_left.simps[of s] intro: exI[of _ "[]"])
  next
    case False
    then obtain p r where p: "p \<in> set space_runes" "s = p @ r" "length p = space_len s"
      using space_len_pos[of s] by auto
    have dr: "drop (space_len s) s = r"
      unfolding p(3)[symmetric] using p(2) by simp
    from 1[OF False] obtain l where l: "blank l" "r = l @ trim_left r"
      unfolding dr by blast
    have "trim_left s = trim_left r"
      using False by (subst trim_left.simps) (simp add: dr)
    with p l have "blank (p @ l) \<and> s = (p @ l) @ trim_left s"
      using blank_append blank_rune by (metis append.assoc)
    then show ?thesis by blast
  qed
qed

lemma trim_right_split: "\<exists>r. blank r \<and> s = trim_right s @ r"
proof (induction s rule: trim_right.induct)
  case (1 s)
  show ?case
  proof (cases "space_len_end s = 0")
    case True
    then show ?thesis by (auto simp: trim_right.simps[of s] intro: exI[of _ "[]"])
  next
    case False
    then obtain p r where p: "p \<in> set space_runes" "s = r @ p" "length p = space_len_end s"
      using space_len_end_pos[of s] by auto
    then have tk: "take (length s - space_len_end s) s = r"
      unfolding p(3)[symmetric] using p(2) by simp
    from 1[OF False] obtain l where l: "blank l" "r = trim_right r @ l"
      unfolding tk by blast
    have "trim_right s = trim_right r"
      using False by (subst trim_right.simps) (simp add: tk)
    with p l have "blank (l @ p) \<and> s = trim_right s @ (l @ p)"
      using blank_append blank_rune by (metis append.assoc)
    then show ?thesis by blast
  qed
qed

lemma trim_left_len: "space_len (trim_left s) = 0"
  by (induction s rule: trim_left.induct) (subst trim_left.simps, auto)

lemma trim_right_len: "space_len_end (trim_right s) = 0"
  by (induction s rule: trim_right.induct) (subst trim_right.simps, auto)

text \<open>The encodings form a prefix code.\<close>

lemma space_runes_code_eval:
  "list_all (\<lambda>p. list_all (\<lambda>q. prefix p q \<longrightarrow> p = q) space_runes) space_runes"
  by code_simp

lemma space_runes_code:
  assumes "p \<in> set space_runes" "q \<in> set space_runes" "prefix p s" "prefix q s"
  shows "p = q"
proof -
  have "prefix p q \<or> prefix q p"
    using assms(3,4) prefix_same_cases by blast
  then show ?thesis
    using assms(1,2) space_runes_code_eval by (auto simp: list_all_iff)
qed

lemma space_len_rune [simp]: "p \<in> set space_runes \<Longrightarrow> space_len (p @ s) = length p"
proof -
  assume p: "p \<in> set space_runes"
  then have "0 < space_len (p @ s)"
    by (rule space_len_posI) simp
  then obtain q r where q: "q \<in> set space_runes" "p @ s = q @ r" "length q = space_len (p @ s)"
    using space_len_pos by blast
  then have "prefix q (p @ s)" by simp
  with p q(1) have "p = q"
    using space_runes_code[of p q "p @ s"] by simp
  with q(3) show ?thesis by simp
qed

lemma blank_drop: "blank s \<Longrightarrow> blank (drop (space_len s) s)"
proof (cases "s = []")
  case False
  assume "blank s"
  then obtain ps where ps: "set ps \<subseteq> set space_runes" "s = concat ps"
    unfolding blank_def by blast
  with False obtain p qs where "ps = p # qs" by (cases ps) auto
  with ps show ?thesis by (auto simp: blank_def)
qed simp

lemma blank_hd: "blank s \<Longrightarrow> s = [] \<or> \<not> is_cont (hd s)"
proof (cases "s = []")
  case False
  assume "blank s"
  then obtain p r where "p \<in> set space_runes" "s = p @ r"
    using False blank_space_len space_len_pos by blast
  then show ?thesis using space_runes_shape by fastforce
qed simp

lemma trim_left_blank: "blank s \<Longrightarrow> trim_left s = []"
proof (induction s rule: trim_left.induct)
  case (1 s)
  show ?case
  proof (cases "s = []")
    case True
    then show ?thesis by (simp add: trim_left.simps)
  next
    case False
    with 1 show ?thesis
      using blank_space_len[of s] blank_drop[of s] by (subst trim_left.simps) auto
  qed
qed

lemma trim_left_id: "space_len s = 0 \<Longrightarrow> trim_left s = s"
  by (simp add: trim_left.simps)

lemma trim_right_id: "space_len_end s = 0 \<Longrightarrow> trim_right s = s"
  by (simp add: trim_right.simps)

lemma TrimSpace_Nil [go_simps, simp]: "TrimSpace [] = []"
  by (simp add: TrimSpace_def trim_left_id trim_right_id)

lemma TrimSpace_eq_Nil: "TrimSpace s = [] \<longleftrightarrow> blank s"
proof
  assume *: "TrimSpace s = []"
  obtain l where "blank l" "s = l @ trim_left s" using trim_left_split by blast
  moreover obtain r where "blank r" "trim_left s = TrimSpace s @ r"
    using trim_right_split unfolding TrimSpace_def by blast
  ultimately show "blank s" using * blank_append by force
next
  assume "blank s"
  then show "TrimSpace s = []"
    by (simp add: TrimSpace_def trim_left_blank trim_right_id)
qed

lemma TrimSpace_ends: "space_len (TrimSpace s) = 0 \<and> space_len_end (TrimSpace s) = 0"
proof
  show "space_len (TrimSpace s) = 0"
  proof (rule ccontr)
    assume "space_len (TrimSpace s) \<noteq> 0"
    then obtain p where p: "p \<in> set space_runes" "prefix p (TrimSpace s)"
      by (auto simp: space_len_0)
    obtain r where "trim_left s = TrimSpace s @ r"
      using trim_right_split unfolding TrimSpace_def by blast
    with p have "prefix p (trim_left s)" by (metis prefix_prefix)
    with p trim_left_len[of s] show False using space_len_0 by blast
  qed
  show "space_len_end (TrimSpace s) = 0"
    by (simp add: TrimSpace_def trim_right_len)
qed

lemma TrimSpace_fix: "TrimSpace s = s \<longleftrightarrow> space_len s = 0 \<and> space_len_end s = 0"
  using TrimSpace_ends[of s] by (auto simp: TrimSpace_def trim_left_id trim_right_id)

lemma TrimSpace_idem [go_simps, simp]: "TrimSpace (TrimSpace s) = TrimSpace s"
  by (simp add: TrimSpace_fix TrimSpace_ends)

lemma TrimSpace_space_free [go_simps, simp]: "space_free s \<Longrightarrow> TrimSpace s = s"
  by (simp add: TrimSpace_fix space_len_end_space_free) (auto simp: space_free_iff)

lemma TrimSpace_split: "\<exists>l r. blank l \<and> blank r \<and> s = l @ TrimSpace s @ r"
  using trim_left_split[of s] trim_right_split[of "trim_left s"] by (metis TrimSpace_def)

subsection \<open>Fields\<close>

fun fields_from :: "string \<Rightarrow> string \<Rightarrow> string list" where
  "fields_from cur [] = (if cur = [] then [] else [cur])"
| "fields_from cur (c # s) =
     (if space_len (c # s) = 0 then fields_from (cur @ [c]) s
      else (if cur = [] then [] else [cur]) @ fields_from [] (drop (space_len (c # s) - 1) s))"

definition Fields :: "string \<Rightarrow> string list" where
  "Fields s = fields_from [] s"

lemma drop_space_Cons: "0 < space_len (c # s) \<Longrightarrow> drop (space_len (c # s) - 1) s = drop (space_len (c # s)) (c # s)"
  by (cases "space_len (c # s)") auto

lemma fields_from_Nil_iff: "fields_from cur s = [] \<longleftrightarrow> cur = [] \<and> blank s"
proof (induction cur s rule: fields_from.induct)
  case (2 cur c s)
  show ?case
  proof (cases "space_len (c # s) = 0")
    case True
    with 2 show ?thesis using blank_space_len[of "c # s"] by auto
  next
    case False
    then obtain p r where p: "p \<in> set space_runes" "c # s = p @ r" "length p = space_len (c # s)"
      using space_len_pos[of "c # s"] by auto
    then have "blank (c # s) \<longleftrightarrow> blank r"
      using blank_drop[of "c # s"] blank_append blank_rune by (metis append_eq_conv_conj)
    moreover have "drop (space_len (c # s) - 1) s = r"
      using False p by (metis append_eq_conv_conj drop_space_Cons gr0I)
    ultimately show ?thesis using 2(2) False by auto
  qed
qed auto

lemma Fields_eq_Nil: "Fields s = [] \<longleftrightarrow> TrimSpace s = []"
  by (simp add: Fields_def fields_from_Nil_iff TrimSpace_eq_Nil)

text \<open>What a field looks like. The accumulator never holds the start of a white-space rune, seen
  together with the rest of the input.\<close>

definition no_space_in :: "string \<Rightarrow> string \<Rightarrow> bool" where
  "no_space_in cur s \<longleftrightarrow> (\<forall>a b. cur = a @ b \<longrightarrow> b \<noteq> [] \<longrightarrow> space_len (b @ s) = 0)"

lemma no_space_in_Nil [simp]: "no_space_in [] s"
  by (simp add: no_space_in_def)

lemma no_space_in_step:
  "no_space_in cur (c # s) \<Longrightarrow> space_len (c # s) = 0 \<Longrightarrow> no_space_in (cur @ [c]) s"
proof -
  assume *: "no_space_in cur (c # s)" "space_len (c # s) = 0"
  show ?thesis unfolding no_space_in_def
  proof (intro allI impI)
    fix a b assume "cur @ [c] = a @ b" "b \<noteq> []"
    then obtain b' where "cur = a @ b'" "b = b' @ [c]"
      by (metis append_butlast_last_id append_assoc last_appendR last_snoc butlast_append butlast_snoc)
    with * show "space_len (b @ s) = 0"
      by (cases "b' = []") (auto simp: no_space_in_def)
  qed
qed

lemma space_len_prefix: "space_len (b @ s) = 0 \<Longrightarrow> space_len b = 0"
  by (auto simp: space_len_0)

lemma no_space_in_free: "no_space_in cur s \<Longrightarrow> space_free cur"
  unfolding no_space_in_def space_free_iff by (metis space_len_Nil space_len_prefix)

lemma fields_from_items:
  "no_space_in cur s \<Longrightarrow> f \<in> set (fields_from cur s) \<Longrightarrow> f \<noteq> [] \<and> space_free f"
proof (induction cur s rule: fields_from.induct)
  case (1 cur)
  then show ?case by (auto split: if_splits dest: no_space_in_free)
next
  case (2 cur c s)
  then show ?case
    by (auto split: if_splits dest: no_space_in_free no_space_in_step)
qed

lemma Fields_items: "f \<in> set (Fields s) \<Longrightarrow> f \<noteq> [] \<and> space_free f"
  unfolding Fields_def by (rule fields_from_items) simp_all

text \<open>A field runs up to the next white space or the end.\<close>

lemma fields_from_free:
  assumes "space_free f" "s = [] \<or> \<not> is_cont (hd s)"
  shows "fields_from cur (f @ s) = fields_from (cur @ f) s"
  using assms(1)
proof (induction f arbitrary: cur)
  case (Cons c f)
  have "space_len ((c # f) @ s) = space_len (c # f)"
    by (rule space_len_append) (use assms(2) in auto)
  with Cons show ?case by simp
qed simp

lemma not_cont_space [simp]: "\<not> is_cont CHR '' ''"
  by (simp add: is_cont_def)

lemma space_len_space [simp]: "space_len (CHR '' '' # s) = 1"
  using space_len_rune[of "'' ''" s] by simp

subsection \<open>Join\<close>

fun Join :: "string list \<Rightarrow> string \<Rightarrow> string" where
  "Join [] sep = []"
| "Join [x] sep = x"
| "Join (x # y # xs) sep = x @ sep @ Join (y # xs) sep"

lemma Fields_Join:
  assumes "\<forall>f\<in>set fs. f \<noteq> [] \<and> space_free f"
  shows "Fields (Join fs '' '') = fs"
  using assms
proof (induction fs)
  case (Cons x xs)
  show ?case
  proof (cases xs)
    case Nil
    with Cons show ?thesis
      using fields_from_free[of x "[]" "[]"] by (simp add: Fields_def)
  next
    case (Cons y ys)
    with Cons.IH Cons.prems show ?thesis
      using fields_from_free[of x "'' '' @ Join xs '' ''" "[]"] by (simp add: Fields_def)
  qed
qed (simp add: Fields_def)

lemma Fields_single [go_simps]: "space_free f \<Longrightarrow> f \<noteq> [] \<Longrightarrow> Fields f = [f]"
  using Fields_Join[of "[f]"] by simp

text \<open>Blank text at the ends makes no difference to the fields.\<close>

lemma fields_from_blank_left: "blank l \<Longrightarrow> fields_from [] (l @ s) = fields_from [] s"
proof -
  assume "blank l"
  then obtain ps where "set ps \<subseteq> set space_runes" "l = concat ps"
    unfolding blank_def by blast
  then show ?thesis
  proof (induction ps arbitrary: l)
    case (Cons p ps)
    then obtain c q where p: "p = c # q" using space_runes_shape by fastforce
    have "space_len (p @ concat ps @ s) = length p" using Cons.prems by simp
    with Cons p show ?case by simp
  qed simp
qed

lemma fields_from_blank_right: "blank r \<Longrightarrow> fields_from cur (s @ r) = fields_from cur s"
proof (induction cur s rule: fields_from.induct)
  case (1 cur)
  then show ?case
  proof (cases "r = []")
    case False
    with 1 have *: "0 < space_len r" "blank (drop (space_len r) r)"
      by (simp_all add: blank_space_len blank_drop)
    with False show ?thesis
      using drop_space_Cons[of "hd r" "tl r"]
      by (cases r) (auto simp: fields_from_Nil_iff)
  qed simp
next
  case (2 cur c s)
  have len: "space_len (c # s @ r) = space_len (c # s)"
    using space_len_append[of "c # s" r] blank_hd[OF 2(3)] by simp
  have "space_len (c # s) - 1 \<le> length s"
    using space_len_le[of "c # s"] by simp
  with 2 len show ?case by simp
qed

lemma Fields_TrimSpace [simp]: "Fields (TrimSpace s) = Fields s"
  using TrimSpace_split[of s] unfolding Fields_def
  by (metis fields_from_blank_left fields_from_blank_right)

subsection \<open>The byte-wise functions\<close>

definition HasPrefix :: "string \<Rightarrow> string \<Rightarrow> bool" where
  "HasPrefix s p \<longleftrightarrow> prefix p s"

definition HasSuffix :: "string \<Rightarrow> string \<Rightarrow> bool" where
  "HasSuffix s p \<longleftrightarrow> suffix p s"

definition TrimPrefix :: "string \<Rightarrow> string \<Rightarrow> string" where
  "TrimPrefix s p = (if HasPrefix s p then drop (length p) s else s)"

definition TrimSuffix :: "string \<Rightarrow> string \<Rightarrow> string" where
  "TrimSuffix s p = (if HasSuffix s p then take (length s - length p) s else s)"

definition Contains :: "string \<Rightarrow> string \<Rightarrow> bool" where
  "Contains s t \<longleftrightarrow> sublist t s"

text \<open>\<open>Count\<close> and \<open>TrimRight\<close> are used with a one-byte argument only.\<close>

definition Count :: "string \<Rightarrow> char \<Rightarrow> nat" where
  "Count s c = count_list s c"

definition TrimRight :: "string \<Rightarrow> char \<Rightarrow> string" where
  "TrimRight s c = rev (dropWhile (\<lambda>d. d = c) (rev s))"

text \<open>
  \<open>EqualFold(s, t)\<close> for an ASCII \<open>t\<close> without the letters K and S: only those two have a
  non-ASCII simple fold (the Kelvin sign and the long s), so the comparison is bytewise.
\<close>

definition fold_byte :: "char \<Rightarrow> char" where
  "fold_byte c =
     (let n = of_char c :: nat in if 65 \<le> n \<and> n \<le> 90 then char_of (n + 32) else c)"

definition EqualFold :: "string \<Rightarrow> string \<Rightarrow> bool" where
  "EqualFold s t \<longleftrightarrow> map fold_byte s = map fold_byte t"

lemma Contains_single [go_simps]: "Contains s [c] \<longleftrightarrow> c \<in> set s"
  unfolding Contains_def by (auto simp: sublist_def in_set_conv_decomp)

lemma HasPrefix_iff: "HasPrefix s p \<longleftrightarrow> (\<exists>r. s = p @ r)"
  by (auto simp: HasPrefix_def prefix_def)

lemma HasSuffix_iff: "HasSuffix s p \<longleftrightarrow> (\<exists>r. s = r @ p)"
  by (auto simp: HasSuffix_def suffix_def)

lemma TrimPrefix_append [go_simps]: "TrimPrefix (p @ r) p = r"
  by (simp add: TrimPrefix_def HasPrefix_def)

lemma TrimSuffix_append [go_simps]: "TrimSuffix (r @ p) p = r"
  by (simp add: TrimSuffix_def HasSuffix_iff)

lemma EqualFold_refl [simp]: "EqualFold s s"
  by (simp add: EqualFold_def)

lemma EqualFold_length: "EqualFold s t \<Longrightarrow> length s = length t"
  unfolding EqualFold_def by (metis length_map)

lemma TrimRight_split: "\<exists>r. set r \<subseteq> {c} \<and> s = TrimRight s c @ r"
proof (intro exI conjI)
  let ?r = "rev (takeWhile (\<lambda>d. d = c) (rev s))"
  show "set ?r \<subseteq> {c}" by (auto dest: set_takeWhileD)
  show "s = TrimRight s c @ ?r"
    unfolding TrimRight_def by (metis rev_append rev_rev_ident takeWhile_dropWhile_id)
qed

lemma TrimRight_last: "TrimRight s c = [] \<or> last (TrimRight s c) \<noteq> c"
proof (cases "dropWhile (\<lambda>d. d = c) (rev s)")
  case Nil
  then show ?thesis by (simp add: TrimRight_def)
next
  case (Cons d t)
  then have "d \<noteq> c" using hd_dropWhile[of "\<lambda>d. d = c" "rev s"] by simp
  with Cons show ?thesis by (simp add: TrimRight_def last_rev)
qed

lemma TrimRight_id: "s = [] \<or> last s \<noteq> c \<Longrightarrow> TrimRight s c = s"
  unfolding TrimRight_def by (cases s rule: rev_cases) auto

lemma TrimRight_idem [go_simps, simp]: "TrimRight (TrimRight s c) c = TrimRight s c"
  by (rule TrimRight_id[OF TrimRight_last])

end
