(* ===== verification/Go_Encoding.thy ===== *)
theory Go_Encoding
  imports Go_Strings
begin

text \<open>
  \<open>encoding/base64\<close>, the encoding \<open>RawURLEncoding\<close> (URL-safe alphabet, no padding), and
  \<open>big.Int.SetBytes\<close>. As Go's decoder does, \<open>RawURL_Decode\<close> skips carriage returns and line
  feeds and ignores the unused low bits of a last, incomplete group.
\<close>

text \<open>The alphabet: \<open>A-Z a-z 0-9 - _\<close>, by position.\<close>

definition b64_char :: "nat \<Rightarrow> char" where
  "b64_char n =
     (if n < 26 then char_of (n + 65)
      else if n < 52 then char_of (n + 71)
      else if n < 62 then char_of (n - 4)
      else if n = 62 then CHR ''-'' else CHR ''_'')"

definition b64_val :: "char \<Rightarrow> nat option" where
  "b64_val c =
     (let n = of_char c :: nat in
      if 65 \<le> n \<and> n \<le> 90 then Some (n - 65)
      else if 97 \<le> n \<and> n \<le> 122 then Some (n - 71)
      else if 48 \<le> n \<and> n \<le> 57 then Some (n + 4)
      else if n = 45 then Some 62
      else if n = 95 then Some 63
      else None)"

fun b64_groups :: "nat list \<Rightarrow> string" where
  "b64_groups [] = []"
| "b64_groups [a] = [b64_char (a div 4), b64_char (a mod 4 * 16)]"
| "b64_groups [a, b] =
     [b64_char (a div 4), b64_char (a mod 4 * 16 + b div 16), b64_char (b mod 16 * 4)]"
| "b64_groups (a # b # c # r) =
     b64_char (a div 4) # b64_char (a mod 4 * 16 + b div 16) #
     b64_char (b mod 16 * 4 + c div 64) # b64_char (c mod 64) # b64_groups r"

definition RawURL_EncodeToString :: "string \<Rightarrow> string" where
  "RawURL_EncodeToString s = b64_groups (map of_char s)"

fun b64_bytes :: "nat list \<Rightarrow> nat list option" where
  "b64_bytes [] = Some []"
| "b64_bytes [_] = None"
| "b64_bytes [a, b] = Some [a * 4 + b div 16]"
| "b64_bytes [a, b, c] = Some [a * 4 + b div 16, b mod 16 * 16 + c div 4]"
| "b64_bytes (a # b # c # d # r) =
     map_option (\<lambda>t. (a * 4 + b div 16) # (b mod 16 * 16 + c div 4) # (c mod 4 * 64 + d) # t)
       (b64_bytes r)"

definition RawURL_DecodeString :: "string \<Rightarrow> string option" where
  "RawURL_DecodeString s =
     (case those (map b64_val (filter (\<lambda>c. c \<noteq> CHR 0x0A \<and> c \<noteq> CHR 0x0D) s)) of
        None \<Rightarrow> None
      | Some vals \<Rightarrow> map_option (map char_of) (b64_bytes vals))"

definition SetBytes :: "string \<Rightarrow> nat" where
  "SetBytes s = foldl (\<lambda>n c. n * 256 + of_char c) 0 s"

subsection \<open>Decoding what was encoded\<close>

lemma of_b64_char:
  "n < 64 \<Longrightarrow> of_char (b64_char n) =
     (if n < 26 then n + 65 else if n < 52 then n + 71 else if n < 62 then n - 4
      else if n = 62 then 45 else (95 :: nat))"
  by (simp add: b64_char_def)

lemma b64_val_char [simp]: "n < 64 \<Longrightarrow> b64_val (b64_char n) = Some n"
  unfolding b64_val_def Let_def of_b64_char by (auto split: if_splits)

lemma b64_char_range: "n < 64 \<Longrightarrow> 33 \<le> (of_char (b64_char n) :: nat) \<and> (of_char (b64_char n) :: nat) < 128"
  by (auto simp: of_b64_char)

lemma b64_char_no_newline [simp]:
  assumes "n < 64" shows "b64_char n \<noteq> CHR 0x0A" "b64_char n \<noteq> CHR 0x0D"
proof -
  have "b64_char n \<noteq> c" if "(of_char c :: nat) < 33" for c
    using b64_char_range[OF assms] that by auto
  then show "b64_char n \<noteq> CHR 0x0A" "b64_char n \<noteq> CHR 0x0D" by simp_all
qed

definition b64_vals :: "string \<Rightarrow> nat list option" where
  "b64_vals s = those (map b64_val (filter (\<lambda>c. c \<noteq> CHR 0x0A \<and> c \<noteq> CHR 0x0D) s))"

lemma b64_vals_simps [simp]:
  "b64_vals [] = Some []"
  "n < 64 \<Longrightarrow> b64_vals (b64_char n # s) = map_option ((#) n) (b64_vals s)"
  by (simp_all add: b64_vals_def)

lemma b64_roundtrip:
  "\<forall>x\<in>set xs. x < 256 \<Longrightarrow>
   \<exists>vals. b64_vals (b64_groups xs) = Some vals \<and> b64_bytes vals = Some xs"
proof (induction xs rule: b64_groups.induct)
  case (2 a)
  then have "a div 4 < 64" "a mod 4 * 16 < 64" by auto
  then show ?case by simp
next
  case (3 a b)
  then have "a div 4 < 64" "a mod 4 * 16 + b div 16 < 64" "b mod 16 * 4 < 64" by auto
  moreover have "(a mod 4 * 16 + b div 16) div 16 = a mod 4"
      "(a mod 4 * 16 + b div 16) mod 16 = b div 16"
    using 3 by auto
  ultimately show ?case by simp
next
  case (4 a b c r)
  then obtain vals where r: "b64_vals (b64_groups r) = Some vals" "b64_bytes vals = Some r"
    by auto
  have lt: "a div 4 < 64" "a mod 4 * 16 + b div 16 < 64" "b mod 16 * 4 + c div 64 < 64" "c mod 64 < 64"
    using 4(2) by auto
  have eqs: "(a mod 4 * 16 + b div 16) div 16 = a mod 4"
      "(a mod 4 * 16 + b div 16) mod 16 = b div 16"
      "(b mod 16 * 4 + c div 64) div 4 = b mod 16"
      "(b mod 16 * 4 + c div 64) mod 4 = c div 64"
    using 4(2) by auto
  have bk: "a div 4 * 4 + a mod 4 = a" "b div 16 mod 16 * 16 + b mod 16 = b"
      "c div 64 mod 4 * 64 + c mod 64 = c"
    using 4(2) by auto
  show ?case using r by (simp add: lt eqs bk)
qed simp

lemma RawURL_roundtrip: "RawURL_DecodeString (RawURL_EncodeToString s) = Some s"
proof -
  have "\<forall>x\<in>set (map of_char s :: nat list). x < 256" by (auto simp: of_char_def)
  then obtain vals where
    "b64_vals (RawURL_EncodeToString s) = Some vals" "b64_bytes vals = Some (map of_char s)"
    using b64_roundtrip unfolding RawURL_EncodeToString_def by blast
  then show ?thesis
    by (simp add: RawURL_DecodeString_def b64_vals_def comp_def)
qed

lemma RawURL_EncodeToString_eq_Nil: "RawURL_EncodeToString s = [] \<longleftrightarrow> s = []"
  by (cases "map of_char s :: nat list" rule: b64_groups.cases)
    (auto simp: RawURL_EncodeToString_def)

lemma length_b64_groups: "length (b64_groups xs) = (4 * length xs + 2) div 3"
  by (induction xs rule: b64_groups.induct) auto

text \<open>Encoded text is free of white space.\<close>

lemma b64_groups_range:
  "\<forall>x\<in>set xs. x < 256 \<Longrightarrow> c \<in> set (b64_groups xs) \<Longrightarrow>
   33 \<le> (of_char c :: nat) \<and> (of_char c :: nat) < 128"
proof (induction xs rule: b64_groups.induct)
  case (2 a)
  then have "a div 4 < 64" "a mod 4 * 16 < 64" by auto
  with 2 show ?case using b64_char_range by auto
next
  case (3 a b)
  then have "a div 4 < 64" "a mod 4 * 16 + b div 16 < 64" "b mod 16 * 4 < 64" by auto
  with 3 show ?case using b64_char_range by auto
next
  case (4 a b c r)
  then have "a div 4 < 64" "a mod 4 * 16 + b div 16 < 64" "b mod 16 * 4 + c div 64 < 64" "c mod 64 < 64"
    by auto
  with 4 show ?case using b64_char_range by auto
qed simp

lemma RawURL_EncodeToString_graphic:
  "c \<in> set (RawURL_EncodeToString s) \<Longrightarrow> 33 \<le> (of_char c :: nat) \<and> (of_char c :: nat) < 128"
  unfolding RawURL_EncodeToString_def by (rule b64_groups_range) (auto simp: of_char_def)

lemma RawURL_EncodeToString_space_free: "space_free (RawURL_EncodeToString s)"
  using RawURL_EncodeToString_graphic by (intro graphic_space_free) blast

text \<open>ASCII text, which JSON and every other text format of the program carries unchanged.\<close>

definition ascii :: "string \<Rightarrow> bool" where
  "ascii s \<longleftrightarrow> (\<forall>c\<in>set s. (of_char c :: nat) < 128)"

lemma ascii_simps [simp]: "ascii []" "ascii (c # s) \<longleftrightarrow> (of_char c :: nat) < 128 \<and> ascii s"
  by (auto simp: ascii_def)

lemma RawURL_EncodeToString_ascii: "ascii (RawURL_EncodeToString s)"
  using RawURL_EncodeToString_graphic unfolding ascii_def by blast

end
