(* ===== verification/Go_Float.thy ===== *)
theory Go_Float
  imports Complex_Main Orion_Prelude
begin

text \<open>
  The \<open>float64\<close> values the program meets: \<open>Duration.Seconds()\<close> and what it does with them
  (\<open>int64(ttl.Seconds())\<close>, \<open>math.Ceil(d.Seconds())\<close>). A finite \<open>float64\<close> is the rational it stands
  for; every operation rounds its exact result to 53 significant bits, ties to even.
\<close>

fun bit_len :: "nat \<Rightarrow> nat" where
  "bit_len n = (if n = 0 then 0 else Suc (bit_len (n div 2)))"

declare bit_len.simps [simp del]

definition round_even :: "rat \<Rightarrow> int" where
  "round_even x =
     (let f = \<lfloor>x\<rfloor>; r = x - of_int f in
      if r < 1 / 2 then f else if 1 / 2 < r then f + 1 else if even f then f else f + 1)"

text \<open>Bits after the binary point that a \<open>float64\<close> near \<open>x\<close> has. The formula is that of the format
  for \<open>2\<^sup>-\<^sup>3\<^sup>0 \<le> x < 2\<^sup>5\<^sup>3\<close>, and 0 is represented exactly; a duration in seconds and its fraction of
  a second lie in that range.\<close>

definition frac_bits :: "rat \<Rightarrow> nat" where
  "frac_bits x = 83 - bit_len (nat \<lfloor>\<bar>x\<bar> * 2 ^ 30\<rfloor>)"

definition float64 :: "rat \<Rightarrow> rat" where
  "float64 x = of_int (round_even (x * 2 ^ frac_bits x)) / 2 ^ frac_bits x"

text \<open>\<open>sec := d / Second; nsec := d % Second; return float64(sec) + float64(nsec)/1e9\<close>\<close>

definition Seconds :: "duration \<Rightarrow> rat" where
  "Seconds d =
     (let sec = go_div d second; nsec = d - sec * second in
      float64 (float64 (of_int sec) + float64 (float64 (of_int nsec) / 1000000000)))"

text \<open>\<open>int64(x)\<close> truncates towards zero; \<open>math.Ceil(x)\<close> is exact.\<close>

definition to_int64 :: "rat \<Rightarrow> int" where
  "to_int64 x = (if 0 \<le> x then \<lfloor>x\<rfloor> else \<lceil>x\<rceil>)"

subsection \<open>Rounding\<close>

lemma bit_len_le: "n < 2 ^ k \<Longrightarrow> bit_len n \<le> k"
proof (induction k arbitrary: n)
  case 0
  then show ?case by (simp add: bit_len.simps)
next
  case (Suc k)
  then have "n div 2 < 2 ^ k" by auto
  then show ?case using Suc.IH[of "n div 2"] by (subst bit_len.simps) simp
qed

lemma round_even_int [simp]: "round_even (of_int z) = z"
  by (simp add: round_even_def Let_def)

lemma round_even_error: "\<bar>of_int (round_even x) - x\<bar> \<le> 1 / 2"
proof -
  have "of_int \<lfloor>x\<rfloor> \<le> x" "x < of_int \<lfloor>x\<rfloor> + 1" by linarith+
  then show ?thesis by (auto simp: round_even_def Let_def abs_le_iff)
qed

lemma float64_int [simp]: "float64 (of_int z) = of_int z"
proof -
  have "of_int z * 2 ^ k = (of_int (z * 2 ^ k) :: rat)" for k by simp
  then show ?thesis unfolding float64_def by (metis round_even_int nonzero_mult_div_cancel_right
        of_int_mult of_int_numeral of_int_power power_eq_0_iff zero_neq_numeral)
qed

lemma float64_0 [simp]: "float64 0 = 0"
  using float64_int[of 0] by simp

lemma frac_bits_ge:
  assumes "\<bar>x\<bar> < 2 ^ k" "k \<le> 53"
  shows "53 - k \<le> frac_bits x"
proof -
  have "\<bar>x\<bar> * 2 ^ 30 < 2 ^ k * 2 ^ 30" using assms(1) by simp
  also have "(2 :: rat) ^ k * 2 ^ 30 = of_int (2 ^ (k + 30))" by (simp add: power_add)
  finally have "\<lfloor>\<bar>x\<bar> * 2 ^ 30\<rfloor> < 2 ^ (k + 30)" by (simp only: floor_less_iff)
  then have "nat \<lfloor>\<bar>x\<bar> * 2 ^ 30\<rfloor> < 2 ^ (k + 30)"
    by (metis nat_less_iff of_nat_numeral of_nat_power semiring_1_class.of_nat_power zero_le_floor
        abs_ge_zero mult_nonneg_nonneg zero_le_power zero_le_numeral)
  then have "bit_len (nat \<lfloor>\<bar>x\<bar> * 2 ^ 30\<rfloor>) \<le> k + 30" by (rule bit_len_le)
  then show ?thesis using assms(2) by (simp add: frac_bits_def)
qed

lemma float64_error:
  assumes "\<bar>x\<bar> < 2 ^ k" "k \<le> 53"
  shows "\<bar>float64 x - x\<bar> \<le> 1 / 2 ^ (54 - k)"
proof -
  let ?b = "frac_bits x"
  have "float64 x - x = (of_int (round_even (x * 2 ^ ?b)) - x * 2 ^ ?b) / 2 ^ ?b"
    by (simp add: float64_def field_simps)
  then have "\<bar>float64 x - x\<bar> = \<bar>of_int (round_even (x * 2 ^ ?b)) - x * 2 ^ ?b\<bar> / 2 ^ ?b"
    by simp
  also have "\<dots> \<le> (1 / 2) / 2 ^ ?b"
    by (intro divide_right_mono round_even_error) simp
  also have "\<dots> = 1 / 2 ^ Suc ?b" by simp
  also have "\<dots> \<le> 1 / 2 ^ (54 - k)"
    using frac_bits_ge[OF assms] assms(2)
    by (intro divide_left_mono power_increasing) auto
  finally show ?thesis .
qed

lemma abs_diff_bounds:
  fixes f :: rat
  shows "\<bar>f - r\<bar> \<le> e \<Longrightarrow> a \<le> r \<Longrightarrow> r \<le> b \<Longrightarrow> a - e \<le> f \<and> f \<le> b + e"
  by linarith

text \<open>Durations below \<open>2\<^sup>2\<^sup>2\<close> seconds (48 days) keep their whole seconds: the two roundings are
  smaller than a nanosecond.\<close>

lemma Seconds_bounds:
  assumes "0 \<le> d" "d < 2 ^ 22 * second"
  shows "of_int (d div second) \<le> Seconds d"
    and "Seconds d < of_int (d div second) + 1"
    and "d mod second = 0 \<Longrightarrow> Seconds d = of_int (d div second)"
    and "d mod second \<noteq> 0 \<Longrightarrow> of_int (d div second) < Seconds d"
proof -
  let ?s = "d div second" and ?n = "d mod second"
  let ?f = "float64 (of_int ?n / 1000000000) :: rat"
  have sec: "go_div d second = ?s" using assms(1) by (simp add: go_div_def second_def sgn_if)
  have S: "Seconds d = float64 (of_int ?s + ?f)"
    unfolding Seconds_def sec Let_def minus_div_mult_eq_mod float64_int ..
  have s: "0 \<le> ?s" "?s < 2 ^ 22" using assms by (auto simp: second_def)
  have n: "0 \<le> ?n" "?n \<le> 999999999" by (auto simp: second_def)
  show exact: "Seconds d = of_int ?s" if "?n = 0" using that by (simp add: S)
  have pos: "of_int ?s < Seconds d \<and> Seconds d < of_int ?s + 1" if "?n \<noteq> 0"
  proof -
    have r: "1 / 1000000000 \<le> (of_int ?n / 1000000000 :: rat)"
        "of_int ?n / 1000000000 \<le> (999999999 / 1000000000 :: rat)"
      using n that by (auto intro!: divide_right_mono)
    have "\<bar>?f - of_int ?n / 1000000000\<bar> \<le> 1 / 2 ^ (54 - 0)"
      using r by (intro float64_error) auto
    then have e: "\<bar>?f - of_int ?n / 1000000000\<bar> \<le> 1 / 2 ^ 54"
      unfolding diff_zero .
    have f: "1 / 1000000000 - 1 / 2 ^ 54 \<le> ?f" "?f \<le> 999999999 / 1000000000 + 1 / 2 ^ 54"
      using abs_diff_bounds[OF e r] by blast+
    have "\<bar>of_int ?s + ?f\<bar> < 2 ^ 22"
    proof -
      have "(of_int ?s :: rat) \<le> of_int (2 ^ 22 - 1)" using s(2) by (intro of_int_le_iff[THEN iffD2]) simp
      moreover have "(0 :: rat) \<le> of_int ?s" using s(1) by simp
      ultimately show ?thesis using f by (simp add: abs_less_iff)
    qed
    then have "\<bar>float64 (of_int ?s + ?f) - (of_int ?s + ?f)\<bar> \<le> 1 / 2 ^ (54 - 22)"
      by (rule float64_error) simp
    from abs_diff_bounds[OF this order_refl order_refl]
    have "of_int ?s + ?f - 1 / 2 ^ 32 \<le> Seconds d \<and> Seconds d \<le> of_int ?s + ?f + 1 / 2 ^ 32"
      unfolding S by simp
    then show ?thesis using f by (simp add: field_simps)
  qed
  show "of_int ?s \<le> Seconds d" "Seconds d < of_int ?s + 1" "?n \<noteq> 0 \<Longrightarrow> of_int ?s < Seconds d"
    using exact pos by fastforce+
qed

lemma to_int64_Seconds:
  assumes "0 \<le> d" "d < 2 ^ 22 * second"
  shows "to_int64 (Seconds d) = d div second"
proof -
  have "(0::int) \<le> d div second" using assms(1) by (simp add: second_def)
  then have "(0 :: rat) \<le> of_int (d div second)" by (simp only: of_int_0_le_iff)
  then have "0 \<le> Seconds d" using Seconds_bounds(1)[OF assms] by linarith
  then show ?thesis
    using Seconds_bounds(1,2)[OF assms] by (simp add: to_int64_def floor_eq_iff)
qed

lemma second_pos [simp]: "0 < second"
  by (simp add: second_def)

lemma div_round_up: "(d + second - 1) div second = d div second + (if d mod second = 0 then 0 else 1)"
proof -
  have "(d + second - 1) div second = (d mod second + (second - 1) + (d div second) * second) div second"
    by (simp add: algebra_simps)
  also have "\<dots> = d div second + (d mod second + (second - 1)) div second"
    by (subst div_mult_self1) (simp_all add: second_def)
  also have "(d mod second + (second - 1)) div second = (if d mod second = 0 then 0 else 1)"
  proof (cases "d mod second = 0")
    case False
    then have "0 < d mod second" "d mod second < second"
      using pos_mod_bound[OF second_pos, of d] pos_mod_sign[OF second_pos, of d] by linarith+
    then have "(d mod second + (second - 1)) div second = 1"
      by (intro int_div_pos_eq[where r = "d mod second - 1"]) linarith+
    then show ?thesis using False by simp
  qed (simp add: second_def)
  finally show ?thesis .
qed

lemma ceil_Seconds:
  assumes "0 \<le> d" "d < 2 ^ 22 * second"
  shows "\<lceil>Seconds d\<rceil> = (d + second - 1) div second"
proof (cases "d mod second = 0")
  case True
  then show ?thesis using Seconds_bounds(3)[OF assms True] by (simp add: div_round_up)
next
  case False
  then show ?thesis
    using Seconds_bounds(4)[OF assms False] Seconds_bounds(2)[OF assms]
    by (simp add: div_round_up ceiling_eq_iff)
qed

end
