(* ===== verification/Go_Paths.thy ===== *)
theory Go_Paths
  imports Go_Strings
begin

text \<open>
  What the program does with URL paths: splitting at slashes, and the test for a static path, shared
  by \<open>ginorion/routes.go\<close> and \<open>internal/authapp/runtime_config.go\<close>.

  As with white space, the control characters of \<open>unicode.IsControl\<close> are recognised by their UTF-8
  encodings: one byte below \<open>0x20\<close>, \<open>0x7F\<close>, or \<open>0xC2\<close> followed by \<open>0x80\<close> to \<open>0x9F\<close>.
\<close>

text \<open>\<open>strings.Split\<close> at a separator of one byte.\<close>

fun Split :: "char \<Rightarrow> string \<Rightarrow> string list" where
  "Split sep [] = [[]]"
| "Split sep (c # s) =
     (if c = sep then [] # Split sep s
      else (case Split sep s of [] \<Rightarrow> [[c]] | w # ws \<Rightarrow> (c # w) # ws))"

definition ContainsAny :: "string \<Rightarrow> string \<Rightarrow> bool" where
  "ContainsAny s chars \<longleftrightarrow> list_ex (\<lambda>c. c \<in> set chars) s"

text \<open>\<open>strings.IndexFunc(s, p) >= 0\<close>, for a test of the rune at the start of a string.\<close>

fun any_rune :: "(string \<Rightarrow> bool) \<Rightarrow> string \<Rightarrow> bool" where
  "any_rune p [] = False"
| "any_rune p (c # s) = (p (c # s) \<or> any_rune p s)"

definition control_at :: "string \<Rightarrow> bool" where
  "control_at s =
     (case s of
        [] \<Rightarrow> False
      | c # r \<Rightarrow> (of_char c :: nat) < 32 \<or> (of_char c :: nat) = 127 \<or>
          c = CHR 0xC2 \<and> (case r of [] \<Rightarrow> False | d # _ \<Rightarrow> 128 \<le> (of_char d :: nat) \<and> (of_char d :: nat) < 160))"

definition has_control_or_space :: "string \<Rightarrow> bool" where
  "has_control_or_space = any_rune (\<lambda>s. control_at s \<or> 0 < space_len s)"

text \<open>A path without control characters, white space and the characters with a meaning in routes.\<close>

definition plain_path :: "string \<Rightarrow> bool" where
  "plain_path path \<longleftrightarrow> \<not> ContainsAny path '':*?#'' \<and> \<not> has_control_or_space path"

lemma Split_not_Nil [simp]: "Split sep s \<noteq> []"
  by (cases s) (auto split: list.split)

lemma ContainsAny_append [simp]: "ContainsAny (s @ t) chars \<longleftrightarrow> ContainsAny s chars \<or> ContainsAny t chars"
  by (simp add: ContainsAny_def)

lemma any_rune_drop: "\<not> any_rune p s \<Longrightarrow> \<not> any_rune p (drop n s)"
proof (induction s arbitrary: n)
  case (Cons c s)
  then show ?case by (cases n) auto
qed simp

lemma any_rune_iff: "any_rune p s \<longleftrightarrow> (\<exists>a b. s = a @ b \<and> b \<noteq> [] \<and> p b)"
proof (induction s)
  case (Cons c s)
  show ?case
  proof
    assume "any_rune p (c # s)"
    then show "\<exists>a b. c # s = a @ b \<and> b \<noteq> [] \<and> p b"
      using Cons by (auto intro: exI[of _ "[]"] exI[of _ "c # _"]) (metis append_Cons)
  next
    assume "\<exists>a b. c # s = a @ b \<and> b \<noteq> [] \<and> p b"
    then obtain a b where "c # s = a @ b" "b \<noteq> []" "p b" by blast
    then show "any_rune p (c # s)" using Cons by (cases a) auto
  qed
qed simp

text \<open>A string without white space is its own trimmed form.\<close>

lemma space_free_of_no_space: "\<not> has_control_or_space s \<Longrightarrow> space_free s"
  unfolding has_control_or_space_def any_rune_iff space_free_iff by (metis space_len_Nil neq0_conv)

lemma TrimSpace_plain [simp]: "\<not> has_control_or_space s \<Longrightarrow> TrimSpace s = s"
  by (rule TrimSpace_space_free[OF space_free_of_no_space])

end
