(* ===== verification/Go_Url.thy ===== *)
theory Go_Url
  imports Go_Encoding Go_Paths
begin

text \<open>
  What an HTTP exchange of the program needs of the standard library: \<open>url.QueryEscape\<close> and its inverse,
  \<open>url.Values.Encode\<close> and \<open>url.ParseQuery\<close>, the padded alphabet of \<open>base64.StdEncoding\<close>, and the header of
  \<open>SetBasicAuth\<close> with its reader \<open>BasicAuth\<close>. Each encoder is followed by the law of its reader.
\<close>

subsection \<open>Query escaping\<close>

definition hex_digit :: "nat \<Rightarrow> char" where
  "hex_digit n = (if n < 10 then char_of (n + 48) else char_of (n + 55))"

definition unhex :: "char \<Rightarrow> nat option" where
  "unhex c =
     (let n = of_char c :: nat in
      if 48 \<le> n \<and> n \<le> 57 then Some (n - 48)
      else if 97 \<le> n \<and> n \<le> 102 then Some (n - 87)
      else if 65 \<le> n \<and> n \<le> 70 then Some (n - 55)
      else None)"

text \<open>The bytes that stay as they are: letters, digits and \<open>-_.~\<close>.\<close>

definition query_plain :: "char \<Rightarrow> bool" where
  "query_plain c \<longleftrightarrow>
     (let n = of_char c :: nat in
      (97 \<le> n \<and> n \<le> 122) \<or> (65 \<le> n \<and> n \<le> 90) \<or> (48 \<le> n \<and> n \<le> 57) \<or> n \<in> {45, 95, 46, 126})"

definition escape_byte :: "char \<Rightarrow> string" where
  "escape_byte c =
     (if query_plain c then [c]
      else if c = CHR '' '' then ''+''
      else [CHR 0x25, hex_digit (of_char c div 16), hex_digit (of_char c mod 16)])"

definition QueryEscape :: "string \<Rightarrow> string" where
  "QueryEscape s = concat (map escape_byte s)"

fun QueryUnescape :: "string \<Rightarrow> string option" where
  "QueryUnescape [] = Some []"
| "QueryUnescape (c # s) =
     (if c = CHR 0x25 then
        (case s of
           a # b # s' \<Rightarrow>
             (case (unhex a, unhex b, QueryUnescape s') of
                (Some x, Some y, Some r) \<Rightarrow> Some (char_of (x * 16 + y) # r)
              | _ \<Rightarrow> None)
         | _ \<Rightarrow> None)
      else map_option ((#) (if c = CHR ''+'' then CHR '' '' else c)) (QueryUnescape s))"

lemma unhex_hex_digit [simp]: "n < 16 \<Longrightarrow> unhex (hex_digit n) = Some n"
  by (auto simp: unhex_def hex_digit_def Let_def)

lemma query_plain_neq:
  "query_plain c \<Longrightarrow> c \<noteq> CHR 0x25 \<and> c \<noteq> CHR ''+'' \<and> c \<noteq> CHR ''&'' \<and> c \<noteq> CHR '';'' \<and> c \<noteq> CHR ''=''"
  by (auto simp: query_plain_def Let_def)

lemma query_plain_hex [simp]: "n < 16 \<Longrightarrow> query_plain (hex_digit n)"
  by (auto simp: query_plain_def hex_digit_def Let_def)

text \<open>Escaped text holds plain bytes, plus signs and percent signs only.\<close>

lemma QueryEscape_chars:
  assumes "c \<in> set (QueryEscape s)"
  shows "c \<noteq> CHR ''&''" "c \<noteq> CHR '';''" "c \<noteq> CHR ''=''"
proof -
  from assms obtain d where d: "c \<in> set (escape_byte d)" by (auto simp: QueryEscape_def)
  have digit: "(of_char d :: nat) div 16 < 16"
    using nat_of_char_less_256 by (simp add: less_mult_imp_div_less)
  have "query_plain c \<or> c = CHR ''+'' \<or> c = CHR 0x25"
    using d digit by (auto simp: escape_byte_def split: if_splits)
  then show "c \<noteq> CHR ''&''" "c \<noteq> CHR '';''" "c \<noteq> CHR ''=''" using query_plain_neq by auto
qed

lemma QueryUnescape_escape_byte:
  "QueryUnescape (escape_byte c @ s) = map_option ((#) c) (QueryUnescape s)"
proof -
  have digit: "(of_char c :: nat) div 16 < 16"
    using nat_of_char_less_256 by (simp add: less_mult_imp_div_less)
  have "of_char c div 16 * 16 + of_char c mod 16 = (of_char c :: nat)" by simp
  then show ?thesis
    using digit query_plain_neq[of c] by (auto simp: escape_byte_def split: option.split)
qed

lemma QueryUnescape_roundtrip: "QueryUnescape (QueryEscape s) = Some s"
  by (induction s) (simp_all add: QueryEscape_def QueryUnescape_escape_byte)

subsection \<open>Forms\<close>

text \<open>A form with one value for each of its keys, as \<open>Values.Set\<close> builds it; \<open>Encode\<close> sorts by key.\<close>

type_synonym form = "(string \<times> string) list"

definition encode_field :: "string \<times> string \<Rightarrow> string" where
  "encode_field f = QueryEscape (fst f) @ ''='' @ QueryEscape (snd f)"

definition Encode :: "form \<Rightarrow> string" where
  "Encode form = Join (map encode_field (sort_key fst form)) ''&''"

text \<open>\<open>strings.Cut\<close> at one byte: what is before the first occurrence and what is behind it.\<close>

definition Cut :: "string \<Rightarrow> char \<Rightarrow> string \<times> string \<times> bool" where
  "Cut s sep = (takeWhile (\<lambda>c. c \<noteq> sep) s, tl (dropWhile (\<lambda>c. c \<noteq> sep) s), sep \<in> set s)"

text \<open>The fields of a query, in order, and whether some part of it was refused.\<close>

fun parse_fields :: "string list \<Rightarrow> form \<times> bool" where
  "parse_fields [] = ([], False)"
| "parse_fields (chunk # chunks) =
     (let (fields, failed) = parse_fields chunks in
      if CHR '';'' \<in> set chunk then (fields, True)
      else if chunk = [] then (fields, failed)
      else
        (let (key, val, _) = Cut chunk CHR ''='' in
         case QueryUnescape key of
           None \<Rightarrow> (fields, True)
         | Some k \<Rightarrow>
             (case QueryUnescape val of
                None \<Rightarrow> (fields, True)
              | Some v \<Rightarrow> ((k, v) # fields, failed))))"

definition ParseQuery :: "string \<Rightarrow> form \<times> bool" where
  "ParseQuery query = parse_fields (Split CHR ''&'' query)"

lemma Cut_append: "sep \<notin> set a \<Longrightarrow> Cut (a @ sep # b) sep = (a, b, True)"
  by (induction a) (auto simp: Cut_def)

lemma Split_free: "sep \<notin> set w \<Longrightarrow> Split sep w = [w]"
  by (induction w) auto

lemma Split_append: "sep \<notin> set w \<Longrightarrow> Split sep (w @ sep # s) = w # Split sep s"
  by (induction w) auto

lemma encode_field_chars: "CHR ''&'' \<notin> set (encode_field f)" "CHR '';'' \<notin> set (encode_field f)"
  using QueryEscape_chars by (fastforce simp: encode_field_def)+

lemma parse_encode_field:
  "parse_fields (encode_field f # chunks) = (f # fst (parse_fields chunks), snd (parse_fields chunks))"
proof -
  have "CHR ''='' \<notin> set (QueryEscape (fst f))" using QueryEscape_chars by blast
  then have "Cut (encode_field f) CHR ''='' = (QueryEscape (fst f), QueryEscape (snd f), True)"
    using Cut_append by (simp add: encode_field_def)
  moreover have "encode_field f \<noteq> []" by (simp add: encode_field_def)
  ultimately show ?thesis
    using encode_field_chars(2)[of f] by (simp add: QueryUnescape_roundtrip split: prod.split)
qed

lemma ParseQuery_Nil [simp]: "ParseQuery [] = ([], False)"
  by (simp add: ParseQuery_def)

lemma ParseQuery_join: "ParseQuery (Join (map encode_field fs) ''&'') = (fs, False)"
proof (induction fs)
  case (Cons f fs)
  show ?case
  proof (cases fs)
    case Nil
    have "ParseQuery (Join (map encode_field [f]) ''&'') = parse_fields [encode_field f]"
      using Split_free[OF encode_field_chars(1)] by (simp add: ParseQuery_def del: parse_fields.simps)
    then show ?thesis unfolding Nil by (simp only: parse_encode_field) simp
  next
    case (Cons g gs)
    then have "Join (map encode_field (f # fs)) ''&'' =
        encode_field f @ CHR ''&'' # Join (map encode_field fs) ''&''" by simp
    then have "ParseQuery (Join (map encode_field (f # fs)) ''&'') =
        parse_fields (encode_field f # Split CHR ''&'' (Join (map encode_field fs) ''&''))"
      using Split_append[OF encode_field_chars(1)] by (simp only: ParseQuery_def)
    then show ?thesis using Cons.IH by (simp only: parse_encode_field ParseQuery_def) simp
  qed
qed simp

text \<open>Reading an encoded form gives its fields back, sorted by key; each key keeps its values.\<close>

lemma ParseQuery_Encode: "ParseQuery (Encode form) = (sort_key fst form, False)"
  by (simp add: Encode_def ParseQuery_join)

definition form_values :: "form \<Rightarrow> string \<Rightarrow> string list" where
  "form_values form key = map snd (filter (\<lambda>f. fst f = key) form)"

lemma form_values_sort [simp]: "form_values (sort_key fst form) key = form_values form key"
  by (simp add: form_values_def sort_key_stable)

subsection \<open>Basic credentials\<close>

text \<open>\<open>base64.StdEncoding\<close>: its alphabet differs from the URL-safe one in the last two characters, and
  groups are padded. Carriage returns and line feeds are skipped before the padding is looked at.\<close>

definition std_char :: "char \<Rightarrow> char" where
  "std_char c = (if c = CHR ''-'' then CHR ''+'' else if c = CHR ''_'' then CHR ''/'' else c)"

definition std_unchar :: "char \<Rightarrow> char option" where
  "std_unchar c =
     (if c = CHR ''+'' then Some CHR ''-'' else if c = CHR ''/'' then Some CHR ''_''
      else if c = CHR ''-'' \<or> c = CHR ''_'' then None else Some c)"

definition std_pad :: "nat \<Rightarrow> nat" where
  "std_pad n = (3 - n mod 3) mod 3"

definition Std_EncodeToString :: "string \<Rightarrow> string" where
  "Std_EncodeToString s =
     map std_char (RawURL_EncodeToString s) @ replicate (std_pad (length s)) CHR ''=''"

definition Std_DecodeString :: "string \<Rightarrow> string option" where
  "Std_DecodeString s0 =
     (let s = filter (\<lambda>c. c \<noteq> CHR 0x0A \<and> c \<noteq> CHR 0x0D) s0 in
      if length s mod 4 \<noteq> 0 then None
      else
        (case those (map std_unchar (TrimSuffix (TrimSuffix s ''='') ''='')) of
           None \<Rightarrow> None
         | Some raw \<Rightarrow> RawURL_DecodeString raw))"

definition SetBasicAuth :: "string \<Rightarrow> string \<Rightarrow> (string \<rightharpoonup> string) \<Rightarrow> (string \<rightharpoonup> string)" where
  "SetBasicAuth username password header =
     header(''Authorization'' \<mapsto> ''Basic '' @ Std_EncodeToString (username @ '':'' @ password))"

definition parseBasicAuth :: "string \<Rightarrow> (string \<times> string) option" where
  "parseBasicAuth auth =
     (if length auth < 6 \<or> \<not> EqualFold (take 6 auth) ''Basic '' then None
      else
        (case Std_DecodeString (drop 6 auth) of
           None \<Rightarrow> None
         | Some cs \<Rightarrow>
             (let (username, password, ok) = Cut cs CHR '':'' in
              if ok then Some (username, password) else None)))"

definition BasicAuth :: "(string \<rightharpoonup> string) \<Rightarrow> (string \<times> string) option" where
  "BasicAuth header =
     (case header ''Authorization'' of
        None \<Rightarrow> None
      | Some auth \<Rightarrow> if auth = [] then None else parseBasicAuth auth)"

text \<open>The characters an encoder emits, before and after the change of alphabet.\<close>

lemma std_char_b64:
  assumes "n < 64"
  shows "std_unchar (std_char (b64_char n)) = Some (b64_char n)"
    "std_char (b64_char n) \<noteq> CHR ''=''" "std_char (b64_char n) \<noteq> CHR 0x0A" "std_char (b64_char n) \<noteq> CHR 0x0D"
proof -
  have val: "b64_char n \<noteq> c" if "b64_val c = None" for c using b64_val_char[OF assms] that by auto
  have "b64_char n \<noteq> CHR ''+''" "b64_char n \<noteq> CHR ''/''" "b64_char n \<noteq> CHR ''=''"
    by (rule val, simp add: b64_val_def Let_def)+
  then show "std_unchar (std_char (b64_char n)) = Some (b64_char n)"
    "std_char (b64_char n) \<noteq> CHR ''=''" "std_char (b64_char n) \<noteq> CHR 0x0A" "std_char (b64_char n) \<noteq> CHR 0x0D"
    using b64_char_no_newline[OF assms] by (auto simp: std_char_def std_unchar_def)
qed

lemma b64_code: "n < 64 \<Longrightarrow> \<exists>m<64. b64_char n = b64_char m"
  by blast

lemma b64_groups_chars:
  "\<forall>x\<in>set xs. x < 256 \<Longrightarrow> list_all (\<lambda>c. \<exists>n<64. c = b64_char n) (b64_groups xs)"
proof (induction xs rule: b64_groups.induct)
  case (2 a)
  then have "a div 4 < 64" "a mod 4 * 16 < 64" by auto
  then show ?case by (simp add: b64_code)
next
  case (3 a b)
  then have "a div 4 < 64" "a mod 4 * 16 + b div 16 < 64" "b mod 16 * 4 < 64" by auto
  then show ?case by (simp add: b64_code)
next
  case (4 a b c r)
  then have "a div 4 < 64" "a mod 4 * 16 + b div 16 < 64" "b mod 16 * 4 + c div 64 < 64" "c mod 64 < 64"
    by auto
  then show ?case using 4 by (simp add: b64_code)
qed simp

lemma RawURL_chars: "c \<in> set (RawURL_EncodeToString s) \<Longrightarrow> \<exists>n<64. c = b64_char n"
  using b64_groups_chars[of "map of_char s"] by (auto simp: RawURL_EncodeToString_def list_all_iff)

lemma those_map_Some: "(\<And>x. x \<in> set xs \<Longrightarrow> f x = Some (g x)) \<Longrightarrow> those (map f xs) = Some (map g xs)"
  by (induction xs) auto

lemma strip_padding:
  assumes "k \<le> 2" "CHR ''='' \<notin> set s"
  shows "TrimSuffix (TrimSuffix (s @ replicate k CHR ''='') ''='') ''='' = s"
proof -
  have plain: "TrimSuffix s ''='' = s"
    using assms(2) unfolding TrimSuffix_def HasSuffix_iff by (metis Un_iff in_set_conv_decomp set_append)
  consider "k = 0" | "k = 1" | "k = 2" using assms(1) by linarith
  then show ?thesis
  proof cases
    case 3
    have "TrimSuffix ((s @ ''='') @ ''='') ''='' = s @ ''=''" by (rule TrimSuffix_append)
    then show ?thesis using 3 TrimSuffix_append[of s "''=''"] by (simp add: numeral_2_eq_2)
  qed (simp_all add: plain TrimSuffix_append)
qed

lemma b64_padded: "(4 * n + 2) div 3 + std_pad n = 4 * ((n + 2) div 3)"
proof -
  obtain q r where n: "n = 3 * q + r" "r < 3" by (metis mod_less_divisor mult_div_mod_eq zero_less_numeral)
  then consider "r = 0" | "r = 1" | "r = 2" by linarith
  then show ?thesis
  proof cases
    case 1
    have "(12 * q + 2) div 3 = 4 * q" "(3 * q + 2) div 3 = q" by linarith+
    then show ?thesis by (simp add: n(1) 1 std_pad_def)
  next
    case 2
    have "(3 * q + 1) mod 3 = 1" by simp
    moreover have "(12 * q + 6) div 3 = 4 * q + 2" "(3 * q + 3) div 3 = q + 1" by linarith+
    ultimately show ?thesis by (simp add: n(1) 2 std_pad_def)
  next
    case 3
    have "(3 * q + 2) mod 3 = 2" by presburger
    moreover have "(12 * q + 10) div 3 = 4 * q + 3" "(3 * q + 4) div 3 = q + 1" by linarith+
    ultimately show ?thesis by (simp add: n(1) 3 std_pad_def)
  qed
qed

lemma Std_roundtrip: "Std_DecodeString (Std_EncodeToString s) = Some s"
proof -
  let ?raw = "RawURL_EncodeToString s"
  have std: "std_unchar (std_char c) = Some c \<and> std_char c \<noteq> CHR ''='' \<and> std_char c \<noteq> CHR 0x0A \<and>
      std_char c \<noteq> CHR 0x0D" if "c \<in> set ?raw" for c
  proof -
    from RawURL_chars[OF that] obtain n where "n < 64" "c = b64_char n" by blast
    then show ?thesis using std_char_b64[of n] by simp
  qed
  have chars: "x = CHR ''='' \<or> (\<exists>c\<in>set ?raw. x = std_char c)" if "x \<in> set (Std_EncodeToString s)" for x
    using that by (auto simp: Std_EncodeToString_def)
  have "x \<noteq> CHR 0x0A \<and> x \<noteq> CHR 0x0D" if "x \<in> set (Std_EncodeToString s)" for x
    using chars[OF that]
  proof (elim disjE bexE)
    fix c assume c: "c \<in> set ?raw" and x: "x = std_char c"
    show ?thesis unfolding x using std[OF c] by blast
  qed simp
  then have same: "filter (\<lambda>c. c \<noteq> CHR 0x0A \<and> c \<noteq> CHR 0x0D) (Std_EncodeToString s) = Std_EncodeToString s"
    unfolding filter_id_conv by blast
  have "length (Std_EncodeToString s) = 4 * ((length s + 2) div 3)"
    unfolding b64_padded[symmetric] by (simp add: Std_EncodeToString_def RawURL_EncodeToString_def length_b64_groups)
  then have len: "length (Std_EncodeToString s) mod 4 = 0" by simp
  have "CHR ''='' \<notin> set (map std_char ?raw)" unfolding set_map using std by (metis imageE)
  then have trim: "TrimSuffix (TrimSuffix (Std_EncodeToString s) ''='') ''='' = map std_char ?raw"
    unfolding Std_EncodeToString_def by (intro strip_padding) (simp_all add: std_pad_def less_Suc_eq_le[symmetric])
  have "those (map std_unchar (map std_char ?raw)) = Some ?raw"
    using those_map_Some[of ?raw "std_unchar \<circ> std_char" id] std by simp
  then show ?thesis
    unfolding Std_DecodeString_def same Let_def trim using len by (simp add: RawURL_roundtrip)
qed

text \<open>The reader splits the credentials at their first colon.\<close>

lemma BasicAuth_SetBasicAuth:
  "BasicAuth (SetBasicAuth username password header) =
     (let (u, p, ok) = Cut (username @ '':'' @ password) CHR '':'' in Some (u, p))"
  by (simp add: BasicAuth_def SetBasicAuth_def parseBasicAuth_def Std_roundtrip Cut_def Let_def)

lemma BasicAuth_roundtrip:
  assumes "CHR '':'' \<notin> set username"
  shows "BasicAuth (SetBasicAuth username password header) = Some (username, password)"
  using Cut_append[OF assms, of password] by (simp add: BasicAuth_SetBasicAuth)

lemma BasicAuth_colon:
  assumes "CHR '':'' \<notin> set a"
  shows "BasicAuth (SetBasicAuth (a @ '':'' @ b) password header) = Some (a, b @ '':'' @ password)"
  using Cut_append[OF assms, of "b @ '':'' @ password"] by (simp add: BasicAuth_SetBasicAuth)

end
