(* ===== verification/String_Set.thy ===== *)
theory String_Set
  imports Go_Strings
begin

text \<open>
  \<open>internal/stringset\<close>: the normal form of a list of white-space separated values. The locale
  \<open>string_normaliser\<close> is the contract every caller relies on (which set the result lists, that it
  is sorted and free of duplicates); \<open>Normalize\<close> is its provider.
\<close>

subsection \<open>The interface\<close>

locale string_normaliser =
  fixes norm :: "string list \<Rightarrow> string list"
  assumes norm_set: "set (norm xs) = (\<Union>x\<in>set xs. set (Fields x))"
    and norm_sorted: "sorted (norm xs)"
    and norm_distinct: "distinct (norm xs)"
begin

lemma norm_items: "x \<in> set (norm xs) \<Longrightarrow> x \<noteq> [] \<and> space_free x"
  by (auto simp: norm_set dest: Fields_items)

lemma norm_items_set: "\<forall>x\<in>set (norm xs). x \<noteq> [] \<and> space_free x"
  using norm_items by blast

lemma norm_reference: "norm xs = sorted_list_of_set (\<Union>x\<in>set xs. set (Fields x))"
  using norm_set norm_sorted norm_distinct
  by (metis sorted_distinct_set_eq finite_set distinct_sorted_list_of_set
      set_sorted_list_of_set sorted_sorted_list_of_set)

lemma norm_cong:
  "(\<Union>x\<in>set xs. set (Fields x)) = (\<Union>x\<in>set ys. set (Fields x)) \<Longrightarrow> norm xs = norm ys"
  by (simp add: norm_reference)

lemma norm_clean:
  assumes "\<forall>x\<in>set xs. x \<noteq> [] \<and> space_free x"
  shows "set (norm xs) = set xs"
  using assms by (simp add: norm_set Fields_single)

lemma norm_idem: "norm (norm xs) = norm xs"
  by (rule sorted_distinct_set_eq[OF norm_sorted norm_distinct norm_sorted norm_distinct
        norm_clean[OF norm_items_set]])

lemma norm_eq_Nil: "norm xs = [] \<longleftrightarrow> (\<forall>x\<in>set xs. TrimSpace x = [])"
proof -
  have "norm xs = [] \<longleftrightarrow> set (norm xs) = {}" by simp
  also have "\<dots> \<longleftrightarrow> (\<forall>x\<in>set xs. Fields x = [])" by (simp add: norm_set)
  finally show ?thesis by (simp add: Fields_eq_Nil)
qed

lemma norm_Nil [simp]: "norm [] = []"
  by (simp add: norm_eq_Nil)

lemma norm_join: "Fields (Join (norm xs) '' '') = norm xs"
  by (rule Fields_Join[OF norm_items_set])

lemma norm_join_single: "norm [Join (norm xs) '' ''] = norm xs"
proof (rule sorted_distinct_set_eq[OF norm_sorted norm_distinct norm_sorted norm_distinct])
  show "set (norm [Join (norm xs) '' '']) = set (norm xs)"
    unfolding norm_set[of "[_]"] by (simp add: norm_join)
qed

lemma norm_append_self: "norm (norm xs @ xs) = norm xs"
proof (rule norm_cong)
  have "(\<Union>x\<in>set (norm xs). set (Fields x)) = (\<Union>x\<in>set xs. set (Fields x))"
    by (rule trans[OF norm_set[of "norm xs", symmetric, unfolded norm_idem] norm_set])
  then show "(\<Union>x\<in>set (norm xs @ xs). set (Fields x)) = (\<Union>x\<in>set xs. set (Fields x))"
    by simp
qed

end

subsection \<open>Normalize\<close>

text \<open>The inner loop over the fields of one value, with the \<open>seen\<close> set and the result so far.\<close>

fun add_items :: "string list \<Rightarrow> string set \<times> string list \<Rightarrow> string set \<times> string list" where
  "add_items [] (seen, result) = (seen, result)"
| "add_items (item # items) (seen, result) =
     (if item \<in> seen then add_items items (seen, result)
      else add_items items (insert item seen, result @ [item]))"

fun add_values :: "string list \<Rightarrow> string set \<times> string list \<Rightarrow> string set \<times> string list" where
  "add_values [] st = st"
| "add_values (value # values) st = add_values values (add_items (Fields value) st)"

definition Normalize :: "string list \<Rightarrow> string list" where
  "Normalize values = (if values = [] then [] else sort (snd (add_values values ({}, []))))"

definition seen_ok :: "string set \<times> string list \<Rightarrow> bool" where
  "seen_ok st \<longleftrightarrow> distinct (snd st) \<and> set (snd st) = fst st"

lemma add_items_ok: "seen_ok st \<Longrightarrow> seen_ok (add_items items st)"
  by (induction items st rule: add_items.induct) (auto simp: seen_ok_def)

lemma add_items_seen: "fst (add_items items st) = fst st \<union> set items"
  by (induction items st rule: add_items.induct) auto

lemma add_values_ok: "seen_ok st \<Longrightarrow> seen_ok (add_values values st)"
  by (induction "values" arbitrary: st) (simp_all add: add_items_ok del: split_paired_All)

lemma add_values_seen: "fst (add_values values st) = fst st \<union> (\<Union>v\<in>set values. set (Fields v))"
  by (induction "values" arbitrary: st) (auto simp: add_items_seen)

interpretation nz: string_normaliser Normalize
proof (unfold_locales)
  fix xs
  have ok: "seen_ok (add_values xs ({}, []))"
    by (rule add_values_ok) (simp add: seen_ok_def)
  then show "set (Normalize xs) = (\<Union>x\<in>set xs. set (Fields x))"
    using add_values_seen[of xs "({}, [])"] by (simp add: Normalize_def seen_ok_def)
  from ok show "distinct (Normalize xs)"
    by (simp add: Normalize_def seen_ok_def)
  show "sorted (Normalize xs)"
    by (simp add: Normalize_def)
qed

declare nz.norm_idem [simp] nz.norm_Nil [simp]

subsection \<open>Properties\<close>

text \<open>\<open>Normalize\<close> returns the sorted list, without duplicates, of the white-space separated items
  of its values, whatever their order and spacing; applied twice it changes nothing.\<close>

theorem Normalize_reference:
  "Normalize values = sorted_list_of_set (\<Union>v\<in>set values. set (Fields v)) \<and>
   Normalize (Normalize values) = Normalize values"
  using nz.norm_reference nz.norm_idem by auto

end
