(* ===== verification/Scope_Claims.thy ===== *)
theory Scope_Claims
  imports String_Set
begin

text \<open>
  The root package without the verifier: \<open>scopes.go\<close> (scope sets and wildcard scopes),
  \<open>claims.go\<close> (the claims of an access token and its scope checks) and \<open>token.go\<close> (the bearer
  header).

  \<open>covers\<close> is the reference reading of a wildcard: \<open>p.*\<close> stands for one more segment, \<open>p.**\<close>
  for one or more. \<open>ScopeCovers\<close> is shown to compute it, to be reflexive on non-blank scopes and
  transitive, so that checking a token's scopes can only lose rights along a chain of grants.
\<close>

subsection \<open>scopes.go\<close>

definition NormalizeScopes :: "string list \<Rightarrow> string list" where
  "NormalizeScopes scopes = Normalize scopes"

definition ScopeString :: "string list \<Rightarrow> string" where
  "ScopeString scopes = Join (NormalizeScopes scopes) '' ''"

definition containsScopeWildcard :: "string \<Rightarrow> bool" where
  "containsScopeWildcard scope = Contains scope ''*''"

definition wildcardScopeParts :: "string \<Rightarrow> string \<times> bool \<times> bool" where
  "wildcardScopeParts scope =
     (let parts =
        (if Count scope CHR ''*'' = 1 \<and> HasSuffix scope ''.*''
         then Some (TrimSuffix scope ''.*'', False)
         else if Count scope CHR ''*'' = 2 \<and> HasSuffix scope ''.**''
         then Some (TrimSuffix scope ''.**'', True)
         else None)
      in case parts of
           None \<Rightarrow> ([], False, False)
         | Some (pre, recursive) \<Rightarrow>
             if TrimSpace pre = [] then ([], False, False) else (pre, recursive, True))"

definition wildcard_ok :: "string \<Rightarrow> bool" where
  "wildcard_ok scope \<longleftrightarrow> snd (snd (wildcardScopeParts scope))"

definition ScopeCovers :: "string \<Rightarrow> string \<Rightarrow> bool" where
  "ScopeCovers owned0 required0 =
     (let owned = TrimSpace owned0; required = TrimSpace required0 in
      if owned = [] \<or> required = [] then False
      else if owned = required then True
      else if containsScopeWildcard required \<and> \<not> snd (snd (wildcardScopeParts required)) then False
      else
        (case wildcardScopeParts owned of (pre, recursive, ok) \<Rightarrow>
           if \<not> ok then False
           else
             let requiredPrefix = pre @ ''.'' in
             if \<not> HasPrefix required requiredPrefix then False
             else
               let sfx = TrimPrefix required requiredPrefix in
               if sfx = [] then False
               else if recursive then True
               else \<not> Contains sfx ''.'' \<and> \<not> containsScopeWildcard sfx))"

text \<open>The error carries the scope; the code formats it into its message.\<close>

datatype scope_error = InvalidWildcardScope string

definition ValidateScopeWildcard :: "string \<Rightarrow> scope_error option" where
  "ValidateScopeWildcard scope =
     (if \<not> containsScopeWildcard scope then None
      else if snd (snd (wildcardScopeParts scope)) then None
      else Some (InvalidWildcardScope scope))"

fun scopeSetCovers :: "string list \<Rightarrow> string \<Rightarrow> bool" where
  "scopeSetCovers [] required = False"
| "scopeSetCovers (scope # owned) required =
     (if ScopeCovers scope required then True else scopeSetCovers owned required)"

interpretation ns: string_normaliser NormalizeScopes
  by unfold_locales
    (simp_all add: NormalizeScopes_def nz.norm_set nz.norm_sorted nz.norm_distinct)

declare ns.norm_idem [simp] ns.norm_Nil [simp]

subsection \<open>What the wildcard functions compute\<close>

text \<open>A well-formed wildcard scope: a non-blank prefix without a star, then \<open>.*\<close> or \<open>.**\<close>.\<close>

definition wildcard_of :: "string \<Rightarrow> string \<Rightarrow> bool \<Rightarrow> bool" where
  "wildcard_of scope pre recursive \<longleftrightarrow>
     scope = pre @ (if recursive then ''.**'' else ''.*'') \<and>
     CHR ''*'' \<notin> set pre \<and> TrimSpace pre \<noteq> []"

definition wildcard_free :: "string \<Rightarrow> bool" where
  "wildcard_free scope \<longleftrightarrow> CHR ''*'' \<notin> set scope"

definition covers :: "string \<Rightarrow> string \<Rightarrow> bool" where
  "covers owned required \<longleftrightarrow>
     owned = required \<or>
     (\<exists>pre recursive sfx.
        wildcard_of owned pre recursive \<and> required = pre @ ''.'' @ sfx \<and> sfx \<noteq> [] \<and>
        (if recursive then wildcard_free required \<or> (\<exists>p r. wildcard_of required p r)
         else CHR ''.'' \<notin> set sfx \<and> wildcard_free required))"

lemma containsScopeWildcard_iff [go_simps]: "containsScopeWildcard s \<longleftrightarrow> \<not> wildcard_free s"
  by (simp add: containsScopeWildcard_def wildcard_free_def go_simps)

lemma wildcardScopeParts_iff:
  "wildcardScopeParts scope = (pre, recursive, True) \<longleftrightarrow> wildcard_of scope pre recursive"
proof
  assume "wildcardScopeParts scope = (pre, recursive, True)"
  then show "wildcard_of scope pre recursive"
    unfolding wildcardScopeParts_def wildcard_of_def Count_def
    by (auto simp: Let_def HasSuffix_iff go_simps count_list_0_iff split: if_splits)
next
  assume "wildcard_of scope pre recursive"
  then show "wildcardScopeParts scope = (pre, recursive, True)"
    unfolding wildcardScopeParts_def wildcard_of_def Count_def
    by (auto simp: Let_def HasSuffix_iff go_simps count_list_0_iff split: if_splits)
qed

lemma wildcardScopeParts_bad:
  "\<not> snd (snd (wildcardScopeParts scope)) \<Longrightarrow> wildcardScopeParts scope = ([], False, False)"
  unfolding wildcardScopeParts_def by (auto simp: Let_def split: if_splits)

lemma wildcard_ok_iff [go_simps]:
  "snd (snd (wildcardScopeParts scope)) \<longleftrightarrow> (\<exists>pre recursive. wildcard_of scope pre recursive)"
  by (cases "wildcardScopeParts scope") (auto simp: wildcardScopeParts_iff[symmetric])

lemma wildcard_of_unique:
  "wildcard_of s p r \<Longrightarrow> wildcard_of s p' r' \<Longrightarrow> p' = p \<and> r' = r"
  using wildcardScopeParts_iff[of s p r] wildcardScopeParts_iff[of s p' r'] by simp

lemma wildcard_of_star: "wildcard_of s p r \<Longrightarrow> \<not> wildcard_free s"
  by (auto simp: wildcard_of_def wildcard_free_def)

lemma ScopeCovers_trimmed:
  assumes "TrimSpace o0 = ow" "TrimSpace r0 = rq"
  shows "ScopeCovers o0 r0 \<longleftrightarrow> ow \<noteq> [] \<and> rq \<noteq> [] \<and> covers ow rq"
proof (cases "ow = [] \<or> rq = [] \<or> ow = rq")
  case True
  then show ?thesis by (auto simp: ScopeCovers_def Let_def assms covers_def)
next
  case False
  note ne = this
  show ?thesis
  proof (cases "\<exists>pre rec. wildcard_of ow pre rec")
    case False
    then have "\<not> snd (snd (wildcardScopeParts ow))" by (simp add: wildcard_ok_iff)
    then have "wildcardScopeParts ow = ([], False, False)" by (rule wildcardScopeParts_bad)
    with ne False show ?thesis
      by (auto simp: ScopeCovers_def Let_def assms covers_def)
  next
    case True
    then obtain pre rec where w: "wildcard_of ow pre rec" by blast
    then have parts: "wildcardScopeParts ow = (pre, rec, True)" by (simp add: wildcardScopeParts_iff)
    have cov: "covers ow rq \<longleftrightarrow>
        (\<exists>sfx. rq = pre @ ''.'' @ sfx \<and> sfx \<noteq> [] \<and>
          (if rec then wildcard_free rq \<or> (\<exists>p r. wildcard_of rq p r)
           else CHR ''.'' \<notin> set sfx \<and> wildcard_free rq))"
    proof -
      have "\<And>p r. wildcard_of ow p r \<longleftrightarrow> p = pre \<and> r = rec"
        using w wildcard_of_unique[OF w] by blast
      then show ?thesis using ne by (simp add: covers_def)
    qed
    have star: "CHR ''*'' \<notin> set pre" using w by (simp add: wildcard_of_def)
    show ?thesis
    proof (cases "\<exists>sfx. rq = (pre @ ''.'') @ sfx")
      case False
      with ne parts show ?thesis
        by (auto simp: ScopeCovers_def Let_def assms cov HasPrefix_iff)
    next
      case True
      then obtain sfx where sfx: "rq = (pre @ ''.'') @ sfx" by blast
      have tp: "HasPrefix rq (pre @ ''.'')" "TrimPrefix rq (pre @ ''.'') = sfx"
        unfolding sfx by (simp add: HasPrefix_iff, rule TrimPrefix_append)
      have wf: "wildcard_free rq \<longleftrightarrow> wildcard_free sfx"
        using star by (auto simp: sfx wildcard_free_def)
      have "ScopeCovers o0 r0 \<longleftrightarrow>
          (wildcard_free rq \<or> (\<exists>p r. wildcard_of rq p r)) \<and> sfx \<noteq> [] \<and>
          (rec \<or> CHR ''.'' \<notin> set sfx \<and> wildcard_free sfx)"
        using ne parts tp
        by (auto simp: ScopeCovers_def Let_def assms go_simps)
      moreover have "covers ow rq \<longleftrightarrow> sfx \<noteq> [] \<and>
          (if rec then wildcard_free rq \<or> (\<exists>p r. wildcard_of rq p r)
           else CHR ''.'' \<notin> set sfx \<and> wildcard_free rq)"
        unfolding cov using sfx by auto
      ultimately show ?thesis using ne wf by auto
    qed
  qed
qed

lemma ScopeCovers_iff:
  "ScopeCovers owned required \<longleftrightarrow>
     TrimSpace owned \<noteq> [] \<and> TrimSpace required \<noteq> [] \<and>
     covers (TrimSpace owned) (TrimSpace required)"
  by (rule ScopeCovers_trimmed) simp_all

lemma ScopeCovers_Trim [simp]:
  "ScopeCovers (TrimSpace owned) required = ScopeCovers owned required"
  "ScopeCovers owned (TrimSpace required) = ScopeCovers owned required"
  by (simp_all add: ScopeCovers_iff)

lemma covers_refl [simp]: "covers s s"
  by (simp add: covers_def)

lemma wildcard_of_under:
  assumes w: "wildcard_of s q r" and s: "s = pre @ ''.'' @ sfx" and ne: "sfx \<noteq> []"
    and star: "CHR ''*'' \<notin> set pre"
  shows "\<exists>t. q @ ''.'' = pre @ ''.'' @ t"
proof -
  from w have sq: "s = (q @ ''.'') @ (if r then ''**'' else ''*'')"
    by (auto simp: wildcard_of_def)
  have "length (pre @ ''.'') \<le> length (q @ ''.'')"
  proof (rule ccontr)
    assume "\<not> ?thesis"
    then obtain u where u: "u \<noteq> []" "pre @ ''.'' = (q @ ''.'') @ u"
        "(if r then ''**'' else ''*'') = u @ sfx"
      using append_split_longer[of "pre @ ''.''" sfx "q @ ''.''"] sq s by auto
    have "set (if r then ''**'' else ''*'') \<subseteq> {CHR ''*''}" by simp
    then have "set u \<subseteq> {CHR ''*''}" unfolding u(3) by simp
    with u(1) have "last u = CHR ''*''" using last_in_set by blast
    with u(1,2) have "last (pre @ ''.'') = CHR ''*''" by (metis last_appendR)
    then show False by simp
  qed
  then obtain u where "q @ ''.'' = (pre @ ''.'') @ u"
    using append_split_shorter[of "pre @ ''.''" sfx "q @ ''.''"] sq s by auto
  then show ?thesis by auto
qed

lemma covers_trans:
  assumes ab: "covers a b" and bc: "covers b c"
  shows "covers a c"
proof (cases "a = b \<or> b = c")
  case True
  with ab bc show ?thesis by auto
next
  case False
  with ab obtain p r sb where a: "wildcard_of a p r" "b = p @ ''.'' @ sb" "sb \<noteq> []"
      "if r then wildcard_free b \<or> (\<exists>q t. wildcard_of b q t)
       else CHR ''.'' \<notin> set sb \<and> wildcard_free b"
    unfolding covers_def by auto
  from False bc obtain q t sc where b: "wildcard_of b q t" "c = q @ ''.'' @ sc" "sc \<noteq> []"
      "if t then wildcard_free c \<or> (\<exists>q t. wildcard_of c q t)
       else CHR ''.'' \<notin> set sc \<and> wildcard_free c"
    unfolding covers_def by auto
  have "r" using a(4) wildcard_of_star[OF b(1)] by (auto split: if_splits)
  moreover have "wildcard_free c \<or> (\<exists>q t. wildcard_of c q t)"
    using b(4) by (auto split: if_splits)
  moreover obtain u where "q @ ''.'' = p @ ''.'' @ u"
    using wildcard_of_under[OF b(1) a(2,3)] a(1) by (auto simp: wildcard_of_def)
  then have "c = p @ ''.'' @ (u @ sc)" using b(2)
    by (metis append.assoc)
  ultimately show ?thesis
    unfolding covers_def using a(1) b(3) by (metis append_is_Nil_conv)
qed

lemma ScopeCovers_refl: "TrimSpace s \<noteq> [] \<Longrightarrow> ScopeCovers s s"
  by (simp add: ScopeCovers_iff)

lemma ScopeCovers_trans: "ScopeCovers a b \<Longrightarrow> ScopeCovers b c \<Longrightarrow> ScopeCovers a c"
  unfolding ScopeCovers_iff using covers_trans by blast

text \<open>A concrete scope is covered only by itself and by wildcards above it; a concrete owned scope
  covers nothing but itself.\<close>

lemma covers_concrete: "wildcard_free owned \<Longrightarrow> covers owned required \<longleftrightarrow> required = owned"
  unfolding covers_def using wildcard_of_star by auto

lemma wildcard_free_TrimSpace: "wildcard_free s \<Longrightarrow> wildcard_free (TrimSpace s)"
  using TrimSpace_split[of s] unfolding wildcard_free_def by (metis Un_iff set_append)

lemma scopeSetCovers_iff: "scopeSetCovers owned required \<longleftrightarrow> (\<exists>s\<in>set owned. ScopeCovers s required)"
  by (induction owned) auto

lemma ValidateScopeWildcard_None:
  "ValidateScopeWildcard s = None \<longleftrightarrow> wildcard_free s \<or> (\<exists>p r. wildcard_of s p r)"
  by (auto simp: ValidateScopeWildcard_def go_simps)

lemma ScopeString_Fields: "Fields (ScopeString scopes) = NormalizeScopes scopes"
  by (simp add: ScopeString_def ns.norm_join)

lemma ScopeString_eq_Nil: "ScopeString scopes = [] \<longleftrightarrow> NormalizeScopes scopes = []"
  using ScopeString_Fields[of scopes] Fields_eq_Nil[of "[]"] by (auto simp: ScopeString_def)

lemma ScopeString_blank: "TrimSpace (ScopeString scopes) = [] \<longleftrightarrow> NormalizeScopes scopes = []"
  using ScopeString_Fields[of scopes] by (metis Fields_eq_Nil)

subsection \<open>claims.go\<close>

text \<open>
  The embedded \<open>jwt.RegisteredClaims\<close> and the three fields Orionis adds. The date claims are
  pointers to the library's numeric dates: \<open>None\<close> for \<open>nil\<close>.
\<close>

record claims =
  cl_Issuer :: string
  cl_Subject :: string
  cl_Audience :: "string list"
  cl_ExpiresAt :: "time option"
  cl_NotBefore :: "time option"
  cl_IssuedAt :: "time option"
  cl_ID :: string
  cl_ClientID :: string
  cl_Scope :: string
  cl_TokenUse :: string

text \<open>The methods accept a \<open>nil\<close> receiver.\<close>

definition Scopes :: "claims option \<Rightarrow> string list" where
  "Scopes c =
     (case c of None \<Rightarrow> []
      | Some c \<Rightarrow> if TrimSpace (cl_Scope c) = [] then [] else Fields (cl_Scope c))"

definition HasScope :: "claims option \<Rightarrow> string \<Rightarrow> bool" where
  "HasScope c scope = (case c of None \<Rightarrow> False | Some _ \<Rightarrow> scopeSetCovers (Scopes c) scope)"

fun anyScopeCovered :: "string list \<Rightarrow> string list \<Rightarrow> bool" where
  "anyScopeCovered owned [] = False"
| "anyScopeCovered owned (scope # required) =
     (if scopeSetCovers owned scope then True else anyScopeCovered owned required)"

fun allScopesCovered :: "string list \<Rightarrow> string list \<Rightarrow> bool" where
  "allScopesCovered owned [] = True"
| "allScopesCovered owned (scope # required) =
     (if \<not> scopeSetCovers owned scope then False else allScopesCovered owned required)"

definition HasAnyScope :: "claims option \<Rightarrow> string list \<Rightarrow> bool" where
  "HasAnyScope c required0 =
     (let required = NormalizeScopes required0 in
      if required = [] then True
      else (case c of None \<Rightarrow> False | Some _ \<Rightarrow> anyScopeCovered (Scopes c) required))"

definition HasAllScopes :: "claims option \<Rightarrow> string list \<Rightarrow> bool" where
  "HasAllScopes c required0 =
     (let required = NormalizeScopes required0 in
      if required = [] then True
      else (case c of None \<Rightarrow> False | Some _ \<Rightarrow> allScopesCovered (Scopes c) required))"

lemma anyScopeCovered_iff: "anyScopeCovered owned req \<longleftrightarrow> (\<exists>s\<in>set req. scopeSetCovers owned s)"
  by (induction req) auto

lemma allScopesCovered_iff: "allScopesCovered owned req \<longleftrightarrow> (\<forall>s\<in>set req. scopeSetCovers owned s)"
  by (induction req) auto

lemma Scopes_Fields: "Scopes (Some c) = Fields (cl_Scope c)"
  using Fields_eq_Nil[of "cl_Scope c"] by (auto simp: Scopes_def)

lemma HasScope_iff: "HasScope (Some c) s \<longleftrightarrow> (\<exists>ow\<in>set (Fields (cl_Scope c)). ScopeCovers ow s)"
  by (simp add: HasScope_def Scopes_Fields scopeSetCovers_iff)

lemma HasAllScopes_iff:
  "HasAllScopes (Some c) required \<longleftrightarrow> (\<forall>s\<in>set (NormalizeScopes required). HasScope (Some c) s)"
  by (auto simp: HasAllScopes_def Let_def allScopesCovered_iff HasScope_def)

lemma HasAnyScope_iff:
  "HasAnyScope (Some c) required \<longleftrightarrow>
     NormalizeScopes required = [] \<or> (\<exists>s\<in>set (NormalizeScopes required). HasScope (Some c) s)"
  by (auto simp: HasAnyScope_def Let_def anyScopeCovered_iff HasScope_def)

subsection \<open>token.go\<close>

definition TokenTypeBearer :: string where "TokenTypeBearer = ''Bearer''"
definition TokenUseAccess :: string where "TokenUseAccess = ''access''"

text \<open>
  The sentinel errors. \<open>ErrInvalidToken\<close> is wrapped with what went wrong; \<open>ParseFailed\<close>
  carries the error of the JWT library.
\<close>

datatype 'e invalid_reason =
    NotBearerHeader | NilVerifier | NilKeyProvider | ParseFailed 'e | NotValid
  | UnexpectedTokenUse string | MissingServiceIdentity

datatype 'e token_error =
    ErrMissingToken | ErrInvalidToken "'e invalid_reason" | ErrInsufficientScope

definition BearerToken :: "string \<Rightarrow> 'e token_error + string" where
  "BearerToken header =
     (if TrimSpace header = [] then Inl ErrMissingToken
      else
        (case Fields header of
           [scheme, token] \<Rightarrow>
             if \<not> EqualFold scheme TokenTypeBearer \<or> TrimSpace token = []
             then Inl (ErrInvalidToken NotBearerHeader) else Inr token
         | _ \<Rightarrow> Inl (ErrInvalidToken NotBearerHeader)))"

record token_response =
  tr_AccessToken :: string
  tr_TokenType :: string
  tr_ExpiresIn :: int
  tr_Scope :: string

record verified_token =
  vt_Raw :: string
  vt_Claims :: claims

lemma BearerToken_Inr:
  "BearerToken header = Inr t \<longleftrightarrow>
     (\<exists>scheme. Fields header = [scheme, t] \<and> EqualFold scheme TokenTypeBearer)"
proof
  assume "BearerToken header = Inr t"
  then show "\<exists>scheme. Fields header = [scheme, t] \<and> EqualFold scheme TokenTypeBearer"
    by (auto simp: BearerToken_def split: if_splits list.splits)
next
  assume "\<exists>scheme. Fields header = [scheme, t] \<and> EqualFold scheme TokenTypeBearer"
  then obtain scheme where f: "Fields header = [scheme, t]" "EqualFold scheme TokenTypeBearer"
    by blast
  then have "TrimSpace header \<noteq> []" "t \<noteq> [] \<and> space_free t"
    using Fields_eq_Nil[of header] Fields_items[of t header] by auto
  with f show "BearerToken header = Inr t" by (simp add: BearerToken_def)
qed

lemma space_free_Bearer [simp]: "space_free TokenTypeBearer"
  unfolding TokenTypeBearer_def by code_simp

lemma BearerToken_roundtrip:
  assumes "space_free t" "t \<noteq> []"
  shows "BearerToken (''Bearer '' @ t) = Inr t"
proof -
  have "Fields (Join [TokenTypeBearer, t] '' '') = [TokenTypeBearer, t]"
    by (rule Fields_Join) (use assms in \<open>auto simp: TokenTypeBearer_def[symmetric]\<close>,
      simp add: TokenTypeBearer_def)
  then show ?thesis
    unfolding BearerToken_Inr by (auto simp: TokenTypeBearer_def)
qed

subsection \<open>Properties\<close>

text \<open>A scope list survives being written into the \<open>scope\<close> claim: splitting the string gives back
  the normal form, and normalizing it again gives the same list.\<close>

theorem ScopeString_roundtrip:
  "Fields (ScopeString scopes) = NormalizeScopes scopes \<and>
   NormalizeScopes [ScopeString scopes] = NormalizeScopes scopes"
  using ScopeString_Fields ns.norm_join_single by (auto simp: ScopeString_def)

text \<open>C18: \<open>ScopeCovers\<close> decides the documented reading of wildcards: after trimming, an owned scope
  covers itself; \<open>p.*\<close> covers \<open>p.\<close> followed by one concrete segment; \<open>p.**\<close> covers everything
  below \<open>p\<close>, wildcards included when they are well formed.\<close>

theorem ScopeCovers_decides:
  "ScopeCovers owned required \<longleftrightarrow>
     TrimSpace owned \<noteq> [] \<and> TrimSpace required \<noteq> [] \<and> covers (TrimSpace owned) (TrimSpace required)"
  by (rule ScopeCovers_iff)

text \<open>Covering is transitive, so rights can only shrink along a chain of grants: what a requested
  wildcard covers is covered by the allowed wildcard it was granted under.\<close>

theorem ScopeCovers_chain:
  assumes "ScopeCovers a b" "ScopeCovers b c"
  shows "ScopeCovers a c"
  using assms by (rule ScopeCovers_trans)

theorem ScopeCovers_chain_witness: "ScopeCovers ''sms.**'' ''sms.otp.send''"
proof (rule ScopeCovers_chain)
  show "ScopeCovers ''sms.**'' ''sms.otp.*''" by code_simp
  show "ScopeCovers ''sms.otp.*'' ''sms.otp.send''" by code_simp
qed

text \<open>The scope check of a protected route: claims pass exactly when every item of the required
  list, split at white space, is covered by an item of the token's \<open>scope\<close> claim; missing claims
  pass only when nothing is required.\<close>

theorem HasAllScopes_decides:
  "(HasAllScopes (Some c) required \<longleftrightarrow>
     (\<forall>s\<in>set (NormalizeScopes required). \<exists>ow\<in>set (Fields (cl_Scope c)). ScopeCovers ow s)) \<and>
   (HasAllScopes None required \<longleftrightarrow> NormalizeScopes required = [])"
  by (auto simp: HasAllScopes_iff HasScope_iff) (auto simp: HasAllScopes_def Let_def split: if_splits)

definition demo_claims :: claims where
  "demo_claims = \<lparr>cl_Issuer = ''https://auth'', cl_Subject = ''svc'', cl_Audience = [''sms''],
     cl_ExpiresAt = Some (900 * second), cl_NotBefore = Some 0, cl_IssuedAt = Some 0, cl_ID = ''j'',
     cl_ClientID = ''svc'', cl_Scope = ''sms.read sms.send.*'', cl_TokenUse = ''access''\<rparr>"

theorem HasAllScopes_decides_witness:
  "HasAllScopes (Some demo_claims) [''sms.send.otp sms.read'']"
proof -
  have "NormalizeScopes [''sms.send.otp sms.read''] = [''sms.read'', ''sms.send.otp'']"
    "Fields (cl_Scope demo_claims) = [''sms.read'', ''sms.send.*'']"
    "ScopeCovers ''sms.read'' ''sms.read''" "ScopeCovers ''sms.send.*'' ''sms.send.otp''"
    by code_simp+
  then show ?thesis
    using HasAllScopes_decides[of demo_claims "[''sms.send.otp sms.read'']"] by simp
qed

text \<open>A token without white space survives the Authorization header.\<close>

theorem BearerToken_reads_header:
  assumes "space_free t" "t \<noteq> []"
  shows "BearerToken (''Bearer '' @ t) = Inr t"
  using assms by (rule BearerToken_roundtrip)

theorem BearerToken_reads_header_witness:
  "(BearerToken (''Bearer '' @ ''eyJ.a-b_c'') :: unit token_error + string) = Inr ''eyJ.a-b_c''"
  by (rule BearerToken_reads_header, code_simp) simp

end
