(* ===== verification/Call_Bounds.thy ===== *)
theory Call_Bounds
  imports Orion_Prelude
begin

text \<open>
  Concurrent calls that take boundedly many steps: the argument shared by the remote key provider and
  the token cache. A system is a step relation with a program counter per goroutine. Each step moves at
  most one goroutine: it begins a call, which gives it a rank of at most \<open>bound\<close>, or it goes on with a
  call and lowers its rank.
\<close>

definition own_steps :: "('s \<Rightarrow> nat \<Rightarrow> 'pc) \<Rightarrow> 'pc \<Rightarrow> 's \<Rightarrow> 's \<Rightarrow> nat" where
  "own_steps pc idle s s' = (if \<exists>t. pc s t \<noteq> idle \<and> pc s' t \<noteq> pc s t then 1 else 0)"

definition begun_calls :: "('s \<Rightarrow> nat \<Rightarrow> 'pc) \<Rightarrow> 'pc \<Rightarrow> 's \<Rightarrow> 's \<Rightarrow> nat" where
  "begun_calls pc idle s s' = (if \<exists>t. pc s t = idle \<and> pc s' t \<noteq> idle then 1 else 0)"

text \<open>A run from \<open>s0\<close> in which \<open>n\<close> steps went on with a call and \<open>k\<close> steps began one; any other
  steps, such as the passing of time, may come in between.\<close>

inductive counted_run ::
  "('s \<Rightarrow> 's \<Rightarrow> bool) \<Rightarrow> ('s \<Rightarrow> nat \<Rightarrow> 'pc) \<Rightarrow> 'pc \<Rightarrow> 's \<Rightarrow> nat \<Rightarrow> nat \<Rightarrow> 's \<Rightarrow> bool"
  for step pc idle s0 where
  here: "counted_run step pc idle s0 0 0 s0"
| more: "counted_run step pc idle s0 n k s \<Longrightarrow> step s s' \<Longrightarrow>
    counted_run step pc idle s0 (n + own_steps pc idle s s') (k + begun_calls pc idle s s') s'"

lemma run_begins:
  assumes "counted_run step pc idle s0 n k s" "step s s'" "pc s' = (pc s)(t := x)" "pc s t = idle" "x \<noteq> idle"
  shows "counted_run step pc idle s0 n (Suc k) s'"
proof -
  have "own_steps pc idle s s' = 0" "begun_calls pc idle s s' = 1"
    using assms(3-5) by (auto simp: own_steps_def begun_calls_def)
  with counted_run.more[OF assms(1,2)] show ?thesis by simp
qed

lemma run_goes_on:
  assumes "counted_run step pc idle s0 n k s" "step s s'" "pc s' = (pc s)(t := x)" "pc s t \<noteq> idle" "x \<noteq> pc s t"
  shows "counted_run step pc idle s0 (Suc n) k s'"
proof -
  have "own_steps pc idle s s' = 1" "begun_calls pc idle s s' = 0"
    using assms(3-5) by (auto simp: own_steps_def begun_calls_def)
  with counted_run.more[OF assms(1,2)] show ?thesis by simp
qed

locale ranked_calls =
  fixes step :: "'s \<Rightarrow> 's \<Rightarrow> bool"
    and pc :: "'s \<Rightarrow> nat \<Rightarrow> 'pc"
    and idle :: 'pc
    and rank :: "'pc \<Rightarrow> nat"
    and bound :: nat
  assumes rank_idle: "rank idle = 0"
    and one_moves: "step s s' \<Longrightarrow> \<exists>t x. pc s' = (pc s)(t := x) \<and>
      (x = pc s t \<or> pc s t = idle \<and> rank x \<le> bound \<or> pc s t \<noteq> idle \<and> rank x < rank (pc s t))"
begin

text \<open>The work that is left in the goroutines of a finite set that has all busy ones.\<close>

lemma step_work:
  assumes "step s s'" "finite F" "\<forall>t. t \<notin> F \<longrightarrow> pc s t = idle"
  shows "\<exists>G. finite G \<and> (\<forall>t. t \<notin> G \<longrightarrow> pc s' t = idle) \<and>
    own_steps pc idle s s' + (\<Sum>t\<in>G. rank (pc s' t)) \<le>
      (\<Sum>t\<in>F. rank (pc s t)) + bound * begun_calls pc idle s s'"
proof -
  from one_moves[OF assms(1)] obtain t x where s': "pc s' = (pc s)(t := x)" and
    x: "x = pc s t \<or> pc s t = idle \<and> rank x \<le> bound \<or> pc s t \<noteq> idle \<and> rank x < rank (pc s t)" by blast
  let ?G = "insert t F"
  have G: "finite ?G" "\<forall>u. u \<notin> ?G \<longrightarrow> pc s' u = idle" using assms(2,3) by (auto simp: s')
  have old: "(\<Sum>u\<in>F. rank (pc s u)) = rank (pc s t) + (\<Sum>u\<in>?G - {t}. rank (pc s u))"
    using assms(2,3) rank_idle by (cases "t \<in> F") (auto simp: sum.remove insert_absorb)
  have new: "(\<Sum>u\<in>?G. rank (pc s' u)) = rank x + (\<Sum>u\<in>?G - {t}. rank (pc s u))"
  proof -
    have "(\<Sum>u\<in>?G. rank (pc s' u)) = rank (pc s' t) + (\<Sum>u\<in>?G - {t}. rank (pc s' u))"
      by (rule sum.remove) (use assms(2) in auto)
    also have "(\<Sum>u\<in>?G - {t}. rank (pc s' u)) = (\<Sum>u\<in>?G - {t}. rank (pc s u))"
      by (rule sum.cong) (auto simp: s')
    finally show ?thesis by (simp add: s')
  qed
  have "own_steps pc idle s s' + rank x \<le> rank (pc s t) + bound * begun_calls pc idle s s'"
    using x rank_idle by (auto simp: own_steps_def begun_calls_def s')
  then show ?thesis unfolding old new[symmetric] using G new by (intro exI[of _ ?G]) auto
qed

lemma run_work:
  assumes "counted_run step pc idle s0 n k s" "\<forall>t. pc s0 t = idle"
  shows "\<exists>F. finite F \<and> (\<forall>t. t \<notin> F \<longrightarrow> pc s t = idle) \<and> n + (\<Sum>t\<in>F. rank (pc s t)) \<le> bound * k"
  using assms
proof induction
  case here
  then show ?case by (intro exI[of _ "{}"]) simp
next
  case (more n k s s')
  then obtain F where F: "finite F" "\<forall>t. t \<notin> F \<longrightarrow> pc s t = idle" "n + (\<Sum>t\<in>F. rank (pc s t)) \<le> bound * k"
    by blast
  from step_work[OF more.hyps(2) F(1,2)] obtain G where
    "finite G" "\<forall>t. t \<notin> G \<longrightarrow> pc s' t = idle"
    "own_steps pc idle s s' + (\<Sum>t\<in>G. rank (pc s' t)) \<le>
      (\<Sum>t\<in>F. rank (pc s t)) + bound * begun_calls pc idle s s'" by blast
  with F(3) show ?case by (intro exI[of _ G]) (simp add: distrib_left)
qed

text \<open>A call takes at most \<open>bound\<close> steps after it began, whatever the others do meanwhile.\<close>

lemma calls_terminate:
  assumes "counted_run step pc idle s0 n k s" "\<forall>t. pc s0 t = idle"
  shows "n \<le> bound * k"
  using run_work[OF assms] by auto

end

end
