(* ===== verification/Server_Client.thy ===== *)
theory Server_Client
  imports Scope_Claims
begin

text \<open>
  \<open>server/client.go\<close> (a registered client: its builder methods, normal form, validation and
  secret check) and \<open>server/scopes.go\<close> (which scopes a token request is granted).

  Slices are values here; \<open>cloneClient\<close>, which makes them so, is in \<open>Slice_Store\<close>. SHA-256 is the parameter \<open>sha256\<close>: the code only compares digests and
  checks their size. \<open>subtle.ConstantTimeCompare(x, y) == 1\<close> is equality.
\<close>

subsection \<open>encoding/hex\<close>

definition from_hex_char :: "char \<Rightarrow> nat option" where
  "from_hex_char c =
     (let n = of_char c :: nat in
      if 48 \<le> n \<and> n \<le> 57 then Some (n - 48)
      else if 97 \<le> n \<and> n \<le> 102 then Some (n - 87)
      else if 65 \<le> n \<and> n \<le> 70 then Some (n - 55)
      else None)"

fun hex_decode :: "string \<Rightarrow> string option" where
  "hex_decode [] = Some []"
| "hex_decode [_] = None"
| "hex_decode (a # b # s) =
     (case (from_hex_char a, from_hex_char b, hex_decode s) of
        (Some x, Some y, Some t) \<Rightarrow> Some (char_of (16 * x + y) # t)
      | _ \<Rightarrow> None)"

definition sha256_Size :: nat where "sha256_Size = 32"

subsection \<open>server/scopes.go\<close>

definition srv_contains :: "string list \<Rightarrow> string \<Rightarrow> bool" where
  "srv_contains items needle \<longleftrightarrow> TrimSpace needle \<in> set items"

fun isScopeAllowed :: "string \<Rightarrow> string list \<Rightarrow> bool" where
  "isScopeAllowed requested [] = False"
| "isScopeAllowed requested (pattern # allowed) =
     (if ScopeCovers pattern requested then True else isScopeAllowed requested allowed)"

definition srv_containsScopeWildcard :: "string \<Rightarrow> bool" where
  "srv_containsScopeWildcard scope = Contains scope ''*''"

fun containsInvalidScopeWildcard :: "string list \<Rightarrow> bool" where
  "containsInvalidScopeWildcard [] = False"
| "containsInvalidScopeWildcard (scope # scopes) =
     (if ValidateScopeWildcard scope \<noteq> None then True else containsInvalidScopeWildcard scopes)"

definition expandWildcardScopeRequest :: "string \<Rightarrow> string list \<Rightarrow> string list" where
  "expandWildcardScopeRequest requested allowed =
     NormalizeScopes
       (filter (\<lambda>scope. \<not> srv_containsScopeWildcard scope \<and> ScopeCovers requested scope) allowed)"

text \<open>The loop of \<open>resolveRequestedScopes\<close>; \<open>None\<close> is the result \<open>nil, false\<close>.\<close>

fun resolve_loop :: "string list \<Rightarrow> string list \<Rightarrow> string list \<Rightarrow> string list option" where
  "resolve_loop allowed issued [] = Some issued"
| "resolve_loop allowed issued (scope # requested) =
     (if srv_containsScopeWildcard scope then
        (let expanded = expandWildcardScopeRequest scope allowed in
         if expanded = [] then None else resolve_loop allowed (issued @ expanded) requested)
      else if \<not> isScopeAllowed scope allowed then None
      else resolve_loop allowed (issued @ [scope]) requested)"

definition resolveRequestedScopes :: "string list \<Rightarrow> string list \<Rightarrow> string list option" where
  "resolveRequestedScopes requested allowed =
     (if containsInvalidScopeWildcard requested then None
      else (case resolve_loop allowed [] requested of
              None \<Rightarrow> None
            | Some issued \<Rightarrow> Some (NormalizeScopes issued)))"

subsection \<open>Which scopes are granted\<close>

text \<open>Scope lists in normal form hold non-blank items without white space.\<close>

definition clean :: "string list \<Rightarrow> bool" where
  "clean xs \<longleftrightarrow> (\<forall>x\<in>set xs. x \<noteq> [] \<and> space_free x)"

lemma clean_NormalizeScopes [simp]: "clean (NormalizeScopes xs)"
  unfolding clean_def by (rule ns.norm_items_set)

lemma clean_Normalize [simp]: "clean (Normalize xs)"
  unfolding clean_def by (rule nz.norm_items_set)

lemma clean_append [simp]: "clean (xs @ ys) \<longleftrightarrow> clean xs \<and> clean ys"
  by (auto simp: clean_def)

lemma clean_Nil [simp]: "clean []"
  by (simp add: clean_def)

lemma clean_Cons [simp]: "clean (x # xs) \<longleftrightarrow> x \<noteq> [] \<and> space_free x \<and> clean xs"
  by (auto simp: clean_def)

lemma clean_item: "clean xs \<Longrightarrow> x \<in> set xs \<Longrightarrow> ScopeCovers x x"
  by (auto simp: clean_def intro: ScopeCovers_refl)

lemma clean_filter: "clean xs \<Longrightarrow> clean (filter P xs)"
  by (auto simp: clean_def)

lemma set_NormalizeScopes_clean: "clean xs \<Longrightarrow> set (NormalizeScopes xs) = set xs"
  unfolding clean_def by (rule ns.norm_clean)

lemma srv_containsScopeWildcard_iff [go_simps]:
  "srv_containsScopeWildcard s \<longleftrightarrow> \<not> wildcard_free s"
  by (simp add: srv_containsScopeWildcard_def wildcard_free_def go_simps)

lemma isScopeAllowed_iff: "isScopeAllowed s allowed \<longleftrightarrow> (\<exists>a\<in>set allowed. ScopeCovers a s)"
  by (induction allowed) auto

lemma containsInvalidScopeWildcard_iff:
  "containsInvalidScopeWildcard scopes \<longleftrightarrow> (\<exists>s\<in>set scopes. ValidateScopeWildcard s \<noteq> None)"
  by (induction scopes) auto

lemma set_expandWildcardScopeRequest:
  "clean allowed \<Longrightarrow>
   set (expandWildcardScopeRequest r allowed) = {a \<in> set allowed. wildcard_free a \<and> ScopeCovers r a}"
  by (auto simp: expandWildcardScopeRequest_def set_NormalizeScopes_clean clean_filter go_simps)

text \<open>What one requested scope contributes, and when it is refused.\<close>

definition granted_by :: "string list \<Rightarrow> string \<Rightarrow> string set" where
  "granted_by allowed r =
     (if wildcard_free r then {s. s = r \<and> (\<exists>a\<in>set allowed. ScopeCovers a r)}
      else {a \<in> set allowed. wildcard_free a \<and> ScopeCovers r a})"

lemma expand_empty_iff:
  "clean allowed \<Longrightarrow>
   expandWildcardScopeRequest r allowed = [] \<longleftrightarrow> {a \<in> set allowed. wildcard_free a \<and> ScopeCovers r a} = {}"
  using set_expandWildcardScopeRequest[of allowed r] by (metis set_empty)

lemma resolve_loop_iff:
  assumes "clean allowed"
  shows "resolve_loop allowed issued requested = None \<longleftrightarrow>
           (\<exists>r\<in>set requested. granted_by allowed r = {})"
    and "resolve_loop allowed issued requested = Some out \<Longrightarrow>
           set out = set issued \<union> (\<Union>r\<in>set requested. granted_by allowed r)"
    and "resolve_loop allowed issued requested = Some out \<Longrightarrow> clean issued \<Longrightarrow> clean requested \<Longrightarrow>
           clean out"
proof (induction requested arbitrary: issued)
  case (Cons r requested)
  note facts = set_expandWildcardScopeRequest[OF assms] expand_empty_iff[OF assms]
  {
    case 1
    then show ?case using Cons.IH(1)
      by (auto simp: Let_def go_simps granted_by_def isScopeAllowed_iff facts)
  next
    case 2
    then show ?case using Cons.IH(2)
      by (auto simp: Let_def go_simps granted_by_def isScopeAllowed_iff facts split: if_splits)
  next
    case 3
    then have "clean (expandWildcardScopeRequest r allowed)"
      by (simp add: expandWildcardScopeRequest_def)
    with 3 show ?case
      using Cons.IH(3)[of "issued @ expandWildcardScopeRequest r allowed"]
        Cons.IH(3)[of "issued @ [r]"]
      by (simp add: Let_def split: if_splits)
  }
qed auto

lemma resolveRequestedScopes_spec:
  assumes "clean requested" "clean allowed"
  shows "resolveRequestedScopes requested allowed =
    (if \<forall>r\<in>set requested. ValidateScopeWildcard r = None \<and> granted_by allowed r \<noteq> {}
     then Some (sorted_list_of_set (\<Union>r\<in>set requested. granted_by allowed r)) else None)"
proof (cases "resolve_loop allowed [] requested")
  case None
  then show ?thesis
    using resolve_loop_iff(1)[OF assms(2), of "[]" requested]
    by (auto simp: resolveRequestedScopes_def)
next
  case (Some out)
  then have "clean out" "set out = (\<Union>r\<in>set requested. granted_by allowed r)"
    using resolve_loop_iff(2,3)[OF assms(2) Some] assms(1) by simp_all
  then have "NormalizeScopes out = sorted_list_of_set (\<Union>r\<in>set requested. granted_by allowed r)"
    using set_NormalizeScopes_clean[of out] ns.norm_reference[of "NormalizeScopes out"]
      ns.norm_set[of "NormalizeScopes out"] by (metis ns.norm_idem)
  with Some show ?thesis
    using resolve_loop_iff(1)[OF assms(2), of "[]" requested]
    by (auto simp: resolveRequestedScopes_def containsInvalidScopeWildcard_iff)
qed

lemma granted_by_sound:
  assumes "s \<in> granted_by allowed r" "clean allowed" "clean [r]"
  shows "(\<exists>a\<in>set allowed. ScopeCovers a s) \<and> ScopeCovers r s \<and> wildcard_free s"
  using assms clean_item[of allowed s] clean_item[of "[r]" r] unfolding granted_by_def
  by (auto split: if_splits)

subsection \<open>server/client.go\<close>

record client =
  c_ID :: string
  c_Secrets :: "string list"
  c_SecretSHA256Hex :: "string list"
  c_AllowedAudiences :: "string list"
  c_AllowedScopes :: "string list"
  c_DefaultScopes :: "string list"
  c_Disabled :: bool

definition zero_client :: client where
  "zero_client = \<lparr>c_ID = [], c_Secrets = [], c_SecretSHA256Hex = [], c_AllowedAudiences = [],
     c_AllowedScopes = [], c_DefaultScopes = [], c_Disabled = False\<rparr>"

definition NewClient :: "string \<Rightarrow> client" where
  "NewClient id0 = zero_client\<lparr>c_ID := TrimSpace id0\<rparr>"

definition client_Secret :: "client \<Rightarrow> string \<Rightarrow> client" where
  "client_Secret c secret =
     (if secret \<noteq> [] then c\<lparr>c_Secrets := c_Secrets c @ [secret]\<rparr> else c)"

definition client_SecretSHA256 :: "client \<Rightarrow> string \<Rightarrow> client" where
  "client_SecretSHA256 c hexValue =
     (let val = TrimSpace hexValue in
      if val \<noteq> [] then c\<lparr>c_SecretSHA256Hex := c_SecretSHA256Hex c @ [val]\<rparr> else c)"

definition client_Audiences :: "client \<Rightarrow> string list \<Rightarrow> client" where
  "client_Audiences c audiences =
     c\<lparr>c_AllowedAudiences := c_AllowedAudiences c @ Normalize audiences\<rparr>"

definition client_Audience :: "client \<Rightarrow> string \<Rightarrow> client" where
  "client_Audience c audience = client_Audiences c [audience]"

definition client_Scopes :: "client \<Rightarrow> string list \<Rightarrow> client" where
  "client_Scopes c scopes = c\<lparr>c_AllowedScopes := c_AllowedScopes c @ scopes\<rparr>"

definition client_Scope :: "client \<Rightarrow> string \<Rightarrow> client" where
  "client_Scope c scope = client_Scopes c [scope]"

definition client_Defaults :: "client \<Rightarrow> string list \<Rightarrow> client" where
  "client_Defaults c scopes = c\<lparr>c_DefaultScopes := c_DefaultScopes c @ scopes\<rparr>"

definition client_Disable :: "client \<Rightarrow> client" where
  "client_Disable c = c\<lparr>c_Disabled := True\<rparr>"

definition normalizeHashes :: "string list \<Rightarrow> string list" where
  "normalizeHashes values = map TrimSpace values"

definition client_Normalize :: "client \<Rightarrow> client" where
  "client_Normalize c =
     c\<lparr>c_ID := TrimSpace (c_ID c),
       c_SecretSHA256Hex := normalizeHashes (c_SecretSHA256Hex c),
       c_AllowedAudiences := Normalize (c_AllowedAudiences c),
       c_AllowedScopes := NormalizeScopes (c_AllowedScopes c),
       c_DefaultScopes := NormalizeScopes (c_DefaultScopes c)\<rparr>"

datatype client_error =
    IdRequired | SecretRequired | InvalidDigest string | AudienceRequired
  | AllowedScopesError scope_error | DefaultScopesWildcard string | DefaultScopeNotAllowed string

fun any_nonempty :: "string list \<Rightarrow> bool" where
  "any_nonempty [] = False"
| "any_nonempty (secret # secrets) = (if secret \<noteq> [] then True else any_nonempty secrets)"

definition hasCredentials :: "client \<Rightarrow> bool" where
  "hasCredentials c =
     (if any_nonempty (c_Secrets c) then True else 0 < length (c_SecretSHA256Hex c))"

definition ValidateScopePolicy :: "client \<Rightarrow> client_error option" where
  "ValidateScopePolicy c0 =
     (let c = client_Normalize c0 in
      case first_err ValidateScopeWildcard (c_AllowedScopes c) of
        Some e \<Rightarrow> Some (AllowedScopesError e)
      | None \<Rightarrow>
          first_err
            (\<lambda>scope. if srv_containsScopeWildcard scope then Some (DefaultScopesWildcard scope)
                     else None)
            (c_DefaultScopes c))"

definition digest_error :: "string \<Rightarrow> client_error option" where
  "digest_error hash =
     (case hex_decode hash of
        None \<Rightarrow> Some (InvalidDigest hash)
      | Some decoded \<Rightarrow> if length decoded \<noteq> sha256_Size then Some (InvalidDigest hash) else None)"

definition client_Validate :: "client \<Rightarrow> client_error option" where
  "client_Validate c0 =
     (let c = client_Normalize c0 in
      if c_ID c = [] then Some IdRequired
      else if \<not> hasCredentials c then Some SecretRequired
      else
        (case first_err digest_error (c_SecretSHA256Hex c) of
           Some e \<Rightarrow> Some e
         | None \<Rightarrow>
             if length (c_AllowedAudiences c) = 0 then Some AudienceRequired
             else
               (case ValidateScopePolicy c of
                  Some e \<Rightarrow> Some e
                | None \<Rightarrow>
                    first_err
                      (\<lambda>scope. if \<not> isScopeAllowed scope (c_AllowedScopes c)
                               then Some (DefaultScopeNotAllowed scope) else None)
                      (c_DefaultScopes c))))"

fun verify_plain :: "(string \<Rightarrow> string) \<Rightarrow> string \<Rightarrow> string list \<Rightarrow> bool" where
  "verify_plain sha256 provided [] = False"
| "verify_plain sha256 provided (plain # secrets) =
     (if provided = sha256 plain then True else verify_plain sha256 provided secrets)"

fun verify_hashes :: "string \<Rightarrow> string list \<Rightarrow> bool" where
  "verify_hashes provided [] = False"
| "verify_hashes provided (hash # hashes) =
     (case hex_decode (TrimSpace hash) of
        None \<Rightarrow> verify_hashes provided hashes
      | Some decoded \<Rightarrow>
          if length decoded = sha256_Size \<and> provided = decoded then True
          else verify_hashes provided hashes)"

definition VerifySecret :: "(string \<Rightarrow> string) \<Rightarrow> client \<Rightarrow> string \<Rightarrow> bool" where
  "VerifySecret sha256 c secret =
     (if secret = [] then False
      else
        (let provided = sha256 secret in
         if verify_plain sha256 provided (c_Secrets c) then True
         else verify_hashes provided (c_SecretSHA256Hex c)))"

subsection \<open>Normal form, validation and secrets\<close>

lemma client_Normalize_simps [simp]:
  "c_ID (client_Normalize c) = TrimSpace (c_ID c)"
  "c_Secrets (client_Normalize c) = c_Secrets c"
  "c_SecretSHA256Hex (client_Normalize c) = map TrimSpace (c_SecretSHA256Hex c)"
  "c_AllowedAudiences (client_Normalize c) = Normalize (c_AllowedAudiences c)"
  "c_AllowedScopes (client_Normalize c) = NormalizeScopes (c_AllowedScopes c)"
  "c_DefaultScopes (client_Normalize c) = NormalizeScopes (c_DefaultScopes c)"
  "c_Disabled (client_Normalize c) = c_Disabled c"
  by (simp_all add: client_Normalize_def normalizeHashes_def)

lemma client_Normalize_idem [simp]: "client_Normalize (client_Normalize c) = client_Normalize c"
  by (simp add: client_Normalize_def normalizeHashes_def)

lemma any_nonempty_iff: "any_nonempty xs \<longleftrightarrow> (\<exists>x\<in>set xs. x \<noteq> [])"
  by (induction xs) auto

lemma verify_plain_iff: "verify_plain h d xs \<longleftrightarrow> (\<exists>x\<in>set xs. h x = d)"
  by (induction xs) auto

lemma verify_hashes_iff:
  "verify_hashes d xs \<longleftrightarrow> length d = sha256_Size \<and> (\<exists>x\<in>set xs. hex_decode (TrimSpace x) = Some d)"
  by (induction xs) (auto split: option.splits)

lemma VerifySecret_iff:
  "VerifySecret sha256 c secret \<longleftrightarrow>
     secret \<noteq> [] \<and>
     ((\<exists>plain\<in>set (c_Secrets c). sha256 plain = sha256 secret) \<or>
      length (sha256 secret) = sha256_Size \<and>
      (\<exists>hash\<in>set (c_SecretSHA256Hex c). hex_decode (TrimSpace hash) = Some (sha256 secret)))"
  by (auto simp: VerifySecret_def Let_def verify_plain_iff verify_hashes_iff)

lemma VerifySecret_Normalize [simp]:
  "VerifySecret sha256 (client_Normalize c) secret = VerifySecret sha256 c secret"
  by (simp add: VerifySecret_iff)

lemma client_Validate_Normalize [simp]: "client_Validate (client_Normalize c) = client_Validate c"
  by (simp add: client_Validate_def)

lemma digest_error_None:
  "digest_error h = None \<longleftrightarrow> (\<exists>d. hex_decode h = Some d \<and> length d = sha256_Size)"
  by (auto simp: digest_error_def split: option.splits)

text \<open>What a statically configured client that passes validation satisfies.\<close>

definition client_ok :: "client \<Rightarrow> bool" where
  "client_ok c \<longleftrightarrow>
     TrimSpace (c_ID c) \<noteq> [] \<and>
     ((\<exists>s\<in>set (c_Secrets c). s \<noteq> []) \<or> c_SecretSHA256Hex c \<noteq> []) \<and>
     (\<forall>h\<in>set (c_SecretSHA256Hex c).
        \<exists>d. hex_decode (TrimSpace h) = Some d \<and> length d = sha256_Size) \<and>
     Normalize (c_AllowedAudiences c) \<noteq> [] \<and>
     (\<forall>a\<in>set (NormalizeScopes (c_AllowedScopes c)). wildcard_free a \<or> (\<exists>p r. wildcard_of a p r)) \<and>
     (\<forall>d\<in>set (NormalizeScopes (c_DefaultScopes c)).
        wildcard_free d \<and> (\<exists>a\<in>set (NormalizeScopes (c_AllowedScopes c)). ScopeCovers a d))"

lemma ValidateScopePolicy_None:
  "ValidateScopePolicy c = None \<longleftrightarrow>
     (\<forall>a\<in>set (NormalizeScopes (c_AllowedScopes c)). wildcard_free a \<or> (\<exists>p r. wildcard_of a p r)) \<and>
     (\<forall>d\<in>set (NormalizeScopes (c_DefaultScopes c)). wildcard_free d)"
  by (simp add: ValidateScopePolicy_def Let_def ValidateScopeWildcard_None go_simps)

lemma client_Validate_None: "client_Validate c = None \<longleftrightarrow> client_ok c"
  unfolding client_Validate_def client_ok_def hasCredentials_def
  by (auto simp: Let_def any_nonempty_iff digest_error_None ValidateScopePolicy_None
      isScopeAllowed_iff)

subsection \<open>Properties\<close>

text \<open>\<open>Validate\<close> accepts exactly the clients that can be served: a non-blank id, at least one
  credential, every digest the hex form of a SHA-256 value, an audience, well-formed allowed scopes,
  and concrete default scopes that the allowed scopes cover.\<close>

theorem client_Validate_decides: "client_Validate c = None \<longleftrightarrow> client_ok c"
  by (rule client_Validate_None)

text \<open>A secret is accepted exactly when it is not empty and its hash is that of a configured plain
  secret or one of the configured digests; validation's normal form does not change the answer.\<close>

theorem VerifySecret_decides:
  "VerifySecret sha256 (client_Normalize c) secret = VerifySecret sha256 c secret \<and>
   (VerifySecret sha256 c secret \<longleftrightarrow>
     secret \<noteq> [] \<and>
     ((\<exists>plain\<in>set (c_Secrets c). sha256 plain = sha256 secret) \<or>
      length (sha256 secret) = sha256_Size \<and>
      (\<exists>hash\<in>set (c_SecretSHA256Hex c). hex_decode (TrimSpace hash) = Some (sha256 secret))))"
  by (simp add: VerifySecret_iff)

text \<open>C5: the scopes a request resolves to: it is refused when an item is a malformed wildcard or can be
  granted nothing; otherwise the result is the sorted union of what each item is granted - itself when
  it is concrete and allowed, the allowed concrete scopes it covers when it is a wildcard.\<close>

theorem resolveRequestedScopes_decides:
  assumes "clean requested" "clean allowed"
  shows "resolveRequestedScopes requested allowed =
    (if \<forall>r\<in>set requested. ValidateScopeWildcard r = None \<and> granted_by allowed r \<noteq> {}
     then Some (sorted_list_of_set (\<Union>r\<in>set requested. granted_by allowed r)) else None)"
  using assms by (rule resolveRequestedScopes_spec)

theorem resolveRequestedScopes_decides_witness:
  "resolveRequestedScopes [''sms.*''] [''sms.read'', ''sms.send.otp''] = Some [''sms.read'']"
proof -
  have "space_free ''sms.*''" "space_free ''sms.read''" "space_free ''sms.send.otp''" by code_simp+
  then have clean: "clean [''sms.*'']" "clean [''sms.read'', ''sms.send.otp'']" by simp_all
  have "ValidateScopeWildcard ''sms.*'' = None" by code_simp
  moreover have "\<not> wildcard_free ''sms.*''" "wildcard_free ''sms.read''"
      "ScopeCovers ''sms.*'' ''sms.read''" "\<not> ScopeCovers ''sms.*'' ''sms.send.otp''"
    by code_simp+
  then have "granted_by [''sms.read'', ''sms.send.otp''] ''sms.*'' = {''sms.read''}"
    by (auto simp: granted_by_def)
  ultimately show ?thesis
    unfolding resolveRequestedScopes_decides[OF clean] by simp
qed

end
