(* ===== verification/Server_Store.thy ===== *)
theory Server_Store
  imports Server_Client
begin

text \<open>
  \<open>server/store.go\<close>: the client store the token service asks, and its in-memory implementation.

  The copies that \<open>cloneClient\<close> makes keep the stored slices apart from the caller's; here slices
  are values, which \<open>Slice_Store\<close> justifies. Each operation holds the mutex for its whole access
  to the map and is one step.
\<close>

text \<open>Errors a store can return; the code tests for the first two with \<open>errors.Is\<close>.\<close>

datatype 'e store_error = ErrClientNotFound | ErrUnauthorized | StoreError 'e

type_synonym memory_store = "string \<rightharpoonup> client"

definition Upsert :: "memory_store \<Rightarrow> client \<Rightarrow> memory_store" where
  "Upsert s c0 =
     (let c = client_Normalize c0 in
      if c_ID c = [] then s else s(c_ID c \<mapsto> c))"

definition NewMemoryClientStore :: "client list \<Rightarrow> memory_store" where
  "NewMemoryClientStore clients = foldl Upsert Map.empty clients"

definition MemoryStore :: "client list \<Rightarrow> memory_store" where
  "MemoryStore clients = NewMemoryClientStore clients"

definition FindClient :: "memory_store \<Rightarrow> string \<Rightarrow> 'e store_error + client" where
  "FindClient s cid =
     (case s (TrimSpace cid) of
        None \<Rightarrow> Inl ErrClientNotFound
      | Some c \<Rightarrow> if c_Disabled c then Inl ErrClientNotFound else Inr c)"

subsection \<open>The contract of a client store\<close>

text \<open>What the server relies on: a client that is found is enabled, in normal form and has the id
  that was asked for (up to surrounding space); an insert is visible under its id at once, hides the
  client when it is disabled, and changes no other id.\<close>

locale client_store =
  fixes inv :: "'s \<Rightarrow> bool"
    and new :: "'s"
    and insert_client :: "'s \<Rightarrow> client \<Rightarrow> 's"
    and find :: "'s \<Rightarrow> string \<Rightarrow> 'e store_error + client"
  assumes inv_new: "inv new"
    and inv_insert: "inv s \<Longrightarrow> inv (insert_client s c)"
    and find_new: "find new cid = Inl ErrClientNotFound"
    and found: "inv s \<Longrightarrow> find s cid = Inr c \<Longrightarrow>
      c_ID c = TrimSpace cid \<and> c_ID c \<noteq> [] \<and> \<not> c_Disabled c \<and> client_Normalize c = c"
    and find_insert: "inv s \<Longrightarrow> TrimSpace (c_ID c) \<noteq> [] \<Longrightarrow> TrimSpace cid = TrimSpace (c_ID c) \<Longrightarrow>
      find (insert_client s c) cid =
        (if c_Disabled c then Inl ErrClientNotFound else Inr (client_Normalize c))"
    and find_insert_other: "inv s \<Longrightarrow> TrimSpace cid \<noteq> TrimSpace (c_ID c) \<Longrightarrow>
      find (insert_client s c) cid = find s cid"
    and insert_no_id: "inv s \<Longrightarrow> TrimSpace (c_ID c) = [] \<Longrightarrow> insert_client s c = s"
begin

lemma inv_inserts: "inv s \<Longrightarrow> inv (foldl insert_client s cs)"
  by (induction cs arbitrary: s) (simp_all add: inv_insert)

lemma find_blank: "inv s \<Longrightarrow> TrimSpace cid = [] \<Longrightarrow> find s cid = Inr c \<Longrightarrow> False"
  using found by force

lemma find_inserts_other:
  assumes "inv s" "\<forall>c\<in>set cs. TrimSpace (c_ID c) \<noteq> TrimSpace cid"
  shows "find (foldl insert_client s cs) cid = find s cid"
  using assms
proof (induction cs arbitrary: s)
  case (Cons c cs)
  then have "find (insert_client s c) cid = find s cid" by (intro find_insert_other) auto
  with Cons show ?case by (simp add: inv_insert)
qed simp

text \<open>The last client with an id decides.\<close>

lemma find_last:
  assumes "inv s" "TrimSpace (c_ID c) \<noteq> []" "TrimSpace cid = TrimSpace (c_ID c)"
    and "\<forall>d\<in>set cs'. TrimSpace (c_ID d) \<noteq> TrimSpace cid"
  shows "find (foldl insert_client s (cs @ c # cs')) cid =
    (if c_Disabled c then Inl ErrClientNotFound else Inr (client_Normalize c))"
proof -
  have inv: "inv (foldl insert_client s cs)" using assms(1) by (rule inv_inserts)
  have "find (foldl insert_client s (cs @ c # cs')) cid =
      find (insert_client (foldl insert_client s cs) c) cid"
    using find_inserts_other[OF inv_insert[OF inv] assms(4)] by simp
  then show ?thesis using find_insert[OF inv assms(2,3)] by simp
qed

text \<open>Whatever was inserted, a client that is found is the normal form of one of the inserts.\<close>

lemma found_among:
  assumes "inv s" "find s cid = Inl ErrClientNotFound"
    and "find (foldl insert_client s cs) cid = Inr c"
  shows "\<exists>d\<in>set cs. \<not> c_Disabled d \<and> c = client_Normalize d \<and> TrimSpace (c_ID d) = TrimSpace cid"
proof (cases "\<exists>d\<in>set cs. TrimSpace (c_ID d) = TrimSpace cid")
  case True
  then obtain as d bs where cs: "cs = as @ d # bs" "TrimSpace (c_ID d) = TrimSpace cid"
    "\<forall>e\<in>set bs. TrimSpace (c_ID e) \<noteq> TrimSpace cid"
    using split_list_last_prop[of cs "\<lambda>d. TrimSpace (c_ID d) = TrimSpace cid"] by blast
  show ?thesis
  proof (cases "TrimSpace (c_ID d) = []")
    case True
    then show ?thesis using find_blank[OF inv_inserts[OF assms(1)] _ assms(3)] cs(2) by simp
  next
    case False
    then show ?thesis using find_last[OF assms(1) False _ cs(3)] assms(3) cs by (auto split: if_splits)
  qed
next
  case False
  then show ?thesis using find_inserts_other[OF assms(1)] assms(2,3) by auto
qed

end

text \<open>The invariant of the in-memory map.\<close>

definition store_ok :: "memory_store \<Rightarrow> bool" where
  "store_ok s \<longleftrightarrow> (\<forall>cid c. s cid = Some c \<longrightarrow> c_ID c = cid \<and> cid \<noteq> [] \<and> client_Normalize c = c)"

lemma store_ok_Upsert: "store_ok s \<Longrightarrow> store_ok (Upsert s c)"
  by (auto simp: store_ok_def Upsert_def Let_def)

interpretation memory: client_store store_ok Map.empty Upsert FindClient
proof
  show "c_ID c = TrimSpace cid \<and> c_ID c \<noteq> [] \<and> \<not> c_Disabled c \<and> client_Normalize c = c"
    if "store_ok s" "FindClient s cid = Inr c" for s cid c
    using that by (auto simp: store_ok_def FindClient_def split: option.splits if_splits)
qed (auto simp: store_ok_Upsert, auto simp: store_ok_def FindClient_def Upsert_def Let_def)

subsection \<open>Properties\<close>

text \<open>The in-memory store answers with the last client inserted under an id (ids are compared
  trimmed), in normal form, and hides it when that client is disabled.\<close>

theorem store_last_insert_decides:
  assumes "store_ok s" "TrimSpace (c_ID c) \<noteq> []" "TrimSpace cid = TrimSpace (c_ID c)"
    and "\<forall>d\<in>set cs'. TrimSpace (c_ID d) \<noteq> TrimSpace cid"
  shows "FindClient (foldl Upsert s (cs @ c # cs')) cid =
    (if c_Disabled c then Inl ErrClientNotFound else Inr (client_Normalize c))"
  using assms by (rule memory.find_last)

definition demo_client :: client where
  "demo_client = \<lparr>c_ID = '' svc '', c_Secrets = [''s3cret''], c_SecretSHA256Hex = [],
     c_AllowedAudiences = [''sms''], c_AllowedScopes = [''sms.read sms.send.*''],
     c_DefaultScopes = [''sms.read''], c_Disabled = False\<rparr>"

theorem store_last_insert_decides_witness:
  "(FindClient (foldl Upsert Map.empty ([] @ demo_client # [])) ''svc'' :: unit store_error + client) =
     Inr (client_Normalize demo_client)"
proof -
  have t: "TrimSpace (c_ID demo_client) = ''svc''" "TrimSpace ''svc'' = ''svc''" by code_simp+
  show ?thesis
    using store_last_insert_decides[of Map.empty demo_client "''svc''" "[]" "[]"] t
    by (simp add: memory.inv_new) (simp add: demo_client_def)
qed

end
