(* ===== verification/Slice_Store.thy ===== *)
theory Slice_Store
  imports Server_Store
begin

text \<open>
  The copies of \<open>server/client.go\<close> and \<open>server/store.go\<close>. A Go slice is a reference: who keeps one can
  write through it later. The rest of the development treats slices as values; this theory models them
  as addresses of arrays on a heap, with \<open>cloneClient\<close>, \<open>Normalize\<close>, \<open>Upsert\<close> and \<open>FindClient\<close> as the code
  has them, and shows that callers who write to every array they ever got hold of observe the store of
  \<open>Server_Store\<close>: the values are sound because of the copies.

  A slice is \<open>nil\<close> or a whole array; the clients' slices are never cut. Operations of the store are
  atomic, and what they allocate and drop is known to nobody.
\<close>

type_synonym slice = "nat option"

record slice_heap =
  sh_arrays :: "nat \<Rightarrow> string list"
  sh_next :: nat

definition contents :: "slice_heap \<Rightarrow> slice \<Rightarrow> string list" where
  "contents h s = (case s of None \<Rightarrow> [] | Some a \<Rightarrow> sh_arrays h a)"

definition new_array :: "slice_heap \<Rightarrow> string list \<Rightarrow> slice_heap \<times> slice" where
  "new_array h xs =
     (h\<lparr>sh_arrays := (sh_arrays h)(sh_next h := xs), sh_next := Suc (sh_next h)\<rparr>, Some (sh_next h))"

definition Clone :: "slice_heap \<Rightarrow> slice \<Rightarrow> slice_heap \<times> slice" where
  "Clone h s = (case s of None \<Rightarrow> (h, None) | Some a \<Rightarrow> new_array h (sh_arrays h a))"

record shared_client =
  sc_ID :: string
  sc_Secrets :: slice
  sc_SecretSHA256Hex :: slice
  sc_AllowedAudiences :: slice
  sc_AllowedScopes :: slice
  sc_DefaultScopes :: slice
  sc_Disabled :: bool

definition view :: "slice_heap \<Rightarrow> shared_client \<Rightarrow> client" where
  "view h c =
     \<lparr>c_ID = sc_ID c, c_Secrets = contents h (sc_Secrets c),
      c_SecretSHA256Hex = contents h (sc_SecretSHA256Hex c),
      c_AllowedAudiences = contents h (sc_AllowedAudiences c),
      c_AllowedScopes = contents h (sc_AllowedScopes c),
      c_DefaultScopes = contents h (sc_DefaultScopes c), c_Disabled = sc_Disabled c\<rparr>"

definition cloneClient :: "slice_heap \<Rightarrow> shared_client \<Rightarrow> slice_heap \<times> shared_client" where
  "cloneClient h c =
     (let (h, secrets) = Clone h (sc_Secrets c);
          (h, hashes) = Clone h (sc_SecretSHA256Hex c);
          (h, audiences) = Clone h (sc_AllowedAudiences c);
          (h, allowed) = Clone h (sc_AllowedScopes c);
          (h, defaults) = Clone h (sc_DefaultScopes c) in
      (h, c\<lparr>sc_Secrets := secrets, sc_SecretSHA256Hex := hashes, sc_AllowedAudiences := audiences,
            sc_AllowedScopes := allowed, sc_DefaultScopes := defaults\<rparr>))"

text \<open>\<open>stringset.Normalize\<close> returns \<open>nil\<close> for an empty slice and a new array otherwise; \<open>normalizeHashes\<close> keeps
  \<open>nil\<close> and makes a new array otherwise.\<close>

definition shared_set :: "slice_heap \<Rightarrow> slice \<Rightarrow> slice_heap \<times> slice" where
  "shared_set h s = (if length (contents h s) = 0 then (h, None) else new_array h (Normalize (contents h s)))"

definition shared_hashes :: "slice_heap \<Rightarrow> slice \<Rightarrow> slice_heap \<times> slice" where
  "shared_hashes h s = (case s of None \<Rightarrow> (h, None) | Some a \<Rightarrow> new_array h (normalizeHashes (sh_arrays h a)))"

definition shared_Normalize :: "slice_heap \<Rightarrow> shared_client \<Rightarrow> slice_heap \<times> shared_client" where
  "shared_Normalize h c0 =
     (let (h, c) = cloneClient h c0;
          (h, hashes) = shared_hashes h (sc_SecretSHA256Hex c);
          (h, audiences) = shared_set h (sc_AllowedAudiences c);
          (h, allowed) = shared_set h (sc_AllowedScopes c);
          (h, defaults) = shared_set h (sc_DefaultScopes c) in
      (h, c\<lparr>sc_ID := TrimSpace (sc_ID c), sc_SecretSHA256Hex := hashes, sc_AllowedAudiences := audiences,
            sc_AllowedScopes := allowed, sc_DefaultScopes := defaults\<rparr>))"

type_synonym shared_store = "string \<rightharpoonup> shared_client"

definition shared_Upsert :: "slice_heap \<Rightarrow> shared_store \<Rightarrow> shared_client \<Rightarrow> slice_heap \<times> shared_store" where
  "shared_Upsert h store c0 =
     (let (h, c) = shared_Normalize h c0 in
      if sc_ID c = [] then (h, store)
      else (let (h, stored) = cloneClient h c in (h, store(sc_ID c \<mapsto> stored))))"

definition shared_FindClient ::
  "slice_heap \<Rightarrow> shared_store \<Rightarrow> string \<Rightarrow> slice_heap \<times> ('e store_error + shared_client)" where
  "shared_FindClient h store cid =
     (case store (TrimSpace cid) of
        None \<Rightarrow> (h, Inl ErrClientNotFound)
      | Some c \<Rightarrow>
          if sc_Disabled c then (h, Inl ErrClientNotFound)
          else (let (h, copy) = cloneClient h c in (h, Inr copy)))"

subsection \<open>Copies\<close>

text \<open>Allocation leaves older arrays alone.\<close>

definition extends :: "slice_heap \<Rightarrow> slice_heap \<Rightarrow> bool" where
  "extends h h' \<longleftrightarrow> sh_next h \<le> sh_next h' \<and> (\<forall>a < sh_next h. sh_arrays h' a = sh_arrays h a)"

definition addrs :: "shared_client \<Rightarrow> nat set" where
  "addrs c = set_option (sc_Secrets c) \<union> set_option (sc_SecretSHA256Hex c) \<union> set_option (sc_AllowedAudiences c) \<union>
     set_option (sc_AllowedScopes c) \<union> set_option (sc_DefaultScopes c)"

text \<open>A new slice \<open>s\<close> with contents \<open>xs\<close>, made between two heaps.\<close>

definition made :: "slice_heap \<Rightarrow> slice_heap \<Rightarrow> slice \<Rightarrow> string list \<Rightarrow> bool" where
  "made h h' s xs \<longleftrightarrow> extends h h' \<and> contents h' s = xs \<and> set_option s \<subseteq> {sh_next h..<sh_next h'}"

lemma extends_refl [simp]: "extends h h"
  by (simp add: extends_def)

lemma extends_trans: "extends h1 h2 \<Longrightarrow> extends h2 h3 \<Longrightarrow> extends h1 h3"
  by (auto simp: extends_def)

lemma contents_extends: "extends h h' \<Longrightarrow> set_option s \<subseteq> {..<sh_next h} \<Longrightarrow> contents h' s = contents h s"
  by (auto simp: extends_def contents_def split: option.split)

lemma view_extends: "extends h h' \<Longrightarrow> addrs c \<subseteq> {..<sh_next h} \<Longrightarrow> view h' c = view h c"
  by (auto simp: view_def addrs_def contents_extends)

lemma made_new_array: "new_array h xs = (h', s) \<Longrightarrow> made h h' s xs"
  by (auto simp: made_def new_array_def extends_def contents_def)

lemma made_Clone: "Clone h s = (h', s') \<Longrightarrow> made h h' s' (contents h s)"
  by (auto simp: Clone_def contents_def dest: made_new_array split: option.splits)
    (auto simp: made_def contents_def)

lemma made_shared_set: "shared_set h s = (h', s') \<Longrightarrow> made h h' s' (Normalize (contents h s))"
  by (auto simp: shared_set_def dest: made_new_array split: if_splits)
    (auto simp: made_def contents_def)

lemma made_shared_hashes: "shared_hashes h s = (h', s') \<Longrightarrow> made h h' s' (normalizeHashes (contents h s))"
  by (auto simp: shared_hashes_def contents_def dest: made_new_array split: option.splits)
    (auto simp: made_def contents_def normalizeHashes_def)

text \<open>A slice that was made stays as it is while others are made.\<close>

lemma made_extends:
  assumes "made h1 h2 s xs" "extends h0 h1" "extends h2 h3"
  shows "made h0 h3 s xs"
proof -
  have "extends h0 h3" using assms by (auto simp: made_def intro: extends_trans)
  moreover have "set_option s \<subseteq> {..<sh_next h2}" using assms(1) by (force simp: made_def)
  then have "contents h3 s = xs" using assms contents_extends[of h2 h3 s] by (simp add: made_def)
  moreover have "set_option s \<subseteq> {sh_next h0..<sh_next h3}" using assms by (auto simp: made_def extends_def)
  ultimately show ?thesis by (simp add: made_def)
qed

lemma made_later: "made h1 h2 s xs \<Longrightarrow> extends h2 h3 \<Longrightarrow> made h1 h3 s xs"
  using made_extends extends_refl by blast

lemma madeD: "made h h' s xs \<Longrightarrow> extends h h'"
  by (simp add: made_def)

text \<open>Each field is copied from the slice it had before any copy was made.\<close>

lemma made_Clone_from:
  "Clone h1 s = (h2, s') \<Longrightarrow> extends h0 h1 \<Longrightarrow> set_option s \<subseteq> {..<sh_next h0} \<Longrightarrow> made h0 h2 s' (contents h0 s)"
  using made_Clone[of h1 s h2 s'] made_extends[of h1 h2 s' _ h0 h2] by (simp add: contents_extends)

lemma cloneClient_spec:
  assumes "cloneClient h c = (h', c')" "addrs c \<subseteq> {..<sh_next h}"
  shows "extends h h' \<and> view h' c' = view h c \<and> addrs c' \<subseteq> {sh_next h..<sh_next h'} \<and>
    sc_ID c' = sc_ID c \<and> sc_Disabled c' = sc_Disabled c"
proof -
  obtain h1 s1 h2 s2 h3 s3 h4 s4 s5 where eqs:
    "Clone h (sc_Secrets c) = (h1, s1)" "Clone h1 (sc_SecretSHA256Hex c) = (h2, s2)"
    "Clone h2 (sc_AllowedAudiences c) = (h3, s3)" "Clone h3 (sc_AllowedScopes c) = (h4, s4)"
    "Clone h4 (sc_DefaultScopes c) = (h', s5)"
    and c': "c' = c\<lparr>sc_Secrets := s1, sc_SecretSHA256Hex := s2, sc_AllowedAudiences := s3,
       sc_AllowedScopes := s4, sc_DefaultScopes := s5\<rparr>"
    using assms(1) by (auto simp: cloneClient_def Let_def split: prod.splits)
  have steps: "extends h1 h2" "extends h2 h3" "extends h3 h4" "extends h4 h'"
    using eqs(2-5) made_Clone madeD by blast+
  have m1: "made h h1 s1 (contents h (sc_Secrets c))" using eqs(1) by (rule made_Clone)
  have m2: "made h h2 s2 (contents h (sc_SecretSHA256Hex c))"
    using made_Clone_from[OF eqs(2) madeD[OF m1]] assms(2) by (simp add: addrs_def)
  have m3: "made h h3 s3 (contents h (sc_AllowedAudiences c))"
    using made_Clone_from[OF eqs(3) madeD[OF m2]] assms(2) by (simp add: addrs_def)
  have m4: "made h h4 s4 (contents h (sc_AllowedScopes c))"
    using made_Clone_from[OF eqs(4) madeD[OF m3]] assms(2) by (simp add: addrs_def)
  have m5: "made h h' s5 (contents h (sc_DefaultScopes c))"
    using made_Clone_from[OF eqs(5) madeD[OF m4]] assms(2) by (simp add: addrs_def)
  note made = made_later[OF made_later[OF made_later[OF made_later[OF m1 steps(1)] steps(2)] steps(3)] steps(4)]
    made_later[OF made_later[OF made_later[OF m2 steps(2)] steps(3)] steps(4)]
    made_later[OF made_later[OF m3 steps(3)] steps(4)] made_later[OF m4 steps(4)] m5
  show ?thesis using made unfolding made_def by (simp add: c' view_def addrs_def)
qed

lemma shared_Normalize_spec:
  assumes "shared_Normalize h c = (h', c')" "addrs c \<subseteq> {..<sh_next h}"
  shows "extends h h' \<and> view h' c' = client_Normalize (view h c) \<and> addrs c' \<subseteq> {sh_next h..<sh_next h'}"
proof -
  obtain h1 d h2 s2 h3 s3 h4 s4 s5 where eqs: "cloneClient h c = (h1, d)"
    "shared_hashes h1 (sc_SecretSHA256Hex d) = (h2, s2)" "shared_set h2 (sc_AllowedAudiences d) = (h3, s3)"
    "shared_set h3 (sc_AllowedScopes d) = (h4, s4)" "shared_set h4 (sc_DefaultScopes d) = (h', s5)"
    and c': "c' = d\<lparr>sc_ID := TrimSpace (sc_ID d), sc_SecretSHA256Hex := s2, sc_AllowedAudiences := s3,
       sc_AllowedScopes := s4, sc_DefaultScopes := s5\<rparr>"
    using assms(1) by (auto simp: shared_Normalize_def Let_def split: prod.splits)
  note d = cloneClient_spec[OF eqs(1) assms(2)]
  have m2: "made h1 h2 s2 (normalizeHashes (contents h1 (sc_SecretSHA256Hex d)))"
    using eqs(2) by (rule made_shared_hashes)
  have steps: "extends h2 h3" "extends h3 h4" "extends h4 h'"
    using eqs(3-5) made_shared_set madeD by blast+
  have old: "contents h2 (sc_AllowedAudiences d) = contents h1 (sc_AllowedAudiences d)"
      "contents h3 (sc_AllowedScopes d) = contents h1 (sc_AllowedScopes d)"
      "contents h4 (sc_DefaultScopes d) = contents h1 (sc_DefaultScopes d)"
      "contents h' (sc_Secrets d) = contents h1 (sc_Secrets d)"
    using d madeD[OF m2] steps by (auto simp: addrs_def intro!: contents_extends intro: extends_trans)
  have m3: "made h1 h3 s3 (Normalize (contents h1 (sc_AllowedAudiences d)))"
    using made_extends[OF made_shared_set[OF eqs(3)] madeD[OF m2] extends_refl] by (simp add: old)
  have m4: "made h1 h4 s4 (Normalize (contents h1 (sc_AllowedScopes d)))"
    using made_extends[OF made_shared_set[OF eqs(4)] madeD[OF m3] extends_refl] by (simp add: old)
  have m5: "made h1 h' s5 (Normalize (contents h1 (sc_DefaultScopes d)))"
    using made_extends[OF made_shared_set[OF eqs(5)] madeD[OF m4] extends_refl] by (simp add: old)
  note made = made_later[OF made_later[OF made_later[OF m2 steps(1)] steps(2)] steps(3)]
    made_later[OF made_later[OF m3 steps(2)] steps(3)] made_later[OF m4 steps(3)] m5
  have "addrs c' \<subseteq> addrs d \<union> {sh_next h1..<sh_next h'}"
    using made by (auto simp: made_def c' addrs_def)
  moreover have "sh_next h \<le> sh_next h1" "sh_next h1 \<le> sh_next h'"
    using d madeD[OF m5] by (auto simp: extends_def)
  ultimately have "addrs c' \<subseteq> {sh_next h..<sh_next h'}" using d by fastforce
  moreover have "view h' c' = client_Normalize (view h1 d)"
    using made by (simp add: made_def c' view_def client_Normalize_def NormalizeScopes_def old)
  ultimately show ?thesis using d extends_trans[OF _ madeD[OF m5]] by simp
qed

subsection \<open>The store among callers who write\<close>

record shared_system =
  ss_heap :: slice_heap
  ss_store :: shared_store
  ss_known :: "nat set"

datatype 'e store_event = Allocated | Wrote | Upserted client | Found string "'e store_error + client"

definition new_system :: shared_system where
  "new_system = \<lparr>ss_heap = \<lparr>sh_arrays = \<lambda>_. [], sh_next = 0\<rparr>, ss_store = Map.empty, ss_known = {}\<rparr>"

text \<open>The callers make arrays, write to any array they know of, insert clients with slices they know of,
  and get to know the slices of the clients they find. An event records what a call passes, as seen at
  that moment.\<close>

inductive sstep :: "shared_system \<Rightarrow> 'e store_event \<Rightarrow> shared_system \<Rightarrow> bool" where
  allocate: "new_array (ss_heap s) xs = (h, Some a) \<Longrightarrow>
    sstep s Allocated (s\<lparr>ss_heap := h, ss_known := insert a (ss_known s)\<rparr>)"
| overwrite: "a \<in> ss_known s \<Longrightarrow>
    sstep s Wrote (s\<lparr>ss_heap := (ss_heap s)\<lparr>sh_arrays := (sh_arrays (ss_heap s))(a := xs)\<rparr>\<rparr>)"
| upsert: "addrs c \<subseteq> ss_known s \<Longrightarrow> shared_Upsert (ss_heap s) (ss_store s) c = (h, store) \<Longrightarrow>
    sstep s (Upserted (view (ss_heap s) c)) (s\<lparr>ss_heap := h, ss_store := store\<rparr>)"
| find_none: "shared_FindClient (ss_heap s) (ss_store s) cid = (h, Inl e) \<Longrightarrow>
    sstep s (Found cid (Inl e)) (s\<lparr>ss_heap := h\<rparr>)"
| find_some: "shared_FindClient (ss_heap s) (ss_store s) cid = (h, Inr c :: 'e store_error + shared_client) \<Longrightarrow>
    sstep s (Found cid (Inr (view h c))) (s\<lparr>ss_heap := h, ss_known := ss_known s \<union> addrs c\<rparr>)"

inductive history :: "'e store_event list \<Rightarrow> shared_system \<Rightarrow> bool" where
  nothing: "history [] new_system"
| event: "history tr s \<Longrightarrow> sstep s e s' \<Longrightarrow> history (tr @ [e]) s'"

inductive_cases history_snocE: "history (tr @ [e]) s"

lemma history_prefix: "history (tr @ tr') s \<Longrightarrow> \<exists>s'. history tr s'"
proof (induction tr' arbitrary: s rule: rev_induct)
  case (snoc e tr')
  from snoc.prems have "history ((tr @ tr') @ [e]) s" by simp
  then show ?case using snoc.IH by (blast elim: history_snocE)
qed auto

text \<open>The values in the store.\<close>

definition stored :: "shared_system \<Rightarrow> memory_store" where
  "stored s = (\<lambda>cid. map_option (view (ss_heap s)) (ss_store s cid))"

text \<open>No array of the store is known to a caller.\<close>

definition apart :: "shared_system \<Rightarrow> bool" where
  "apart s \<longleftrightarrow> ss_known s \<subseteq> {..<sh_next (ss_heap s)} \<and>
     (\<forall>c\<in>ran (ss_store s). addrs c \<subseteq> {..<sh_next (ss_heap s)} - ss_known s)"

lemma stored_extends:
  assumes "apart s" "extends (ss_heap s) h"
  shows "(\<lambda>cid. map_option (view h) (ss_store s cid)) = stored s"
proof
  fix cid
  show "map_option (view h) (ss_store s cid) = stored s cid"
  proof (cases "ss_store s cid")
    case (Some c)
    then have "addrs c \<subseteq> {..<sh_next (ss_heap s)}" using assms(1) by (auto simp: apart_def ran_def)
    then show ?thesis using Some assms(2) by (simp add: stored_def view_extends)
  qed (simp add: stored_def)
qed

lemma apart_extends:
  assumes "apart s" "extends (ss_heap s) h" "known \<subseteq> ss_known s \<union> {sh_next (ss_heap s)..<sh_next h}"
  shows "apart (s\<lparr>ss_heap := h, ss_known := known\<rparr>)"
  using assms unfolding apart_def extends_def by fastforce

lemma shared_FindClient_spec:
  fixes r :: "'e store_error + shared_client"
  assumes "shared_FindClient (ss_heap s) (ss_store s) cid = (h, r)" "apart s"
  shows "extends (ss_heap s) h \<and>
    (case r of Inl e \<Rightarrow> FindClient (stored s) cid = Inl e
     | Inr c \<Rightarrow> (FindClient (stored s) cid :: 'e store_error + client) = Inr (view h c) \<and> addrs c \<subseteq> {sh_next (ss_heap s)..<sh_next h})"
proof (cases "ss_store s (TrimSpace cid)")
  case None
  then show ?thesis using assms(1) by (auto simp: shared_FindClient_def FindClient_def stored_def)
next
  case (Some c)
  then have "addrs c \<subseteq> {..<sh_next (ss_heap s)}" using assms(2) by (auto simp: apart_def ran_def)
  then show ?thesis using assms(1) Some cloneClient_spec[of "ss_heap s" c]
    by (auto simp: shared_FindClient_def FindClient_def stored_def view_def Let_def split: if_splits prod.splits)
qed

lemma shared_Upsert_spec:
  assumes "shared_Upsert (ss_heap s) (ss_store s) c = (h, store)" "apart s" "addrs c \<subseteq> ss_known s"
  shows "apart (s\<lparr>ss_heap := h, ss_store := store\<rparr>) \<and>
    stored (s\<lparr>ss_heap := h, ss_store := store\<rparr>) = Upsert (stored s) (view (ss_heap s) c)"
proof -
  let ?h = "ss_heap s"
  obtain h1 d h2 d' where eqs: "shared_Normalize ?h c = (h1, d)" "cloneClient h1 d = (h2, d')"
    by (metis surj_pair)
  have known: "addrs c \<subseteq> {..<sh_next ?h}" using assms(2,3) by (auto simp: apart_def)
  note d = shared_Normalize_spec[OF eqs(1) known]
  then have fresh: "addrs d \<subseteq> {..<sh_next h1}" by fastforce
  note d' = cloneClient_spec[OF eqs(2) fresh]
  have ext: "extends ?h h1" "extends ?h h2" using d d' extends_trans by blast+
  have id: "c_ID (client_Normalize (view ?h c)) = sc_ID d" using d by (metis client.select_convs(1) view_def)
  show ?thesis
  proof (cases "sc_ID d = []")
    case True
    then have "h = h1" "store = ss_store s" using assms(1) eqs by (simp_all add: shared_Upsert_def Let_def)
    then show ?thesis using apart_extends[OF assms(2) ext(1), of "ss_known s"] stored_extends[OF assms(2) ext(1)] True id
      by (simp add: Upsert_def Let_def stored_def)
  next
    case False
    then have h: "h = h2" "store = (ss_store s)(sc_ID d \<mapsto> d')"
      using assms(1) eqs by (simp_all add: shared_Upsert_def Let_def)
    have "apart (s\<lparr>ss_heap := h2\<rparr>)" using apart_extends[OF assms(2) ext(2), of "ss_known s"] by simp
    moreover have "addrs d' \<subseteq> {..<sh_next h2} - ss_known s"
      using d' ext(1) assms(2) unfolding apart_def extends_def by fastforce
    ultimately have "apart (s\<lparr>ss_heap := h, ss_store := store\<rparr>)"
      unfolding h apart_def by (auto simp: ran_def)
    moreover have "stored (s\<lparr>ss_heap := h, ss_store := store\<rparr>) = Upsert (stored s) (view ?h c)"
    proof -
      have "stored (s\<lparr>ss_heap := h, ss_store := store\<rparr>) = (stored s)(sc_ID d \<mapsto> view h2 d')"
        unfolding h stored_extends[OF assms(2) ext(2), symmetric] by (auto simp: stored_def)
      then show ?thesis using False id d d' by (simp add: Upsert_def Let_def)
    qed
    ultimately show ?thesis ..
  qed
qed

lemma stored_overwrite:
  assumes "apart s" "a \<in> ss_known s"
  shows "stored (s\<lparr>ss_heap := (ss_heap s)\<lparr>sh_arrays := (sh_arrays (ss_heap s))(a := xs)\<rparr>\<rparr>) = stored s"
proof
  fix cid
  show "stored (s\<lparr>ss_heap := (ss_heap s)\<lparr>sh_arrays := (sh_arrays (ss_heap s))(a := xs)\<rparr>\<rparr>) cid = stored s cid"
  proof (cases "ss_store s cid")
    case (Some c)
    then have "a \<notin> addrs c" using assms by (auto simp: apart_def ran_def)
    then have "view ((ss_heap s)\<lparr>sh_arrays := (sh_arrays (ss_heap s))(a := xs)\<rparr>) c = view (ss_heap s) c"
      by (auto simp: view_def addrs_def contents_def split: option.split)
    then show ?thesis using Some by (simp add: stored_def)
  qed (simp add: stored_def)
qed

text \<open>Each step is a step of the store of values.\<close>

definition value_step :: "memory_store \<Rightarrow> 'e store_event \<Rightarrow> memory_store" where
  "value_step s e = (case e of Upserted c \<Rightarrow> Upsert s c | _ \<Rightarrow> s)"

lemma sstep_simulates:
  assumes "sstep s e s'" "apart s"
  shows "apart s' \<and> stored s' = value_step (stored s) e \<and> (\<forall>cid r. e = Found cid r \<longrightarrow> r = FindClient (stored s) cid)"
  using assms(1)
proof cases
  case (allocate xs h a)
  then have "made (ss_heap s) h (Some a) xs" using made_new_array by blast
  then have m: "extends (ss_heap s) h" "a \<in> {sh_next (ss_heap s)..<sh_next h}" by (auto simp: made_def)
  then show ?thesis using apart_extends[OF assms(2) m(1), of "insert a (ss_known s)"]
      stored_extends[OF assms(2) m(1)] allocate by (auto simp: value_step_def stored_def)
next
  case (overwrite a xs)
  then show ?thesis using stored_overwrite[OF assms(2)] assms(2) by (auto simp: value_step_def apart_def)
next
  case (upsert c h store)
  then show ?thesis using shared_Upsert_spec[OF upsert(4) assms(2) upsert(3)] by (simp add: value_step_def)
next
  case (find_none cid h e')
  note f = shared_FindClient_spec[OF find_none(3) assms(2)]
  then show ?thesis using apart_extends[OF assms(2), of h "ss_known s"] stored_extends[OF assms(2), of h] find_none
    by (auto simp: value_step_def stored_def)
next
  case (find_some cid h c)
  note f = shared_FindClient_spec[OF find_some(3) assms(2)]
  then show ?thesis using apart_extends[OF assms(2), of h "ss_known s \<union> addrs c"] stored_extends[OF assms(2), of h]
      find_some by (auto simp: value_step_def stored_def)
qed

lemma apart_new [simp]: "apart new_system" and stored_new [simp]: "stored new_system = Map.empty"
  by (simp_all add: apart_def new_system_def stored_def)

lemma history_simulates:
  "history tr s \<Longrightarrow> apart s \<and> stored s = foldl value_step Map.empty tr"
  by (induction rule: history.induct) (auto dest: sstep_simulates)

subsection \<open>Properties\<close>

text \<open>C16: the copies isolate the client store: whatever the callers do with the arrays behind the slices they
  passed to \<open>Upsert\<close> or got from \<open>FindClient\<close>, the store holds the values the inserts had when they were
  made, and every lookup answers what the store of values answers at that point.\<close>

theorem isolated_store:
  assumes "history tr s"
  shows "stored s = foldl value_step Map.empty tr \<and>
    (\<forall>before cid r after. tr = before @ Found cid r # after \<longrightarrow>
       r = FindClient (foldl value_step Map.empty before) cid)"
proof (intro conjI allI impI)
  show "stored s = foldl value_step Map.empty tr" using history_simulates[OF assms] by blast
  fix before cid r after
  assume "tr = before @ Found cid r # after"
  with assms have "history ((before @ [Found cid r]) @ after) s" by simp
  then obtain s1 where "history (before @ [Found cid r]) s1" using history_prefix by blast
  then obtain s0 where "history before s0" "sstep s0 (Found cid r) s1" by (blast elim: history_snocE)
  then show "r = FindClient (foldl value_step Map.empty before) cid"
    using history_simulates[of before s0] sstep_simulates[of s0 "Found cid r" s1] by simp
qed

definition caller_client :: shared_client where
  "caller_client = \<lparr>sc_ID = ''svc'', sc_Secrets = Some 0, sc_SecretSHA256Hex = None, sc_AllowedAudiences = None,
     sc_AllowedScopes = None, sc_DefaultScopes = None, sc_Disabled = False\<rparr>"

definition caller_value :: client where
  "caller_value = \<lparr>c_ID = ''svc'', c_Secrets = [''old''], c_SecretSHA256Hex = [], c_AllowedAudiences = [],
     c_AllowedScopes = [], c_DefaultScopes = [], c_Disabled = False\<rparr>"

definition caller_history :: "unit store_event list" where
  "caller_history = [Allocated, Upserted caller_value, Wrote, Found ''svc'' (Inr caller_value)]"

text \<open>A caller inserts a client, then overwrites the secret it passed, and finds the old one.\<close>

lemma caller_history_ex: "\<exists>s. history caller_history s \<and> contents (ss_heap s) (Some 0) = [''new'']"
proof -
  have t: "TrimSpace ''svc'' = ''svc''" by code_simp
  let ?h1 = "\<lparr>sh_arrays = (\<lambda>_. [])(0 := [''old'']), sh_next = Suc 0\<rparr>"
  let ?s1 = "new_system\<lparr>ss_heap := ?h1, ss_known := {0}\<rparr>"
  have "sstep new_system (Allocated :: unit store_event) ?s1"
    using sstep.allocate[of new_system "[''old'']" ?h1 0] by (simp add: new_array_def new_system_def)
  with history.nothing have 1: "history ([] @ [Allocated :: unit store_event]) ?s1" by (rule history.event)
  obtain h2 st where up: "shared_Upsert ?h1 Map.empty caller_client = (h2, st)" by (metis surj_pair)
  have h2: "h2 = \<lparr>sh_arrays = (\<lambda>_. [])(0 := [''old''], 1 := [''old''], 2 := [''old'']), sh_next = 3\<rparr>"
      "st = [''svc'' \<mapsto> caller_client\<lparr>sc_Secrets := Some 2\<rparr>]"
    using up by (simp_all add: shared_Upsert_def shared_Normalize_def cloneClient_def Clone_def new_array_def
        shared_hashes_def shared_set_def contents_def caller_client_def t numeral_2_eq_2 numeral_3_eq_3)
  let ?s2 = "?s1\<lparr>ss_heap := h2, ss_store := st\<rparr>"
  have v: "view ?h1 caller_client = caller_value"
    by (simp add: view_def contents_def caller_client_def caller_value_def)
  have "sstep ?s1 (Upserted caller_value :: unit store_event) ?s2"
    using sstep.upsert[of caller_client ?s1 h2 st] up v by (simp add: addrs_def caller_client_def new_system_def)
  with 1 have 2: "history (([] @ [Allocated]) @ [Upserted caller_value :: unit store_event]) ?s2" by (rule history.event)
  let ?h3 = "h2\<lparr>sh_arrays := (sh_arrays h2)(0 := [''new''])\<rparr>"
  let ?s3 = "?s2\<lparr>ss_heap := ?h3\<rparr>"
  have "sstep ?s2 (Wrote :: unit store_event) ?s3" using sstep.overwrite[of 0 ?s2 "[''new'']"] by simp
  with 2 have 3: "history ((([] @ [Allocated]) @ [Upserted caller_value]) @ [Wrote :: unit store_event]) ?s3"
    by (rule history.event)
  obtain h4 :: slice_heap and r :: "unit store_error + shared_client"
    where found: "shared_FindClient ?h3 st ''svc'' = (h4, r)" by (metis surj_pair)
  have h4: "h4 = ?h3\<lparr>sh_arrays := (sh_arrays ?h3)(3 := [''old'']), sh_next := 4\<rparr>"
      "r = Inr (caller_client\<lparr>sc_Secrets := Some 3\<rparr>)"
    using found unfolding h2 by (simp_all add: shared_FindClient_def cloneClient_def Clone_def new_array_def t caller_client_def)
  have "view h4 (caller_client\<lparr>sc_Secrets := Some 3\<rparr>) = caller_value"
    by (simp add: h4 view_def contents_def caller_client_def caller_value_def)
  note seen = this
  let ?s4 = "?s3\<lparr>ss_heap := h4, ss_known := ss_known ?s3 \<union> addrs (caller_client\<lparr>sc_Secrets := Some 3\<rparr>)\<rparr>"
  have "sstep ?s3 (Found ''svc'' (Inr caller_value) :: unit store_event) ?s4"
    using sstep.find_some[of ?s3 "''svc''" h4 "caller_client\<lparr>sc_Secrets := Some 3\<rparr>"] found h4(2) seen by simp
  note last = history.event[OF 3 this]
  have "contents (ss_heap ?s4) (Some 0) = [''new'']" by (simp add: h4 contents_def)
  with last show ?thesis unfolding caller_history_def append.simps by blast
qed

theorem isolated_store_witness:
  "\<exists>s. history caller_history s \<and> contents (ss_heap s) (Some 0) = [''new''] \<and>
     stored s = foldl value_step Map.empty caller_history \<and>
     (FindClient (foldl value_step Map.empty [Allocated, Upserted caller_value, Wrote :: unit store_event]) ''svc'' :: unit store_error + client) =
       Inr caller_value"
proof -
  obtain s where s: "history caller_history s" "contents (ss_heap s) (Some 0) = [''new'']"
    using caller_history_ex by blast
  have "caller_history = [Allocated, Upserted caller_value, Wrote :: unit store_event] @ Found ''svc'' (Inr caller_value) # []"
    by (simp add: caller_history_def)
  then have "(Inr caller_value :: unit store_error + client) =
      FindClient (foldl value_step Map.empty [Allocated, Upserted caller_value, Wrote :: unit store_event]) ''svc''"
    using isolated_store[OF s(1)] by blast
  then show ?thesis using s isolated_store[OF s(1), THEN conjunct1] by auto
qed

end
