(* ===== verification/Jwk_Keys.thy ===== *)
theory Jwk_Keys
  imports Go_Encoding
begin

unbundle bit_operations_syntax

text \<open>
  \<open>jwk/key.go\<close>, \<open>jwk/decode.go\<close> and \<open>jwk/static.go\<close>: JSON web keys, their decoding into public
  keys and the provider that serves a fixed key set.

  The names of the signature algorithms come from the JWT library; they are the parameter
  \<open>jwt_algs\<close>. The elliptic-curve check of \<open>crypto/ecdh\<close> is the curve equation of P-256. A key's
  RSA exponent is accumulated in a 64-bit word, as in the code; \<open>uint\<close> has 64 bits.
\<close>

subsection \<open>key.go\<close>

definition KtyOKP :: string where "KtyOKP = ''OKP''"
definition KtyRSA :: string where "KtyRSA = ''RSA''"
definition KtyEC :: string where "KtyEC = ''EC''"
definition UseSig :: string where "UseSig = ''sig''"
definition CrvEd :: string where "CrvEd = ''Ed25519''"
definition CrvP256 :: string where "CrvP256 = ''P-256''"

text \<open>The results of \<open>jwt.SigningMethodXXX.Alg()\<close>.\<close>

record jwt_algs =
  EdDSA :: string
  RS256 :: string
  RS384 :: string
  RS512 :: string
  PS256 :: string
  PS384 :: string
  PS512 :: string
  ES256 :: string

record key =
  k_Kty :: string
  k_Use :: string
  k_Kid :: string
  k_Alg :: string
  k_Crv :: string
  k_X :: string
  k_Y :: string
  k_N :: string
  k_E :: string

definition zero_key :: key where
  "zero_key = \<lparr>k_Kty = [], k_Use = [], k_Kid = [], k_Alg = [], k_Crv = [], k_X = [], k_Y = [],
     k_N = [], k_E = []\<rparr>"

text \<open>The three kinds of public key the code builds, from bytes and big integers.\<close>

datatype public_key =
    Ed25519PublicKey string
  | RSAPublicKey (rsa_N: nat) (rsa_E: int)
  | ECDSAPublicKey nat nat

record decoded_key =
  dk_publicKey :: public_key
  dk_declaredAlg :: string

definition NewEd25519Key :: "jwt_algs \<Rightarrow> string \<Rightarrow> string \<Rightarrow> key" where
  "NewEd25519Key A kid pub =
     zero_key\<lparr>k_Kty := KtyOKP, k_Use := UseSig, k_Kid := TrimSpace kid, k_Alg := EdDSA A,
       k_Crv := CrvEd, k_X := RawURL_EncodeToString pub\<rparr>"

text \<open>Errors of the key providers; \<open>AlgMismatch\<close> carries kid, declared and wanted algorithm.\<close>

datatype 'e key_error =
    ErrKeyNotFound string | AlgMismatch string string string | ProviderError 'e

definition forAlgorithm :: "decoded_key \<Rightarrow> string \<Rightarrow> string \<Rightarrow> 'e key_error + public_key" where
  "forAlgorithm k kid alg =
     (if dk_declaredAlg k \<noteq> [] \<and> alg \<noteq> [] \<and> dk_declaredAlg k \<noteq> alg
      then Inl (AlgMismatch kid (dk_declaredAlg k) alg)
      else Inr (dk_publicKey k))"

subsection \<open>decode.go\<close>

datatype decode_error =
    UnsupportedKty string | UnsupportedCurve string | EmptyField string | CorruptField string
  | InvalidEd25519Size nat | InvalidRSAModulus | RSAExponentOverflowsUint64
  | RSAExponentOverflowsInt | InvalidRSAExponent | InvalidP256Size nat nat | NotOnCurve

definition decodeBase64URL :: "string \<Rightarrow> string \<Rightarrow> decode_error + string" where
  "decodeBase64URL name val =
     (if val = [] then Inl (EmptyField name)
      else (case RawURL_DecodeString val of
              None \<Rightarrow> Inl (CorruptField name)
            | Some raw \<Rightarrow> if length raw = 0 then Inl (EmptyField name) else Inr raw))"

definition ed25519_PublicKeySize :: nat where "ed25519_PublicKeySize = 32"

definition decodeEd25519PublicKey :: "key \<Rightarrow> decode_error + public_key" where
  "decodeEd25519PublicKey k =
     (if k_Crv k \<noteq> CrvEd then Inl (UnsupportedCurve (k_Crv k))
      else (case decodeBase64URL ''ed25519 x'' (k_X k) of
              Inl err \<Rightarrow> Inl err
            | Inr raw \<Rightarrow>
                if length raw \<noteq> ed25519_PublicKeySize then Inl (InvalidEd25519Size (length raw))
                else Inr (Ed25519PublicKey raw)))"

text \<open>\<open>for _, value := range eBytes { exponent = exponent<<8 | uint64(value) }\<close>\<close>

definition rsa_exponent :: "string \<Rightarrow> 64 word" where
  "rsa_exponent eBytes = foldl (\<lambda>exponent c. push_bit 8 exponent OR of_nat (of_char c)) 0 eBytes"

definition decodeRSAPublicKey :: "key \<Rightarrow> decode_error + public_key" where
  "decodeRSAPublicKey k =
     (case decodeBase64URL ''rsa n'' (k_N k) of
        Inl err \<Rightarrow> Inl err
      | Inr nBytes \<Rightarrow>
          let n = SetBytes nBytes in
          if n \<le> 1 \<or> even n then Inl InvalidRSAModulus
          else
            (case decodeBase64URL ''rsa e'' (k_E k) of
               Inl err \<Rightarrow> Inl err
             | Inr eBytes \<Rightarrow>
                 if length eBytes > 8 then Inl RSAExponentOverflowsUint64
                 else
                   let exponent = rsa_exponent eBytes;
                       maxInt = drop_bit 1 (NOT (0 :: 64 word)) in
                   if exponent > maxInt then Inl RSAExponentOverflowsInt
                   else if exponent < 3 \<or> exponent mod 2 = 0 then Inl InvalidRSAExponent
                   else Inr (RSAPublicKey n (sint exponent))))"

text \<open>The P-256 check of \<open>ecdh.P256().NewPublicKey\<close> on an uncompressed point: both
  coordinates are field elements and satisfy the curve equation.\<close>

definition p256_p :: int where "p256_p = 2 ^ 256 - 2 ^ 224 + 2 ^ 192 + 2 ^ 96 - 1"
definition p256_b :: int where
  "p256_b = 0x5ac635d8aa3a93e7b3ebbd55769886bc651d06b0cc53b0f63bce3c3e27d2604b"

definition p256_NewPublicKey :: "string \<Rightarrow> bool" where
  "p256_NewPublicKey encoded \<longleftrightarrow>
     length encoded = 65 \<and> hd encoded = CHR 0x04 \<and>
     (let x = int (SetBytes (take 32 (drop 1 encoded)));
          y = int (SetBytes (drop 33 encoded)) in
      x < p256_p \<and> y < p256_p \<and> (y * y) mod p256_p = (x * x * x - 3 * x + p256_b) mod p256_p)"

definition coordinateSize :: nat where "coordinateSize = (256 + 7) div 8"

definition decodeECDSAPublicKey :: "key \<Rightarrow> decode_error + public_key" where
  "decodeECDSAPublicKey k =
     (if k_Crv k \<noteq> CrvP256 then Inl (UnsupportedCurve (k_Crv k))
      else (case decodeBase64URL ''ec x'' (k_X k) of
              Inl err \<Rightarrow> Inl err
            | Inr xBytes \<Rightarrow>
                (case decodeBase64URL ''ec y'' (k_Y k) of
                   Inl err \<Rightarrow> Inl err
                 | Inr yBytes \<Rightarrow>
                     if length xBytes \<noteq> coordinateSize \<or> length yBytes \<noteq> coordinateSize
                     then Inl (InvalidP256Size (length xBytes) (length yBytes))
                     else
                       let encoded = CHR 0x04 # xBytes @ yBytes in
                       if \<not> p256_NewPublicKey encoded then Inl NotOnCurve
                       else Inr (ECDSAPublicKey (SetBytes xBytes) (SetBytes yBytes)))))"

definition DecodePublicKey :: "key \<Rightarrow> decode_error + public_key" where
  "DecodePublicKey k =
     (if k_Kty k = KtyOKP then decodeEd25519PublicKey k
      else if k_Kty k = KtyRSA then decodeRSAPublicKey k
      else if k_Kty k = KtyEC then decodeECDSAPublicKey k
      else Inl (UnsupportedKty (k_Kty k)))"

definition isRSAAlgorithm :: "jwt_algs \<Rightarrow> string \<Rightarrow> bool" where
  "isRSAAlgorithm A alg \<longleftrightarrow> alg \<in> set [RS256 A, RS384 A, RS512 A, PS256 A, PS384 A, PS512 A]"

text \<open>\<open>True\<close> stands for \<open>nil\<close>: the declared algorithm fits the key type.\<close>

definition validateDeclaredAlgorithm :: "jwt_algs \<Rightarrow> key \<Rightarrow> bool" where
  "validateDeclaredAlgorithm A k =
     (if k_Alg k = [] then True
      else if k_Kty k = KtyOKP then k_Crv k = CrvEd \<and> k_Alg k = EdDSA A
      else if k_Kty k = KtyRSA then isRSAAlgorithm A (k_Alg k)
      else if k_Kty k = KtyEC then k_Crv k = CrvP256 \<and> k_Alg k = ES256 A
      else False)"

datatype set_error =
    NoKeys | KeyWithoutKid | DuplicateKid string | UnsupportedUse string string
  | IncompatibleAlgorithm string string string | DecodeFailed string decode_error

type_synonym key_map = "string \<rightharpoonup> decoded_key"

definition decodeItem :: "jwt_algs \<Rightarrow> key_map \<Rightarrow> key \<Rightarrow> set_error + key_map" where
  "decodeItem A keys item =
     (if TrimSpace (k_Kid item) = [] then Inl KeyWithoutKid
      else if keys (k_Kid item) \<noteq> None then Inl (DuplicateKid (k_Kid item))
      else if k_Use item \<noteq> [] \<and> k_Use item \<noteq> UseSig
      then Inl (UnsupportedUse (k_Kid item) (k_Use item))
      else if \<not> validateDeclaredAlgorithm A item
      then Inl (IncompatibleAlgorithm (k_Kid item) (k_Alg item) (k_Kty item))
      else (case DecodePublicKey item of
              Inl err \<Rightarrow> Inl (DecodeFailed (k_Kid item) err)
            | Inr publicKey \<Rightarrow>
                Inr (keys(k_Kid item \<mapsto>
                  \<lparr>dk_publicKey = publicKey, dk_declaredAlg = k_Alg item\<rparr>))))"

fun decodeItems :: "jwt_algs \<Rightarrow> key_map \<Rightarrow> key list \<Rightarrow> set_error + key_map" where
  "decodeItems A keys [] = Inr keys"
| "decodeItems A keys (item # items) =
     (case decodeItem A keys item of Inl err \<Rightarrow> Inl err | Inr keys' \<Rightarrow> decodeItems A keys' items)"

definition decodeSet :: "jwt_algs \<Rightarrow> key list \<Rightarrow> set_error + key_map" where
  "decodeSet A set_Keys =
     (if length set_Keys = 0 then Inl NoKeys else decodeItems A Map.empty set_Keys)"

subsection \<open>What decoding guarantees\<close>

lemma SetBytes_snoc: "SetBytes (s @ [c]) = SetBytes s * 256 + of_char c"
  by (simp add: SetBytes_def)

lemma SetBytes_bound: "SetBytes s < 256 ^ length s"
proof (induction s rule: rev_induct)
  case (snoc c s)
  have "SetBytes s * 256 + of_char c < 256 * 256 ^ length s"
    using snoc nat_of_char_less_256[of c] by linarith
  then show ?case by (simp add: SetBytes_snoc)
qed (simp add: SetBytes_def)

text \<open>With at most eight bytes nothing is shifted out of the 64-bit exponent.\<close>

lemma rsa_exponent_step:
  fixes x :: "64 word"
  assumes "unat x < 2 ^ 56" "n < 256"
  shows "unat (push_bit 8 x OR of_nat n) = unat x * 256 + n"
proof -
  have "push_bit 8 x AND (of_nat n :: 64 word) = 0"
  proof (rule bit_word_eqI)
    fix i assume i: "i < LENGTH(64)"
    have "\<not> bit n i" if "8 \<le> i"
    proof -
      have "(2::nat) ^ 8 \<le> 2 ^ i" using that by (rule power_increasing) simp
      with assms(2) have "n div 2 ^ i = 0" by simp
      then show ?thesis by (simp add: bit_iff_odd)
    qed
    then show "bit (push_bit 8 x AND (of_nat n :: 64 word)) i \<longleftrightarrow> bit (0 :: 64 word) i"
      using i by (auto simp: bit_simps)
  qed
  then have "push_bit 8 x OR of_nat n = push_bit 8 x + (of_nat n :: 64 word)"
    by (simp add: disjunctive_add_eq_or)
  also have "unat \<dots> = unat x * 256 + n"
    using assms by (simp add: push_bit_eq_mult unat_word_ariths unat_of_nat)
  finally show ?thesis .
qed

lemma rsa_exponent_value: "length s \<le> 8 \<Longrightarrow> unat (rsa_exponent s) = SetBytes s"
proof (induction s rule: rev_induct)
  case (snoc c s)
  have "SetBytes s < 256 ^ length s" by (rule SetBytes_bound)
  also have "(256::nat) ^ length s \<le> 256 ^ 7" by (rule power_increasing) (use snoc in auto)
  finally have "unat (rsa_exponent s) < 2 ^ 56" using snoc by simp
  then show ?case
    using snoc rsa_exponent_step[of "rsa_exponent s" "of_char c"]
    by (simp add: SetBytes_snoc rsa_exponent_def)
qed (simp add: rsa_exponent_def SetBytes_def)

text \<open>The public keys the decoder lets through.\<close>

definition public_key_ok :: "public_key \<Rightarrow> bool" where
  "public_key_ok pk =
     (case pk of
        Ed25519PublicKey raw \<Rightarrow> length raw = 32
      | RSAPublicKey n e \<Rightarrow> 1 < n \<and> odd n \<and> 3 \<le> e \<and> odd e \<and> e \<le> max_int64
      | ECDSAPublicKey x y \<Rightarrow>
          int x < p256_p \<and> int y < p256_p \<and>
          (int y * int y) mod p256_p = (int x * int x * int x - 3 * int x + p256_b) mod p256_p)"

lemma max_uint_half: "drop_bit 1 (NOT (0 :: 64 word)) = 0x7FFFFFFFFFFFFFFF"
  by (simp add: drop_bit_eq_div)

lemma decodeRSAPublicKey_ok:
  assumes "decodeRSAPublicKey k = Inr pk"
  shows "public_key_ok pk \<and>
    (\<exists>nBytes eBytes. RawURL_DecodeString (k_N k) = Some nBytes \<and>
       RawURL_DecodeString (k_E k) = Some eBytes \<and>
       pk = RSAPublicKey (SetBytes nBytes) (int (SetBytes eBytes)))"
proof -
  from assms obtain nb eb where
    nb: "RawURL_DecodeString (k_N k) = Some nb" "1 < SetBytes nb" "odd (SetBytes nb)" and
    eb: "RawURL_DecodeString (k_E k) = Some eb" "length eb \<le> 8" and
    ex: "rsa_exponent eb \<le> 0x7FFFFFFFFFFFFFFF" "3 \<le> rsa_exponent eb"
        "rsa_exponent eb mod 2 \<noteq> 0" and
    pk: "pk = RSAPublicKey (SetBytes nb) (sint (rsa_exponent eb))"
    unfolding decodeRSAPublicKey_def decodeBase64URL_def max_uint_half Let_def
    by (auto split: if_splits sum.splits option.splits simp: not_less not_le)
  have val: "unat (rsa_exponent eb) = SetBytes eb" by (rule rsa_exponent_value[OF eb(2)])
  have le: "SetBytes eb \<le> 0x7FFFFFFFFFFFFFFF"
    using ex(1) unfolding word_le_nat_alt val by simp
  then have sint: "sint (rsa_exponent eb) = int (SetBytes eb)"
  proof -
    have "uint (rsa_exponent eb) = int (SetBytes eb)"
      using val by (metis uint_nat)
    then show ?thesis
      using le unfolding sint_uint by (subst signed_take_bit_int_eq_self) simp_all
  qed
  have three: "3 \<le> SetBytes eb"
    using ex(2) unfolding word_le_nat_alt val by simp
  have "odd (SetBytes eb)"
    using ex(3) unfolding word_unat_eq_iff unat_mod val by simp presburger
  with nb eb pk sint le three show ?thesis
    by (auto simp: public_key_ok_def max_int64_def)
qed

lemma DecodePublicKey_ok:
  assumes "DecodePublicKey k = Inr pk"
  shows "public_key_ok pk"
proof -
  consider "decodeEd25519PublicKey k = Inr pk" | "decodeRSAPublicKey k = Inr pk"
    | "decodeECDSAPublicKey k = Inr pk"
    using assms by (auto simp: DecodePublicKey_def split: if_splits)
  then show ?thesis
  proof cases
    case 1
    then show ?thesis
      by (auto simp: decodeEd25519PublicKey_def ed25519_PublicKeySize_def public_key_ok_def
          split: if_splits sum.splits)
  next
    case 2
    then show ?thesis by (rule decodeRSAPublicKey_ok[THEN conjunct1])
  next
    case 3
    then obtain x y where xy: "length x = 32" "length y = 32"
        "p256_NewPublicKey (CHR 0x04 # x @ y)" "pk = ECDSAPublicKey (SetBytes x) (SetBytes y)"
      by (auto simp: decodeECDSAPublicKey_def coordinateSize_def Let_def
          split: if_splits sum.splits)
    then show ?thesis by (simp add: public_key_ok_def p256_NewPublicKey_def Let_def)
  qed
qed

text \<open>A key of one kind never decodes into a public key of another.\<close>

definition kty_of :: "public_key \<Rightarrow> string" where
  "kty_of pk =
     (case pk of Ed25519PublicKey _ \<Rightarrow> KtyOKP | RSAPublicKey _ _ \<Rightarrow> KtyRSA | ECDSAPublicKey _ _ \<Rightarrow> KtyEC)"

lemmas kty_defs = KtyOKP_def KtyRSA_def KtyEC_def

lemma DecodePublicKey_kty:
  assumes "DecodePublicKey k = Inr pk"
  shows "kty_of pk = k_Kty k"
proof -
  have o: "kty_of pk = KtyOKP" if "decodeEd25519PublicKey k = Inr pk"
    using that by (auto simp: decodeEd25519PublicKey_def kty_of_def split: if_splits sum.splits)
  have r: "kty_of pk = KtyRSA" if "decodeRSAPublicKey k = Inr pk"
    using decodeRSAPublicKey_ok[OF that] by (auto simp: kty_of_def)
  have e: "kty_of pk = KtyEC" if "decodeECDSAPublicKey k = Inr pk"
    using that by (auto simp: decodeECDSAPublicKey_def kty_of_def Let_def
        split: if_splits sum.splits)
  from assms o r e show ?thesis by (auto simp: DecodePublicKey_def split: if_splits)
qed

text \<open>What one accepted member of a key set looks like, and the whole set.\<close>

definition item_ok :: "jwt_algs \<Rightarrow> key \<Rightarrow> bool" where
  "item_ok A k \<longleftrightarrow> TrimSpace (k_Kid k) \<noteq> [] \<and> k_Use k \<in> {[], UseSig} \<and>
     validateDeclaredAlgorithm A k \<and> is_ok (DecodePublicKey k)"

definition decoded_of :: "key \<Rightarrow> decoded_key" where
  "decoded_of k = \<lparr>dk_publicKey = (case DecodePublicKey k of Inr pk \<Rightarrow> pk
      | Inl _ \<Rightarrow> Ed25519PublicKey []), dk_declaredAlg = k_Alg k\<rparr>"

lemma decodeItem_Inr:
  "decodeItem A keys k = Inr keys' \<longleftrightarrow>
     item_ok A k \<and> keys (k_Kid k) = None \<and> keys' = keys(k_Kid k \<mapsto> decoded_of k)"
  by (auto simp: decodeItem_def item_ok_def decoded_of_def split: sum.splits)

text \<open>The map a list of keys decodes into.\<close>

definition decoded_map :: "key list \<Rightarrow> key_map" where
  "decoded_map items = map_of (map (\<lambda>k. (k_Kid k, decoded_of k)) items)"

lemma decoded_map_Nil [simp]: "decoded_map [] = Map.empty"
  by (simp add: decoded_map_def)

lemma dom_decoded_map: "dom (decoded_map items) = k_Kid ` set items"
  by (simp add: decoded_map_def dom_map_of_conv_image_fst image_image)

lemma map_add_decoded_Cons:
  "k_Kid k \<notin> k_Kid ` set items \<Longrightarrow>
     keys ++ decoded_map (k # items) = keys(k_Kid k \<mapsto> decoded_of k) ++ decoded_map items"
  using map_add_upd_left[of "k_Kid k" "decoded_map items" keys "decoded_of k"]
  unfolding dom_decoded_map by (simp add: decoded_map_def)

lemma decodeItems_Inr:
  "decodeItems A keys items = Inr keys' \<longleftrightarrow>
     list_all (item_ok A) items \<and> distinct (map k_Kid items) \<and>
     (\<forall>k\<in>set items. keys (k_Kid k) = None) \<and> keys' = keys ++ decoded_map items"
proof (induction items arbitrary: keys)
  case (Cons k items)
  show ?case
  proof (cases "item_ok A k \<and> keys (k_Kid k) = None")
    case True
    then have step: "decodeItem A keys k = Inr (keys(k_Kid k \<mapsto> decoded_of k))"
      by (simp add: decodeItem_Inr)
    have fresh: "(\<forall>j\<in>set items. (keys(k_Kid k \<mapsto> decoded_of k)) (k_Kid j) = None) \<longleftrightarrow>
        k_Kid k \<notin> k_Kid ` set items \<and> (\<forall>j\<in>set items. keys (k_Kid j) = None)"
      by (force simp: image_iff)
    show ?thesis
      unfolding decodeItems.simps step sum.case Cons fresh
      using True by (auto simp: map_add_decoded_Cons)
  next
    case False
    then have "\<nexists>m. decodeItem A keys k = Inr m" by (auto simp: decodeItem_Inr)
    then obtain err where "decodeItem A keys k = Inl err" by (cases "decodeItem A keys k") auto
    then show ?thesis using False by auto
  qed
qed auto

lemma decodeSet_Inr:
  "decodeSet A items = Inr keys \<longleftrightarrow>
     items \<noteq> [] \<and> list_all (item_ok A) items \<and> distinct (map k_Kid items) \<and>
     keys = decoded_map items"
  by (simp add: decodeSet_def decodeItems_Inr)

lemma decodeSet_lookup:
  assumes "decodeSet A items = Inr keys" "keys kid = Some d"
  obtains k where "k \<in> set items" "k_Kid k = kid" "item_ok A k" "d = decoded_of k"
proof -
  from assms have "(kid, d) \<in> set (map (\<lambda>k. (k_Kid k, decoded_of k)) items)"
    "list_all (item_ok A) items"
    by (auto simp: decodeSet_Inr decoded_map_def dest: map_of_SomeD)
  then show ?thesis using that by (auto simp: list_all_iff)
qed

text \<open>Algorithm confusion: a key that names an algorithm of one family is not decoded as a key of
  another, when the library's names for the families differ.\<close>

definition alg_fits :: "jwt_algs \<Rightarrow> string \<Rightarrow> public_key \<Rightarrow> bool" where
  "alg_fits A alg pk =
     (case pk of
        Ed25519PublicKey _ \<Rightarrow> alg = EdDSA A
      | RSAPublicKey _ _ \<Rightarrow> isRSAAlgorithm A alg
      | ECDSAPublicKey _ _ \<Rightarrow> alg = ES256 A)"

lemma item_ok_alg_fits:
  assumes "item_ok A k" "k_Alg k \<noteq> []"
  shows "alg_fits A (k_Alg k) (dk_publicKey (decoded_of k))"
proof -
  from assms obtain pk where pk: "DecodePublicKey k = Inr pk" and
    val: "validateDeclaredAlgorithm A k" by (auto simp: item_ok_def)
  have "KtyRSA \<noteq> KtyOKP" "KtyEC \<noteq> KtyOKP" "KtyEC \<noteq> KtyRSA" by (simp_all add: kty_defs)
  with DecodePublicKey_kty[OF pk, symmetric] val assms(2) show ?thesis
    by (cases pk) (auto simp: decoded_of_def pk alg_fits_def kty_of_def
        validateDeclaredAlgorithm_def)
qed

subsection \<open>Properties\<close>


text \<open>C20: a key that decodes is of the type its \<open>kty\<close> names and well formed: 32 bytes for Ed25519, an
  odd modulus above 1 with an odd exponent between 3 and the largest \<open>int\<close> for RSA, a point on the
  curve for EC.\<close>

theorem DecodePublicKey_sound:
  assumes "DecodePublicKey k = Inr pk"
  shows "public_key_ok pk \<and> kty_of pk = k_Kty k"
  using DecodePublicKey_ok[OF assms] DecodePublicKey_kty[OF assms] by blast

definition demo_rsa_key :: key where
  "demo_rsa_key = zero_key\<lparr>k_Kty := ''RSA'', k_Kid := ''r1'', k_N := ''AQAB'', k_E := ''AQAB''\<rparr>"

lemma demo_rsa_key_decodes:
  "decodeRSAPublicKey (demo_rsa_key\<lparr>k_Alg := alg\<rparr>) = Inr (RSAPublicKey 65537 65537)"
  "DecodePublicKey (demo_rsa_key\<lparr>k_Alg := alg\<rparr>) = Inr (RSAPublicKey 65537 65537)"
proof -
  have bytes: "RawURL_DecodeString ''AQAB'' = Some [CHR 0x01, CHR 0x00, CHR 0x01]" by code_simp
  have n: "SetBytes [CHR 0x01, CHR 0x00, CHR 0x01] = 65537" by (simp add: SetBytes_def)
  have e: "rsa_exponent [CHR 0x01, CHR 0x00, CHR 0x01] = 65537" by (simp add: rsa_exponent_def)
  show "decodeRSAPublicKey (demo_rsa_key\<lparr>k_Alg := alg\<rparr>) = Inr (RSAPublicKey 65537 65537)"
    unfolding decodeRSAPublicKey_def max_uint_half
    by (simp add: decodeBase64URL_def demo_rsa_key_def zero_key_def bytes n e word_less_nat_alt)
  then show "DecodePublicKey (demo_rsa_key\<lparr>k_Alg := alg\<rparr>) = Inr (RSAPublicKey 65537 65537)"
    by (simp add: DecodePublicKey_def demo_rsa_key_def kty_defs)
qed

theorem DecodePublicKey_sound_witness:
  "public_key_ok (RSAPublicKey 65537 65537) \<and> kty_of (RSAPublicKey 65537 65537) = ''RSA''"
  using DecodePublicKey_sound[OF demo_rsa_key_decodes(2)] by (simp add: demo_rsa_key_def)

text \<open>The 64-bit accumulation of an RSA exponent loses no bits: an accepted RSA key has exactly the
  big-endian numbers its \<open>n\<close> and \<open>e\<close> encode.\<close>

theorem decodeRSAPublicKey_exact:
  assumes "decodeRSAPublicKey k = Inr pk"
  shows "\<exists>nBytes eBytes. RawURL_DecodeString (k_N k) = Some nBytes \<and>
    RawURL_DecodeString (k_E k) = Some eBytes \<and> length eBytes \<le> 8 \<and>
    pk = RSAPublicKey (SetBytes nBytes) (int (SetBytes eBytes))"
proof -
  obtain nBytes eBytes where ne: "RawURL_DecodeString (k_N k) = Some nBytes"
    "RawURL_DecodeString (k_E k) = Some eBytes"
    "pk = RSAPublicKey (SetBytes nBytes) (int (SetBytes eBytes))"
    using decodeRSAPublicKey_ok[OF assms] by blast
  moreover have "length eBytes \<le> 8"
    using assms ne(2) by (auto simp: decodeRSAPublicKey_def decodeBase64URL_def Let_def
        split: if_splits sum.splits option.splits)
  ultimately show ?thesis by blast
qed

theorem decodeRSAPublicKey_exact_witness:
  "\<exists>nBytes eBytes. RawURL_DecodeString ''AQAB'' = Some nBytes \<and>
    RawURL_DecodeString ''AQAB'' = Some eBytes \<and> length eBytes \<le> 8 \<and>
    RSAPublicKey 65537 65537 = RSAPublicKey (SetBytes nBytes) (int (SetBytes eBytes))"
  using decodeRSAPublicKey_exact[OF demo_rsa_key_decodes(1)] by (simp add: demo_rsa_key_def)

end
