(* ===== verification/Jwk_Providers.thy ===== *)
theory Jwk_Providers
  imports Jwk_Keys Scope_Claims
begin

text \<open>
  \<open>jwk/static.go\<close> and \<open>jwk/ed25519.go\<close>: the contract of a \<open>KeyProvider\<close>, the provider over a fixed
  key set, and the Ed25519 signer whose public key such a provider publishes.

  A pointer receiver that the code tests against \<open>nil\<close> is an option. The file system and the
  PEM and PKCS#8 codecs of the standard library are the parameters \<open>pkcs\<close> and \<open>file_system\<close>;
  the JWT library's signing is the parameter \<open>jwt_sign\<close>.
\<close>

subsection \<open>The contract of a key provider\<close>

text \<open>What every entry of a decoded key set satisfies.\<close>

definition key_trusted :: "jwt_algs \<Rightarrow> decoded_key \<Rightarrow> bool" where
  "key_trusted A d \<longleftrightarrow> public_key_ok (dk_publicKey d) \<and>
     (dk_declaredAlg d \<noteq> [] \<longrightarrow> alg_fits A (dk_declaredAlg d) (dk_publicKey d))"

definition keys_trusted :: "jwt_algs \<Rightarrow> key_map \<Rightarrow> bool" where
  "keys_trusted A keys \<longleftrightarrow> (\<forall>d\<in>ran keys. key_trusted A d)"

lemma keys_trustedD: "keys_trusted A keys \<Longrightarrow> keys kid = Some d \<Longrightarrow> key_trusted A d"
  by (auto simp: keys_trusted_def ran_def)

lemma keys_trusted_empty [simp]: "keys_trusted A Map.empty"
  by (simp add: keys_trusted_def)

lemma item_ok_trusted: "item_ok A k \<Longrightarrow> key_trusted A (decoded_of k)"
  using item_ok_alg_fits[of A k] DecodePublicKey_ok[of k]
  by (auto simp: key_trusted_def item_ok_def decoded_of_def)

lemma decodeSet_trusted: "decodeSet A items = Inr keys \<Longrightarrow> keys_trusted A keys"
  by (auto simp: keys_trusted_def ran_def item_ok_trusted elim!: decodeSet_lookup)

lemma forAlgorithm_Inr:
  "forAlgorithm d kid alg = Inr pk \<longleftrightarrow>
     pk = dk_publicKey d \<and> (dk_declaredAlg d = [] \<or> alg = [] \<or> dk_declaredAlg d = alg)"
  by (auto simp: forAlgorithm_def)

text \<open>\<open>may_return p kid alg r\<close>: a call \<open>p.Key(ctx, kid, alg)\<close> can return \<open>r\<close>; \<open>serving p kid d\<close>:
  the provider has the entry \<open>d\<close> for \<open>kid\<close>. A provider in a good state has trusted entries only
  and hands out a key only from such an entry, checked against the requested algorithm.\<close>

locale key_provider =
  fixes A :: jwt_algs
    and inv :: "'p \<Rightarrow> bool"
    and serving :: "'p \<Rightarrow> string \<Rightarrow> decoded_key \<Rightarrow> bool"
    and may_return :: "'p \<Rightarrow> string \<Rightarrow> string \<Rightarrow> 'e key_error + public_key \<Rightarrow> bool"
  assumes serving_trusted: "inv p \<Longrightarrow> serving p kid d \<Longrightarrow> key_trusted A d"
    and served: "inv p \<Longrightarrow> may_return p kid alg (Inr pk) \<Longrightarrow>
      \<exists>d. serving p kid d \<and> forAlgorithm d kid alg = (Inr pk :: 'e key_error + public_key)"
begin

lemma served_ok: "inv p \<Longrightarrow> may_return p kid alg (Inr pk) \<Longrightarrow> public_key_ok pk"
  using served[of p kid alg pk] serving_trusted[of p kid]
  by (auto simp: forAlgorithm_Inr key_trusted_def)

text \<open>When the entries for the key id name their algorithm, a key is only ever handed out for the
  algorithm family it belongs to.\<close>

lemma served_alg:
  assumes "inv p" "may_return p kid alg (Inr pk)" "alg \<noteq> []"
    and "\<And>d. serving p kid d \<Longrightarrow> dk_declaredAlg d \<noteq> []"
  shows "alg_fits A alg pk"
  using served[OF assms(1,2)] serving_trusted[OF assms(1)] assms(3,4)
  by (fastforce simp: forAlgorithm_Inr key_trusted_def)

end

subsection \<open>static.go\<close>

record static_builder =
  sb_Keys :: "key list"

definition StaticBuilder_Key :: "static_builder option \<Rightarrow> key \<Rightarrow> static_builder option" where
  "StaticBuilder_Key b key = map_option (\<lambda>b. b\<lparr>sb_Keys := sb_Keys b @ [key]\<rparr>) b"

definition StaticBuilder_Keys :: "static_builder option \<Rightarrow> key list \<Rightarrow> static_builder option" where
  "StaticBuilder_Keys b keys = map_option (\<lambda>b. b\<lparr>sb_Keys := sb_Keys b @ keys\<rparr>) b"

definition StaticBuilder_Set :: "static_builder option \<Rightarrow> key list \<Rightarrow> static_builder option" where
  "StaticBuilder_Set b set_Keys = map_option (\<lambda>b. b\<lparr>sb_Keys := set_Keys\<rparr>) b"

definition Static :: "key list \<Rightarrow> static_builder option" where
  "Static keys = StaticBuilder_Keys (Some \<lparr>sb_Keys = []\<rparr>) keys"

datatype static_error = NilStaticBuilder | StaticNoKeys | StaticSet set_error

definition NewStaticProvider :: "jwt_algs \<Rightarrow> key list \<Rightarrow> static_error + key_map" where
  "NewStaticProvider A set_Keys =
     (case decodeSet A set_Keys of
        Inl err \<Rightarrow> if err = NoKeys then Inl StaticNoKeys else Inl (StaticSet err)
      | Inr keys \<Rightarrow> Inr keys)"

definition StaticBuilder_Build :: "jwt_algs \<Rightarrow> static_builder option \<Rightarrow> static_error + key_map" where
  "StaticBuilder_Build A b =
     (case b of None \<Rightarrow> Inl NilStaticBuilder | Some b \<Rightarrow> NewStaticProvider A (sb_Keys b))"

definition StaticBuilder_Must :: "jwt_algs \<Rightarrow> static_builder option \<Rightarrow> static_error panic + key_map" where
  "StaticBuilder_Must A b = must (StaticBuilder_Build A b)"

definition StaticProvider_Key ::
  "key_map \<Rightarrow> string \<Rightarrow> string \<Rightarrow> 'e key_error + public_key" where
  "StaticProvider_Key keys kid alg =
     (case keys kid of
        None \<Rightarrow> Inl (ErrKeyNotFound kid)
      | Some key \<Rightarrow> forAlgorithm key kid alg)"

lemma NewStaticProvider_Inr [simp]:
  "NewStaticProvider A set_Keys = Inr keys \<longleftrightarrow> decodeSet A set_Keys = Inr keys"
  by (auto simp: NewStaticProvider_def split: sum.splits)

interpretation static: key_provider A "keys_trusted A" "\<lambda>keys kid d. keys kid = Some d"
  "\<lambda>keys kid alg r. r = StaticProvider_Key keys kid alg" for A
proof
  show "key_trusted A d" if "keys_trusted A keys" "keys kid = Some d" for keys kid d
    using that by (rule keys_trustedD)
  show "\<exists>d. keys kid = Some d \<and> forAlgorithm d kid alg = (Inr pk :: 'a key_error + public_key)"
    if "(Inr pk :: 'a key_error + public_key) = StaticProvider_Key keys kid alg"
    for keys kid alg pk
    using that by (auto simp: StaticProvider_Key_def split: option.splits)
qed

subsection \<open>ed25519.go: the signer\<close>

definition defaultEd25519KID :: string where "defaultEd25519KID = ''orionis-ed25519-1''"

definition defaultKID :: "string \<Rightarrow> string" where
  "defaultKID kid = (if TrimSpace kid = [] then defaultEd25519KID else TrimSpace kid)"

record ed25519_signer =
  es_Kid :: string
  es_PrivateKey :: string

definition ed25519_PrivateKeySize :: nat where "ed25519_PrivateKeySize = 64"

text \<open>An Ed25519 private key is the seed followed by the public key.\<close>

definition PrivateKey_Public :: "string \<Rightarrow> string" where
  "PrivateKey_Public priv = drop 32 priv"

definition KeyID :: "ed25519_signer option \<Rightarrow> string" where
  "KeyID s = (case s of None \<Rightarrow> [] | Some s \<Rightarrow> es_Kid s)"

definition PublicJWK :: "jwt_algs \<Rightarrow> ed25519_signer option \<Rightarrow> key" where
  "PublicJWK A s =
     (case s of
        None \<Rightarrow> zero_key
      | Some s \<Rightarrow>
          if length (es_PrivateKey s) \<noteq> ed25519_PrivateKeySize then zero_key
          else NewEd25519Key A (es_Kid s) (PrivateKey_Public (es_PrivateKey s)))"

datatype 'e signer_error =
    NilSigner | InvalidSigner | NilEd25519Builder | EmptyPEM string | PKCS8 'e
  | UnexpectedKeyType string | OsError 'e | SignError 'e | SignerStatic static_error

definition signer_StaticProvider ::
  "jwt_algs \<Rightarrow> ed25519_signer option \<Rightarrow> 'e signer_error + key_map" where
  "signer_StaticProvider A s =
     (if s = None then Inl NilSigner
      else (case StaticBuilder_Build A (Static [PublicJWK A s]) of
              Inl err \<Rightarrow> Inl (SignerStatic err)
            | Inr keys \<Rightarrow> Inr keys))"

text \<open>\<open>jwt_sign alg kid claims key\<close>: the JWT library's \<open>SignedString\<close> on a token with this header.\<close>

definition Sign ::
  "(string \<Rightarrow> string \<Rightarrow> claims \<Rightarrow> string \<Rightarrow> 'e + string) \<Rightarrow> jwt_algs \<Rightarrow> ed25519_signer option \<Rightarrow>
     claims \<Rightarrow> 'e signer_error + string" where
  "Sign jwt_sign A s claims =
     (case s of
        None \<Rightarrow> Inl InvalidSigner
      | Some s \<Rightarrow>
          if length (es_PrivateKey s) \<noteq> ed25519_PrivateKeySize then Inl InvalidSigner
          else (case jwt_sign (EdDSA A) (es_Kid s) claims (es_PrivateKey s) of
                  Inl err \<Rightarrow> Inl (SignError err)
                | Inr token \<Rightarrow> Inr token))"


text \<open>The public key document of a signer, served back by a static provider.\<close>

lemma published_key:
  assumes "length (es_PrivateKey s) = 64" "TrimSpace (es_Kid s) \<noteq> []"
  shows "item_ok A (PublicJWK A (Some s))" "k_Kid (PublicJWK A (Some s)) = TrimSpace (es_Kid s)"
    "decoded_of (PublicJWK A (Some s)) =
       \<lparr>dk_publicKey = Ed25519PublicKey (drop 32 (es_PrivateKey s)), dk_declaredAlg = EdDSA A\<rparr>"
proof -
  let ?pub = "drop 32 (es_PrivateKey s)"
  let ?k = "NewEd25519Key A (es_Kid s) ?pub"
  have k: "PublicJWK A (Some s) = ?k"
    using assms(1) by (simp add: PublicJWK_def ed25519_PrivateKeySize_def PrivateKey_Public_def)
  have "RawURL_EncodeToString ?pub \<noteq> []"
    using assms(1) by (auto simp: RawURL_EncodeToString_eq_Nil)
  then have pk: "DecodePublicKey ?k = Inr (Ed25519PublicKey ?pub)"
    using assms(1)
    by (auto simp: DecodePublicKey_def NewEd25519Key_def zero_key_def decodeEd25519PublicKey_def
        decodeBase64URL_def ed25519_PublicKeySize_def RawURL_roundtrip)
  show "k_Kid (PublicJWK A (Some s)) = TrimSpace (es_Kid s)" by (simp add: k NewEd25519Key_def)
  show "item_ok A (PublicJWK A (Some s))"
    unfolding k using assms(2) pk by (simp add: item_ok_def validateDeclaredAlgorithm_def NewEd25519Key_def)
  show "decoded_of (PublicJWK A (Some s)) =
      \<lparr>dk_publicKey = Ed25519PublicKey ?pub, dk_declaredAlg = EdDSA A\<rparr>"
    unfolding k by (simp add: decoded_of_def pk) (simp add: NewEd25519Key_def)
qed

lemma signer_StaticProvider_lookup:
  assumes "length (es_PrivateKey s) = 64" "TrimSpace (es_Kid s) = es_Kid s" "es_Kid s \<noteq> []"
  shows "\<exists>keys. signer_StaticProvider A (Some s) = Inr keys \<and>
    keys = [es_Kid s \<mapsto> \<lparr>dk_publicKey = Ed25519PublicKey (drop 32 (es_PrivateKey s)),
                      dk_declaredAlg = EdDSA A\<rparr>]"
proof -
  let ?k = "PublicJWK A (Some s)"
  note key = published_key[of s A, unfolded assms(2), OF assms(1,3)]
  have "decodeSet A [?k] = Inr (decoded_map [?k])" using key(1) by (simp add: decodeSet_Inr)
  then show ?thesis
    by (simp add: signer_StaticProvider_def StaticBuilder_Build_def Static_def StaticBuilder_Keys_def
        NewStaticProvider_def decoded_map_def key)
qed

subsection \<open>ed25519.go: creating and loading a signer\<close>

text \<open>What \<open>x509.ParsePKCS8PrivateKey\<close> returns: an Ed25519 key or a key of another type.\<close>

datatype parsed_key = Ed25519PrivateKey string | OtherKey string

record 'e pkcs =
  pem_Decode :: "string \<Rightarrow> string option"
  pem_EncodeToMemory :: "string \<Rightarrow> string"
  MarshalPKCS8PrivateKey :: "string \<Rightarrow> 'e + string"
  ParsePKCS8PrivateKey :: "string \<Rightarrow> 'e + parsed_key"

datatype 'e read_result = ReadOK string | ReadNotExist | ReadError 'e

text \<open>The system calls of the loader: \<open>os.ReadFile\<close>, \<open>os.MkdirAll(filepath.Dir(path))\<close> and
  \<open>os.WriteFile\<close>, on a state of the file system.\<close>

record ('f, 'e) file_system =
  ReadFile :: "'f \<Rightarrow> string \<Rightarrow> 'e read_result"
  MkdirAllDir :: "'f \<Rightarrow> string \<Rightarrow> 'e option \<times> 'f"
  WriteFile :: "'f \<Rightarrow> string \<Rightarrow> string \<Rightarrow> 'e option \<times> 'f"

text \<open>\<open>generated\<close> is what \<open>ed25519.GenerateKey(rand.Reader)\<close> returns.\<close>

definition GenerateEd25519Signer :: "'e + string \<Rightarrow> string \<Rightarrow> 'e signer_error + ed25519_signer" where
  "GenerateEd25519Signer generated kid =
     (case generated of
        Inl err \<Rightarrow> Inl (OsError err)
      | Inr privateKey \<Rightarrow> Inr \<lparr>es_Kid = defaultKID kid, es_PrivateKey = privateKey\<rparr>)"

definition ed25519SignerFromPKCS8 ::
  "'e pkcs \<Rightarrow> string \<Rightarrow> string \<Rightarrow> 'e signer_error + ed25519_signer" where
  "ed25519SignerFromPKCS8 codec der kid =
     (case ParsePKCS8PrivateKey codec der of
        Inl err \<Rightarrow> Inl (PKCS8 err)
      | Inr (OtherKey ty) \<Rightarrow> Inl (UnexpectedKeyType ty)
      | Inr (Ed25519PrivateKey privateKey) \<Rightarrow>
          Inr \<lparr>es_Kid = TrimSpace kid, es_PrivateKey = privateKey\<rparr>)"

definition LoadEd25519SignerPEM ::
  "'e pkcs \<Rightarrow> string \<Rightarrow> string \<Rightarrow> 'e signer_error + ed25519_signer" where
  "LoadEd25519SignerPEM codec raw kid =
     (case pem_Decode codec raw of
        None \<Rightarrow> Inl (EmptyPEM [])
      | Some der \<Rightarrow> ed25519SignerFromPKCS8 codec der (defaultKID kid))"

definition LoadOrCreateEd25519Signer ::
  "'e pkcs \<Rightarrow> ('f, 'e) file_system \<Rightarrow> 'e + string \<Rightarrow> 'f \<Rightarrow> string \<Rightarrow> string \<Rightarrow>
     ('e signer_error + ed25519_signer) \<times> 'f" where
  "LoadOrCreateEd25519Signer codec os generated files path kid =
     (let kid = defaultKID kid; path = TrimSpace path in
      if path = [] then (GenerateEd25519Signer generated kid, files)
      else
        (case ReadFile os files path of
           ReadOK raw \<Rightarrow>
             (case pem_Decode codec raw of
                None \<Rightarrow> Inl (EmptyPEM path)
              | Some der \<Rightarrow> ed25519SignerFromPKCS8 codec der kid, files)
         | ReadError err \<Rightarrow> (Inl (OsError err), files)
         | ReadNotExist \<Rightarrow>
             (case GenerateEd25519Signer generated kid of
                Inl err \<Rightarrow> (Inl err, files)
              | Inr signer \<Rightarrow>
                  (case MarshalPKCS8PrivateKey codec (es_PrivateKey signer) of
                     Inl err \<Rightarrow> (Inl (PKCS8 err), files)
                   | Inr der \<Rightarrow>
                       (case MkdirAllDir os files path of
                          (Some err, files) \<Rightarrow> (Inl (OsError err), files)
                        | (None, files) \<Rightarrow>
                            (case WriteFile os files path (pem_EncodeToMemory codec der) of
                               (Some err, files) \<Rightarrow> (Inl (OsError err), files)
                             | (None, files) \<Rightarrow> (Inr signer, files)))))))"

record ed25519_builder =
  eb_kid :: string
  eb_path :: string

definition Ed25519 :: "ed25519_builder option" where
  "Ed25519 = Some \<lparr>eb_kid = defaultEd25519KID, eb_path = []\<rparr>"

definition Ed25519Builder_KID :: "ed25519_builder option \<Rightarrow> string \<Rightarrow> ed25519_builder option" where
  "Ed25519Builder_KID b kid =
     map_option (\<lambda>b. if TrimSpace kid \<noteq> [] then b\<lparr>eb_kid := TrimSpace kid\<rparr> else b) b"

definition Ed25519Builder_Path :: "ed25519_builder option \<Rightarrow> string \<Rightarrow> ed25519_builder option" where
  "Ed25519Builder_Path b path = map_option (\<lambda>b. b\<lparr>eb_path := TrimSpace path\<rparr>) b"

definition Ed25519Builder_Build ::
  "'e pkcs \<Rightarrow> ('f, 'e) file_system \<Rightarrow> 'e + string \<Rightarrow> 'f \<Rightarrow> ed25519_builder option \<Rightarrow>
     ('e signer_error + ed25519_signer) \<times> 'f" where
  "Ed25519Builder_Build codec os generated files b =
     (case b of
        None \<Rightarrow> (Inl NilEd25519Builder, files)
      | Some b \<Rightarrow> LoadOrCreateEd25519Signer codec os generated files (eb_path b) (eb_kid b))"

definition Ed25519Builder_Must ::
  "'e pkcs \<Rightarrow> ('f, 'e) file_system \<Rightarrow> 'e + string \<Rightarrow> 'f \<Rightarrow> ed25519_builder option \<Rightarrow>
     ('e signer_error panic + ed25519_signer) \<times> 'f" where
  "Ed25519Builder_Must codec os generated files b =
     (let (r, files) = Ed25519Builder_Build codec os generated files b in (must r, files))"

text \<open>The documented behaviour of the standard library the loader relies on: a file that was
  written reads back, and PEM and PKCS#8 encoding are inverted by their decoders.\<close>

definition pkcs_laws :: "'e pkcs \<Rightarrow> bool" where
  "pkcs_laws codec \<longleftrightarrow> (\<forall>der. pem_Decode codec (pem_EncodeToMemory codec der) = Some der) \<and>
     (\<forall>key der. MarshalPKCS8PrivateKey codec key = Inr der \<longrightarrow>
        ParsePKCS8PrivateKey codec der = Inr (Ed25519PrivateKey key))"

definition file_system_laws :: "('f, 'e) file_system \<Rightarrow> bool" where
  "file_system_laws os \<longleftrightarrow> (\<forall>files path content files'.
     WriteFile os files path content = (None, files') \<longrightarrow> ReadFile os files' path = ReadOK content)"

lemma defaultEd25519KID_trim: "TrimSpace defaultEd25519KID = defaultEd25519KID"
  by (intro TrimSpace_space_free graphic_space_free) (simp add: defaultEd25519KID_def)

lemma defaultKID_trim [simp]: "TrimSpace (defaultKID kid) = defaultKID kid"
  by (simp add: defaultKID_def defaultEd25519KID_trim)

lemma defaultKID_nonempty [simp]: "defaultKID kid \<noteq> []"
  by (simp add: defaultKID_def defaultEd25519KID_def)

lemma defaultKID_idem [simp]: "defaultKID (defaultKID kid) = defaultKID kid"
  by (simp add: defaultKID_def[of "defaultKID kid"])

text \<open>A signer that the code builds has a trimmed, non-empty key id.\<close>

lemma LoadOrCreate_kid:
  assumes "LoadOrCreateEd25519Signer codec os generated files path kid = (Inr s, files')"
  shows "es_Kid s = defaultKID kid"
  using assms
  by (auto simp: LoadOrCreateEd25519Signer_def GenerateEd25519Signer_def ed25519SignerFromPKCS8_def
      Let_def split: if_splits read_result.splits sum.splits option.splits prod.splits
      parsed_key.splits)

lemma LoadOrCreate_persists:
  assumes laws: "pkcs_laws codec" "file_system_laws os" and path: "TrimSpace path \<noteq> []"
    and created: "LoadOrCreateEd25519Signer codec os generated files path kid = (Inr s, files')"
    and fresh: "ReadFile os files (TrimSpace path) = ReadNotExist"
  shows "LoadOrCreateEd25519Signer codec os generated' files' path kid = (Inr s, files')"
proof -
  from created path fresh obtain priv der files1 where
    s: "s = \<lparr>es_Kid = defaultKID kid, es_PrivateKey = priv\<rparr>" and
    der: "MarshalPKCS8PrivateKey codec priv = Inr der" and
    w: "WriteFile os files1 (TrimSpace path) (pem_EncodeToMemory codec der) = (None, files')"
    by (auto simp: LoadOrCreateEd25519Signer_def GenerateEd25519Signer_def Let_def
        split: sum.splits prod.splits option.splits)
  from w laws(2) have "ReadFile os files' (TrimSpace path) = ReadOK (pem_EncodeToMemory codec der)"
    unfolding file_system_laws_def by blast
  with laws(1) der path s show ?thesis
    by (simp add: LoadOrCreateEd25519Signer_def ed25519SignerFromPKCS8_def pkcs_laws_def)
qed

subsection \<open>Properties\<close>

text \<open>No algorithm confusion: a static provider hands out a key for an algorithm only when the
  decoded entry allows it, so an entry that names its algorithm is only ever used with the algorithm
  family its key belongs to.\<close>

theorem static_provider_alg_safe:
  assumes "decodeSet A items = Inr keys" "keys kid = Some d" "dk_declaredAlg d \<noteq> []" "alg \<noteq> []"
    and "StaticProvider_Key keys kid alg = (Inr pk :: 'e key_error + public_key)"
  shows "alg_fits A alg pk \<and> public_key_ok pk"
proof -
  have inv: "keys_trusted A keys" by (rule decodeSet_trusted[OF assms(1)])
  show ?thesis
    using static.served_alg[OF inv assms(5)[symmetric] assms(4)] assms(2,3)
      static.served_ok[OF inv assms(5)[symmetric]] by auto
qed

definition demo_algs :: jwt_algs where
  "demo_algs = \<lparr>EdDSA = ''EdDSA'', RS256 = ''RS256'', RS384 = ''RS384'', RS512 = ''RS512'',
     PS256 = ''PS256'', PS384 = ''PS384'', PS512 = ''PS512'', ES256 = ''ES256''\<rparr>"

definition demo_items :: "key list" where
  "demo_items = [demo_rsa_key\<lparr>k_Alg := ''RS256''\<rparr>]"

lemma demo_decodeSet: "decodeSet demo_algs demo_items = Inr (decoded_map demo_items)"
proof -
  have "TrimSpace ''r1'' = ''r1''"
    "validateDeclaredAlgorithm demo_algs (demo_rsa_key\<lparr>k_Alg := ''RS256''\<rparr>)"
    by code_simp+
  then have "list_all (item_ok demo_algs) demo_items"
    using demo_rsa_key_decodes(2)[of "''RS256''"]
    by (simp add: demo_items_def item_ok_def) (simp add: demo_rsa_key_def zero_key_def)
  then show ?thesis by (simp add: decodeSet_Inr demo_items_def)
qed

lemma demo_decoded:
  "decoded_map demo_items ''r1'' =
     Some \<lparr>dk_publicKey = RSAPublicKey 65537 65537, dk_declaredAlg = ''RS256''\<rparr>"
  by (simp add: decoded_map_def demo_items_def decoded_of_def demo_rsa_key_decodes(2))
    (simp add: demo_rsa_key_def)

theorem static_provider_alg_safe_witness:
  "alg_fits demo_algs ''RS256'' (RSAPublicKey 65537 65537) \<and> public_key_ok (RSAPublicKey 65537 65537)"
  by (rule static_provider_alg_safe[OF demo_decodeSet demo_decoded])
    (simp_all add: StaticProvider_Key_def demo_decoded forAlgorithm_def)

text \<open>A signer publishes its own key: the static provider over its JWK serves, under its key id and
  its algorithm, the public half of its private key.\<close>

theorem signer_publishes_its_key:
  assumes "length (es_PrivateKey s) = 64" "TrimSpace (es_Kid s) = es_Kid s" "es_Kid s \<noteq> []"
  shows "\<exists>keys. signer_StaticProvider A (Some s) = (Inr keys :: 'e signer_error + key_map) \<and>
    StaticProvider_Key keys (KeyID (Some s)) (EdDSA A) =
      (Inr (Ed25519PublicKey (PrivateKey_Public (es_PrivateKey s))) :: 'k key_error + public_key)"
  using signer_StaticProvider_lookup[OF assms, of A]
  by (auto simp: StaticProvider_Key_def forAlgorithm_def KeyID_def PrivateKey_Public_def)

theorem signer_publishes_its_key_witness:
  "\<exists>keys. signer_StaticProvider demo_algs
      (Some \<lparr>es_Kid = ''k1'', es_PrivateKey = replicate 64 CHR ''a''\<rparr>) =
        (Inr keys :: unit signer_error + key_map) \<and>
    StaticProvider_Key keys ''k1'' ''EdDSA'' =
      (Inr (Ed25519PublicKey (replicate 32 CHR ''a'')) :: unit key_error + public_key)"
proof -
  have "TrimSpace ''k1'' = ''k1''" by code_simp
  then show ?thesis
    using signer_publishes_its_key[of "\<lparr>es_Kid = ''k1'', es_PrivateKey = replicate 64 CHR ''a''\<rparr>" demo_algs]
    by (simp add: KeyID_def PrivateKey_Public_def demo_algs_def)
qed

text \<open>C35: a signer created under a path is found there again: given the documented behaviour of the
  file system and of the codecs, loading the path later returns the same key under the same id and
  writes nothing.\<close>

theorem created_signer_persists:
  assumes "pkcs_laws codec" "file_system_laws os" "TrimSpace path \<noteq> []"
    and "ReadFile os files (TrimSpace path) = ReadNotExist"
    and "LoadOrCreateEd25519Signer codec os generated files path kid = (Inr s, files')"
  shows "LoadOrCreateEd25519Signer codec os generated' files' path kid = (Inr s, files')"
  using assms(1,2,3,5,4) by (rule LoadOrCreate_persists)

definition demo_codec :: "unit pkcs" where
  "demo_codec = \<lparr>pem_Decode = Some, pem_EncodeToMemory = id, MarshalPKCS8PrivateKey = Inr,
     ParsePKCS8PrivateKey = (\<lambda>der. Inr (Ed25519PrivateKey der))\<rparr>"

definition demo_os :: "(string \<rightharpoonup> string, unit) file_system" where
  "demo_os = \<lparr>ReadFile = (\<lambda>files p. case files p of None \<Rightarrow> ReadNotExist | Some raw \<Rightarrow> ReadOK raw),
     MkdirAllDir = (\<lambda>files p. (None, files)), WriteFile = (\<lambda>files p raw. (None, files(p \<mapsto> raw)))\<rparr>"

theorem created_signer_persists_witness:
  "LoadOrCreateEd25519Signer demo_codec demo_os (Inl ()) [''key.pem'' \<mapsto> ''secret''] ''key.pem'' ''k1'' =
     (Inr \<lparr>es_Kid = ''k1'', es_PrivateKey = ''secret''\<rparr>, [''key.pem'' \<mapsto> ''secret''])"
proof (rule created_signer_persists)
  have t: "TrimSpace ''k1'' = ''k1''" "TrimSpace ''key.pem'' = ''key.pem''" by code_simp+
  show "pkcs_laws demo_codec" by (simp add: pkcs_laws_def demo_codec_def)
  show "file_system_laws demo_os" by (auto simp: file_system_laws_def demo_os_def)
  show "TrimSpace ''key.pem'' \<noteq> []" by (simp add: t)
  show "ReadFile demo_os Map.empty (TrimSpace ''key.pem'') = ReadNotExist" by (simp add: demo_os_def)
  show "LoadOrCreateEd25519Signer demo_codec demo_os (Inr ''secret'') Map.empty ''key.pem'' ''k1'' =
     (Inr \<lparr>es_Kid = ''k1'', es_PrivateKey = ''secret''\<rparr>, [''key.pem'' \<mapsto> ''secret''])"
    by (simp add: LoadOrCreateEd25519Signer_def GenerateEd25519Signer_def demo_os_def demo_codec_def
        defaultKID_def t)
qed

end
