(* ===== verification/Token_Service.thy ===== *)
theory Token_Service
  imports Server_Store Go_Float Jwk_Providers
begin

text \<open>
  \<open>server/token_service.go\<close>, \<open>server/util.go\<close> and \<open>server/signer.go\<close>: issuing an access token for a
  client-credentials request.

  Parameters: the hash \<open>sha256\<close>, the JWT library's \<open>numeric_date\<close>, the store's \<open>FindClient\<close>. The
  readings of the environment are arguments: \<open>now\<close> is what the clock shows, \<open>random\<close> what
  \<open>rand.Read\<close> delivers (an error or sixteen bytes).
\<close>

record token_request =
  rq_grantType :: string
  rq_clientID :: string
  rq_clientSecret :: string
  rq_audience :: string
  rq_scopes :: "string list"

text \<open>The \<open>Signer\<close> interface, its methods as fields.\<close>

record 'e signer =
  sg_KeyID :: string
  sg_Algorithm :: string
  sg_Sign :: "claims \<Rightarrow> 'e + string"
  sg_PublicJWK :: key

record ('s, 'e) token_service =
  ts_issuer :: string
  ts_store :: 's
  ts_signer :: "'e signer"
  ts_accessTokenTTL :: duration

datatype 'e issue_error =
    OAuthError (oe_status: nat) (oe_code: string) (oe_description: string)
  | AuthenticateError "'e store_error"
  | RandomError 'e
  | SigningError 'e

definition newOAuthError :: "nat \<Rightarrow> string \<Rightarrow> string \<Rightarrow> 'e issue_error" where
  "newOAuthError status code description = OAuthError status code description"

definition StatusOK :: nat where "StatusOK = 200"
definition StatusBadRequest :: nat where "StatusBadRequest = 400"
definition StatusUnauthorized :: nat where "StatusUnauthorized = 401"
definition StatusForbidden :: nat where "StatusForbidden = 403"
definition StatusInternalServerError :: nat where "StatusInternalServerError = 500"

definition randomID :: "'e + string \<Rightarrow> 'e + string" where
  "randomID random =
     (case random of Inl err \<Rightarrow> Inl err | Inr bytes \<Rightarrow> Inr (RawURL_EncodeToString bytes))"

definition authenticate ::
  "(string \<Rightarrow> string) \<Rightarrow> ('s \<Rightarrow> string \<Rightarrow> 'e store_error + client) \<Rightarrow> 's \<Rightarrow> string \<Rightarrow> string \<Rightarrow>
     'e store_error + client" where
  "authenticate sha256 find_client store cid secret =
     (if cid = [] \<or> secret = [] then Inl ErrUnauthorized
      else (case find_client store cid of
              Inl err \<Rightarrow> Inl err
            | Inr c \<Rightarrow>
                if c_Disabled c \<or> \<not> VerifySecret sha256 c secret then Inl ErrUnauthorized
                else Inr (client_Normalize c)))"

definition new_claims ::
  "(time \<Rightarrow> time) \<Rightarrow> ('s, 'e) token_service \<Rightarrow> time \<Rightarrow> string \<Rightarrow> client \<Rightarrow> string \<Rightarrow> string list \<Rightarrow> claims" where
  "new_claims numeric_date s now jti c audience scopes =
     \<lparr>cl_Issuer = ts_issuer s, cl_Subject = c_ID c, cl_Audience = [audience],
      cl_ExpiresAt = Some (numeric_date (time_add now (ts_accessTokenTTL s))),
      cl_NotBefore = Some (numeric_date now), cl_IssuedAt = Some (numeric_date now),
      cl_ID = jti, cl_ClientID = c_ID c, cl_Scope = ScopeString scopes,
      cl_TokenUse = TokenUseAccess\<rparr>"

definition issueAccessToken ::
  "(time \<Rightarrow> time) \<Rightarrow> ('s, 'e) token_service \<Rightarrow> time \<Rightarrow> 'e + string \<Rightarrow> client \<Rightarrow> string \<Rightarrow> string list \<Rightarrow>
     'e issue_error + token_response" where
  "issueAccessToken numeric_date s now random c audience scopes =
     (case randomID random of
        Inl err \<Rightarrow> Inl (RandomError err)
      | Inr jti \<Rightarrow>
          let claims = new_claims numeric_date s now jti c audience scopes in
          (case sg_Sign (ts_signer s) claims of
             Inl err \<Rightarrow> Inl (SigningError err)
           | Inr token \<Rightarrow>
               Inr \<lparr>tr_AccessToken = token, tr_TokenType = TokenTypeBearer,
                 tr_ExpiresIn = to_int64 (Seconds (ts_accessTokenTTL s)),
                 tr_Scope = cl_Scope claims\<rparr>))"

definition issue ::
  "(string \<Rightarrow> string) \<Rightarrow> (time \<Rightarrow> time) \<Rightarrow> ('s \<Rightarrow> string \<Rightarrow> 'e store_error + client) \<Rightarrow>
     ('s, 'e) token_service \<Rightarrow> time \<Rightarrow> 'e + string \<Rightarrow> token_request \<Rightarrow>
     'e issue_error + token_response" where
  "issue sha256 numeric_date find_client s now random request =
     (if rq_grantType request \<noteq> ''client_credentials''
      then Inl (newOAuthError StatusBadRequest ''unsupported_grant_type''
                  ''grant_type must be client_credentials'')
      else
        (case authenticate sha256 find_client (ts_store s) (rq_clientID request) (rq_clientSecret request) of
           Inl err \<Rightarrow>
             if err = ErrUnauthorized \<or> err = ErrClientNotFound
             then Inl (newOAuthError StatusUnauthorized ''invalid_client''
                         ''invalid client credentials'')
             else Inl (AuthenticateError err)
         | Inr c \<Rightarrow>
             if rq_audience request = []
             then Inl (newOAuthError StatusBadRequest ''invalid_request'' ''audience is required'')
             else if \<not> srv_contains (c_AllowedAudiences c) (rq_audience request)
             then Inl (newOAuthError StatusForbidden ''invalid_target''
                         ''client is not allowed to request this audience'')
             else
               let requestedScopes =
                     (if length (rq_scopes request) = 0 then c_DefaultScopes c
                      else rq_scopes request) in
               (case resolveRequestedScopes requestedScopes (c_AllowedScopes c) of
                  None \<Rightarrow> Inl (newOAuthError StatusBadRequest ''invalid_scope''
                                ''client requested a scope that is not allowed'')
                | Some issuedScopes \<Rightarrow>
                    issueAccessToken numeric_date s now random c (rq_audience request) issuedScopes)))"

subsection \<open>What a successful request guarantees\<close>

lemma authenticate_Inr:
  "authenticate sha256 find_client store cid secret = Inr c' \<longleftrightarrow>
     cid \<noteq> [] \<and> secret \<noteq> [] \<and>
     (\<exists>c. find_client store cid = Inr c \<and> \<not> c_Disabled c \<and> VerifySecret sha256 c secret \<and>
        c' = client_Normalize c)"
  by (auto simp: authenticate_def split: sum.splits)

definition requested_scopes :: "token_request \<Rightarrow> client \<Rightarrow> string list" where
  "requested_scopes request c =
     (if length (rq_scopes request) = 0 then c_DefaultScopes c else rq_scopes request)"

lemma issue_Inr:
  "issue sha256 numeric_date find_client s now random request = Inr resp \<longleftrightarrow>
     rq_grantType request = ''client_credentials'' \<and>
     (\<exists>c issued.
        authenticate sha256 find_client (ts_store s) (rq_clientID request) (rq_clientSecret request) = Inr c \<and>
        rq_audience request \<noteq> [] \<and> TrimSpace (rq_audience request) \<in> set (c_AllowedAudiences c) \<and>
        resolveRequestedScopes (requested_scopes request c) (c_AllowedScopes c) = Some issued \<and>
        issueAccessToken numeric_date s now random c (rq_audience request) issued = Inr resp)"
  unfolding issue_def requested_scopes_def[symmetric] newOAuthError_def srv_contains_def Let_def
  by (auto split: sum.splits option.splits)

lemma issueAccessToken_Inr:
  "issueAccessToken numeric_date s now random c audience scopes = Inr resp \<longleftrightarrow>
     (\<exists>bytes token. random = Inr bytes \<and>
        sg_Sign (ts_signer s)
          (new_claims numeric_date s now (RawURL_EncodeToString bytes) c audience scopes) = Inr token \<and>
        resp = \<lparr>tr_AccessToken = token, tr_TokenType = TokenTypeBearer,
          tr_ExpiresIn = to_int64 (Seconds (ts_accessTokenTTL s)),
          tr_Scope = ScopeString scopes\<rparr>)"
  by (auto simp: issueAccessToken_def randomID_def new_claims_def Let_def split: sum.splits)

text \<open>A client in normal form has clean scope lists, and so has a request split by \<open>Fields\<close>.\<close>

lemma client_scopes_clean:
  assumes "client_Normalize c = c"
  shows "clean (c_AllowedScopes c)" "clean (c_DefaultScopes c)"
  using assms clean_NormalizeScopes by (metis client_Normalize_simps(5,6))+

lemma resolve_sound:
  assumes "resolveRequestedScopes requested allowed = Some issued" "clean requested" "clean allowed"
    and "s \<in> set issued"
  shows "wildcard_free s" "\<exists>a\<in>set allowed. ScopeCovers a s" "\<exists>r\<in>set requested. ScopeCovers r s"
proof -
  have "finite (granted_by allowed r)" for r by (simp add: granted_by_def)
  with assms obtain r where "r \<in> set requested" "s \<in> granted_by allowed r"
    by (auto simp: resolveRequestedScopes_spec split: if_splits)
  then show "wildcard_free s" "\<exists>a\<in>set allowed. ScopeCovers a s" "\<exists>r\<in>set requested. ScopeCovers r s"
    using granted_by_sound[of s allowed r] assms(2,3) by (auto simp: clean_def)
qed

lemma Scopes_ScopeString: "cl_Scope cl = ScopeString xs \<Longrightarrow> Scopes (Some cl) = NormalizeScopes xs"
  by (auto simp: Scopes_def ScopeString_blank ScopeString_Fields)

text \<open>What the claims of a token may say, given the registered client and the request.\<close>

definition authorised :: "client \<Rightarrow> token_request \<Rightarrow> claims \<Rightarrow> bool" where
  "authorised c request cl \<longleftrightarrow>
     cl_Subject cl = c_ID c \<and> cl_ClientID cl = c_ID c \<and> cl_TokenUse cl = TokenUseAccess \<and>
     cl_Audience cl = [rq_audience request] \<and>
     TrimSpace (rq_audience request) \<in> set (c_AllowedAudiences c) \<and>
     (\<forall>scope\<in>set (Scopes (Some cl)). wildcard_free scope \<and>
        (\<exists>a\<in>set (c_AllowedScopes c). ScopeCovers a scope) \<and>
        (\<exists>r\<in>set (requested_scopes request c). ScopeCovers r scope))"

lemma new_claims_authorised:
  assumes "client_Normalize c = c" "clean (rq_scopes request)"
    and "TrimSpace (rq_audience request) \<in> set (c_AllowedAudiences c)"
    and "resolveRequestedScopes (requested_scopes request c) (c_AllowedScopes c) = Some issued"
  shows "authorised c request (new_claims numeric_date s now jti c (rq_audience request) issued)"
proof -
  let ?cl = "new_claims numeric_date s now jti c (rq_audience request) issued"
  have req: "clean (requested_scopes request c)"
    using client_scopes_clean[OF assms(1)] assms(2) by (simp add: requested_scopes_def)
  have all: "clean (c_AllowedScopes c)" by (rule client_scopes_clean[OF assms(1)])
  have "set (Scopes (Some ?cl)) = set (NormalizeScopes issued)"
    by (simp add: new_claims_def Scopes_ScopeString)
  also have "\<dots> = set issued"
    using assms(4) by (auto simp: resolveRequestedScopes_def split: if_splits option.splits)
  finally show ?thesis
    using resolve_sound[OF assms(4) req all] assms(3) by (simp add: authorised_def new_claims_def)
qed

context client_store
begin

text \<open>Every token the service issues speaks for the enabled client that proved its secret, for the
  audience it asked for, and for scopes that client holds and asked for.\<close>

lemma issued_token:
  assumes "inv (ts_store s)" "clean (rq_scopes request)"
    and "issue sha256 numeric_date find s now random request = Inr resp"
  shows "\<exists>c cl. find (ts_store s) (rq_clientID request) = Inr c \<and> \<not> c_Disabled c \<and>
    c_ID c = TrimSpace (rq_clientID request) \<and> VerifySecret sha256 c (rq_clientSecret request) \<and>
    sg_Sign (ts_signer s) cl = Inr (tr_AccessToken resp) \<and> tr_Scope resp = cl_Scope cl \<and>
    authorised c request cl"
proof -
  from assms(3) obtain c' issued where i:
    "authenticate sha256 find (ts_store s) (rq_clientID request) (rq_clientSecret request) = Inr c'"
    "TrimSpace (rq_audience request) \<in> set (c_AllowedAudiences c')"
    "resolveRequestedScopes (requested_scopes request c') (c_AllowedScopes c') = Some issued"
    "issueAccessToken numeric_date s now random c' (rq_audience request) issued = Inr resp"
    unfolding issue_Inr by blast
  from i(1) obtain c where c: "find (ts_store s) (rq_clientID request) = Inr c" "\<not> c_Disabled c"
    "VerifySecret sha256 c (rq_clientSecret request)" "c' = client_Normalize c"
    unfolding authenticate_Inr by blast
  from found[OF assms(1) c(1)] have norm: "client_Normalize c = c"
    "c_ID c = TrimSpace (rq_clientID request)" by auto
  with c have c': "c' = c" by simp
  from i(4) obtain jti where sign:
    "sg_Sign (ts_signer s) (new_claims numeric_date s now jti c (rq_audience request) issued) =
       Inr (tr_AccessToken resp)" "tr_Scope resp = ScopeString issued"
    unfolding issueAccessToken_Inr c' by auto
  then have "tr_Scope resp = cl_Scope (new_claims numeric_date s now jti c (rq_audience request) issued)"
    by (simp add: new_claims_def)
  with c norm sign new_claims_authorised[OF norm(1) assms(2), of issued numeric_date s now jti] i(2,3)
  show ?thesis unfolding c' by blast
qed

text \<open>No secret opens a client that is not found, and the two failures look the same from outside.\<close>

lemma issue_unknown_client:
  assumes "rq_grantType request = ''client_credentials''"
    and "find (ts_store s) (rq_clientID request) = Inl ErrClientNotFound \<or>
      (\<exists>c. find (ts_store s) (rq_clientID request) = Inr c \<and>
         \<not> VerifySecret sha256 c (rq_clientSecret request))"
  shows "issue sha256 numeric_date find s now random request =
    Inl (OAuthError StatusUnauthorized ''invalid_client'' ''invalid client credentials'')"
  using assms by (auto simp: issue_def authenticate_def newOAuthError_def)

end

text \<open>The lifetime of an issued token: the library truncates dates to the second, so a token never
  lives longer than the configured time, and \<open>expires_in\<close> is the number of whole seconds in it.\<close>

definition truncates :: "(time \<Rightarrow> time) \<Rightarrow> bool" where
  "truncates numeric_date \<longleftrightarrow> (\<forall>t. numeric_date t = t - t mod second)"

lemma new_claims_lifetime:
  assumes "truncates numeric_date" "0 \<le> ts_accessTokenTTL s"
  shows "\<exists>nbf ex. cl_NotBefore (new_claims numeric_date s now jti c aud scopes) = Some nbf \<and>
    cl_IssuedAt (new_claims numeric_date s now jti c aud scopes) = Some nbf \<and>
    cl_ExpiresAt (new_claims numeric_date s now jti c aud scopes) = Some ex \<and>
    nbf \<le> now \<and> ex \<le> now + ts_accessTokenTTL s \<and> now + ts_accessTokenTTL s < ex + second"
  using assms by (auto simp: new_claims_def truncates_def time_add_def)

subsection \<open>Properties\<close>

text \<open>C1: no privilege is gained: every token the service issues over the in-memory store is signed for
  the enabled client that was asked for and whose secret was proved, for the one requested audience
  that this client may use, and for concrete scopes that the client's allowed scopes cover and the
  request (or the client's defaults) asked for.\<close>

theorem issued_token_authorised:
  fixes s :: "(memory_store, 'e) token_service"
  assumes "store_ok (ts_store s)" "clean (rq_scopes request)"
    and "issue sha256 numeric_date FindClient s now random request = Inr resp"
  shows "\<exists>c cl. (FindClient (ts_store s) (rq_clientID request) :: 'e store_error + client) = Inr c \<and>
    \<not> c_Disabled c \<and> c_ID c = TrimSpace (rq_clientID request) \<and> VerifySecret sha256 c (rq_clientSecret request) \<and>
    sg_Sign (ts_signer s) cl = Inr (tr_AccessToken resp) \<and> tr_Scope resp = cl_Scope cl \<and>
    authorised c request cl"
  using assms by (rule memory.issued_token)

definition demo_signer :: "unit signer" where
  "demo_signer = \<lparr>sg_KeyID = ''k1'', sg_Algorithm = ''EdDSA'',
     sg_Sign = (\<lambda>cl. Inr (cl_Subject cl @ ''|'' @ cl_Scope cl)), sg_PublicJWK = zero_key\<rparr>"

definition demo_service :: "(memory_store, unit) token_service" where
  "demo_service = \<lparr>ts_issuer = ''https://auth'', ts_store = NewMemoryClientStore [demo_client],
     ts_signer = demo_signer, ts_accessTokenTTL = 15 * minute\<rparr>"

definition demo_request :: token_request where
  "demo_request = \<lparr>rq_grantType = ''client_credentials'', rq_clientID = ''svc'',
     rq_clientSecret = ''s3cret'', rq_audience = ''sms'', rq_scopes = [''sms.send.otp'']\<rparr>"

definition demo_response :: token_response where
  "demo_response = \<lparr>tr_AccessToken = ''svc|sms.send.otp'', tr_TokenType = ''Bearer'',
     tr_ExpiresIn = 900, tr_Scope = ''sms.send.otp''\<rparr>"

lemma demo_lookup:
  "(FindClient (ts_store demo_service) ''svc'' :: unit store_error + client) =
     Inr (client_Normalize demo_client)"
  by code_simp

text \<open>The claims of the demo request's token, and the answer for any signer that signs them.\<close>

definition demo_issued_claims :: "string \<Rightarrow> claims" where
  "demo_issued_claims issuer =
     \<lparr>cl_Issuer = issuer, cl_Subject = ''svc'', cl_Audience = [''sms''],
      cl_ExpiresAt = Some (15 * minute), cl_NotBefore = Some 0, cl_IssuedAt = Some 0,
      cl_ID = RawURL_EncodeToString ''0123456789abcdef'', cl_ClientID = ''svc'', cl_Scope = ''sms.send.otp'',
      cl_TokenUse = TokenUseAccess\<rparr>"

lemma demo_issue_signed:
  fixes find_client :: "'s \<Rightarrow> string \<Rightarrow> 'e store_error + client"
  assumes "find_client (ts_store s) ''svc'' = Inr (client_Normalize demo_client)"
    and "sg_Sign (ts_signer s) (demo_issued_claims (ts_issuer s)) = Inr token"
    and "ts_accessTokenTTL s = 15 * minute"
  shows "issue id (\<lambda>t. t - t mod second) find_client s 0 (Inr ''0123456789abcdef'') demo_request =
    Inr (demo_response\<lparr>tr_AccessToken := token\<rparr>)"
proof -
  have "VerifySecret id (client_Normalize demo_client) ''s3cret''" by code_simp
  then have auth: "authenticate id find_client (ts_store s) (rq_clientID demo_request)
      (rq_clientSecret demo_request) = Inr (client_Normalize demo_client)"
    unfolding authenticate_Inr using assms(1) by (auto simp: demo_request_def demo_client_def)
  have scopes: "resolveRequestedScopes (requested_scopes demo_request (client_Normalize demo_client))
      (c_AllowedScopes (client_Normalize demo_client)) = Some [''sms.send.otp'']"
    by code_simp
  have aud: "TrimSpace (rq_audience demo_request) \<in> set (c_AllowedAudiences (client_Normalize demo_client))"
    by code_simp
  have str: "ScopeString [''sms.send.otp''] = ''sms.send.otp''" by code_simp
  have svc: "TrimSpace '' svc '' = ''svc''" by code_simp
  have ttl: "to_int64 (Seconds (15 * minute)) = 900"
    using to_int64_Seconds[of "15 * minute"] by (simp add: minute_def second_def)
  have "new_claims (\<lambda>t. t - t mod second) s 0 (RawURL_EncodeToString ''0123456789abcdef'')
      (client_Normalize demo_client) ''sms'' [''sms.send.otp''] = demo_issued_claims (ts_issuer s)"
    by (simp add: new_claims_def demo_issued_claims_def demo_client_def svc str assms(3) time_add_def minute_def
        second_def)
  then show ?thesis
    unfolding issue_Inr auth
    by (intro conjI exI[of _ "client_Normalize demo_client"] exI[of _ "[''sms.send.otp'']"] refl aud scopes)
      (simp_all add: issueAccessToken_Inr demo_request_def assms(2,3) demo_response_def str ttl
        TokenTypeBearer_def)
qed

lemma demo_issue_any:
  fixes find_client :: "'s \<Rightarrow> string \<Rightarrow> unit store_error + client"
  assumes "find_client (ts_store s) ''svc'' = Inr (client_Normalize demo_client)"
    and "ts_signer s = demo_signer" "ts_accessTokenTTL s = 15 * minute"
  shows "issue id (\<lambda>t. t - t mod second) find_client s 0 (Inr ''0123456789abcdef'') demo_request =
    Inr demo_response"
  using demo_issue_signed[of find_client s "tr_AccessToken demo_response"] assms(1,3)
  by (simp add: assms(2) demo_signer_def demo_issued_claims_def demo_response_def)

lemma demo_issue:
  "issue id (\<lambda>t. t - t mod second) FindClient demo_service 0 (Inr ''0123456789abcdef'') demo_request =
     Inr demo_response"
  by (rule demo_issue_any[where find_client = FindClient and s = demo_service, OF demo_lookup]) (simp_all add: demo_service_def)

lemma demo_store_ok: "store_ok (ts_store demo_service)"
  by (simp add: demo_service_def NewMemoryClientStore_def memory.inv_insert memory.inv_new)

theorem issued_token_authorised_witness:
  "\<exists>c cl. (FindClient (ts_store demo_service) (rq_clientID demo_request) :: unit store_error + client) =
      Inr c \<and>
    \<not> c_Disabled c \<and> c_ID c = TrimSpace (rq_clientID demo_request) \<and>
    VerifySecret id c (rq_clientSecret demo_request) \<and>
    sg_Sign (ts_signer demo_service) cl = Inr (tr_AccessToken demo_response) \<and>
    tr_Scope demo_response = cl_Scope cl \<and> authorised c demo_request cl"
proof -
  have "space_free ''sms.send.otp''" by code_simp
  then have "clean (rq_scopes demo_request)" by (simp add: demo_request_def)
  from issued_token_authorised[OF demo_store_ok this demo_issue] show ?thesis .
qed



end
