(* ===== verification/Server_Config.thy ===== *)
theory Server_Config
  imports Token_Service
begin

text \<open>
  \<open>server/config.go\<close> and \<open>server/server.go\<close>: the configuration of an authorization server, its
  builder, its validation and the server that is built from it.

  A signer of the configuration may be a \<open>nil\<close> interface, so the list holds options; a builder
  may be a \<open>nil\<close> pointer. The type \<open>'s\<close> is that of stores the caller brings, \<open>'c\<close> that of clocks;
  \<open>time_Now\<close> is the system clock.
\<close>

definition DefaultMaxTokenRequestBody :: int where "DefaultMaxTokenRequestBody = 1048576"
definition defaultAccessTokenTTL :: duration where "defaultAccessTokenTTL = 15 * minute"

record ('s, 'e, 'c) config =
  cf_Issuer :: string
  cf_Store :: "'s option"
  cf_Signers :: "'e signer option list"
  cf_ActiveKID :: string
  cf_AccessTokenTTL :: duration
  cf_MaxTokenRequestBody :: int
  cf_Now :: "'c option"
  cf_Clients :: "client list"

definition zero_config :: "('s, 'e, 'c) config" where
  "zero_config = \<lparr>cf_Issuer = [], cf_Store = None, cf_Signers = [], cf_ActiveKID = [],
     cf_AccessTokenTTL = 0, cf_MaxTokenRequestBody = 0, cf_Now = None, cf_Clients = []\<rparr>"

type_synonym ('s, 'e, 'c) builder = "('s, 'e, 'c) config option"

definition New :: "('s, 'e, 'c) builder" where
  "New = Some zero_config"

definition FromConfig :: "('s, 'e, 'c) config \<Rightarrow> ('s, 'e, 'c) builder" where
  "FromConfig cfg = Some cfg"

definition trim_issuer :: "string \<Rightarrow> string" where
  "trim_issuer issuer = TrimRight (TrimSpace issuer) (CHR ''/'')"

definition b_Issuer :: "('s, 'e, 'c) builder \<Rightarrow> string \<Rightarrow> ('s, 'e, 'c) builder" where
  "b_Issuer b issuer = map_option (\<lambda>cfg. cfg\<lparr>cf_Issuer := trim_issuer issuer\<rparr>) b"

definition b_Store :: "('s, 'e, 'c) builder \<Rightarrow> 's option \<Rightarrow> ('s, 'e, 'c) builder" where
  "b_Store b store =
     map_option (\<lambda>cfg. if store \<noteq> None then cfg\<lparr>cf_Store := store\<rparr> else cfg) b"

definition b_Client :: "('s, 'e, 'c) builder \<Rightarrow> client \<Rightarrow> ('s, 'e, 'c) builder" where
  "b_Client b c = map_option (\<lambda>cfg. cfg\<lparr>cf_Clients := cf_Clients cfg @ [c]\<rparr>) b"

definition b_Clients :: "('s, 'e, 'c) builder \<Rightarrow> client list \<Rightarrow> ('s, 'e, 'c) builder" where
  "b_Clients b clients = foldl b_Client b clients"

definition b_Signer :: "('s, 'e, 'c) builder \<Rightarrow> 'e signer option \<Rightarrow> ('s, 'e, 'c) builder" where
  "b_Signer b signer =
     map_option
       (\<lambda>cfg. if signer \<noteq> None then cfg\<lparr>cf_Signers := cf_Signers cfg @ [signer]\<rparr> else cfg) b"

definition b_Signers :: "('s, 'e, 'c) builder \<Rightarrow> 'e signer option list \<Rightarrow> ('s, 'e, 'c) builder" where
  "b_Signers b signers = foldl b_Signer b signers"

definition b_ActiveKID :: "('s, 'e, 'c) builder \<Rightarrow> string \<Rightarrow> ('s, 'e, 'c) builder" where
  "b_ActiveKID b kid = map_option (\<lambda>cfg. cfg\<lparr>cf_ActiveKID := TrimSpace kid\<rparr>) b"

definition b_AccessTokenTTL :: "('s, 'e, 'c) builder \<Rightarrow> duration \<Rightarrow> ('s, 'e, 'c) builder" where
  "b_AccessTokenTTL b ttl =
     map_option (\<lambda>cfg. if 0 < ttl then cfg\<lparr>cf_AccessTokenTTL := ttl\<rparr> else cfg) b"

definition b_TTL :: "('s, 'e, 'c) builder \<Rightarrow> duration \<Rightarrow> ('s, 'e, 'c) builder" where
  "b_TTL b ttl = b_AccessTokenTTL b ttl"

definition b_MaxBody :: "('s, 'e, 'c) builder \<Rightarrow> int \<Rightarrow> ('s, 'e, 'c) builder" where
  "b_MaxBody b n =
     map_option (\<lambda>cfg. if 0 < n then cfg\<lparr>cf_MaxTokenRequestBody := n\<rparr> else cfg) b"

definition b_Clock :: "('s, 'e, 'c) builder \<Rightarrow> 'c option \<Rightarrow> ('s, 'e, 'c) builder" where
  "b_Clock b now = map_option (\<lambda>cfg. if now \<noteq> None then cfg\<lparr>cf_Now := now\<rparr> else cfg) b"

datatype config_error =
    IssuerRequired | SignerRequired | NilSignerEntry | SignerKidRequired
  | DuplicateSignerKid string | ActiveSignerMissing string | StoreAndClients | ClientOrStoreRequired
  | ClientInvalid nat client_error | DuplicateClientID nat string | NilBuilder

definition normalizeConfig :: "'c \<Rightarrow> ('s, 'e, 'c) config \<Rightarrow> ('s, 'e, 'c) config" where
  "normalizeConfig time_Now cfg =
     cfg\<lparr>cf_Issuer := trim_issuer (cf_Issuer cfg),
         cf_ActiveKID := TrimSpace (cf_ActiveKID cfg),
         cf_AccessTokenTTL :=
           (if cf_AccessTokenTTL cfg \<le> 0 then defaultAccessTokenTTL else cf_AccessTokenTTL cfg),
         cf_MaxTokenRequestBody :=
           (if cf_MaxTokenRequestBody cfg \<le> 0 then DefaultMaxTokenRequestBody
            else cf_MaxTokenRequestBody cfg),
         cf_Now := (if cf_Now cfg = None then Some time_Now else cf_Now cfg),
         cf_Clients := map client_Normalize (cf_Clients cfg)\<rparr>"

text \<open>The loop over the signers, with the key ids seen so far and the active signer found so far.\<close>

fun scan_signers ::
  "string \<Rightarrow> string set \<Rightarrow> 'e signer option \<Rightarrow> 'e signer option list \<Rightarrow>
     config_error + 'e signer option" where
  "scan_signers activeKID seen active [] = Inr active"
| "scan_signers activeKID seen active (None # signers) = Inl NilSignerEntry"
| "scan_signers activeKID seen active (Some signer # signers) =
     (let kid = TrimSpace (sg_KeyID signer) in
      if kid = [] then Inl SignerKidRequired
      else if kid \<in> seen then Inl (DuplicateSignerKid kid)
      else
        scan_signers activeKID (insert kid seen)
          (if activeKID = kid then Some signer else active) signers)"

fun scan_clients :: "nat \<Rightarrow> string set \<Rightarrow> client list \<Rightarrow> config_error option" where
  "scan_clients index seen [] = None"
| "scan_clients index seen (c # cs) =
     (case client_Validate c of
        Some err \<Rightarrow> Some (ClientInvalid index err)
      | None \<Rightarrow>
          if c_ID c \<in> seen then Some (DuplicateClientID index (c_ID c))
          else scan_clients (Suc index) (insert (c_ID c) seen) cs)"

definition validateConfig :: "('s, 'e, 'c) config \<Rightarrow> config_error + 'e signer" where
  "validateConfig cfg =
     (if cf_Issuer cfg = [] then Inl IssuerRequired
      else if length (cf_Signers cfg) = 0 then Inl SignerRequired
      else
        (case scan_signers (cf_ActiveKID cfg) {} None (cf_Signers cfg) of
           Inl err \<Rightarrow> Inl err
         | Inr active \<Rightarrow>
             if cf_ActiveKID cfg \<noteq> [] \<and> active = None
             then Inl (ActiveSignerMissing (cf_ActiveKID cfg))
             else
               (let active = (if active = None then hd (cf_Signers cfg) else active) in
                if cf_Store cfg \<noteq> None \<and> 0 < length (cf_Clients cfg) then Inl StoreAndClients
                else if cf_Store cfg = None \<and> length (cf_Clients cfg) = 0
                then Inl ClientOrStoreRequired
                else
                  (case scan_clients 0 {} (cf_Clients cfg) of
                     Some err \<Rightarrow> Inl err
                   | None \<Rightarrow> Inr (the active)))))"

text \<open>The server. Its store is the caller's or the in-memory one; \<open>find_any\<close> asks either.\<close>

definition find_any ::
  "('s \<Rightarrow> string \<Rightarrow> 'e store_error + client) \<Rightarrow> 's + memory_store \<Rightarrow> string \<Rightarrow>
     'e store_error + client" where
  "find_any find_client store cid =
     (case store of Inl s \<Rightarrow> find_client s cid | Inr m \<Rightarrow> FindClient m cid)"

record ('s, 'e, 'c) server =
  sv_issuer :: string
  sv_maxTokenRequestBody :: int
  sv_signers :: "'e signer option list"
  sv_activeSigner :: "'e signer"
  sv_tokens :: "('s + memory_store, 'e) token_service"
  sv_now :: "'c option"

text \<open>The server literal at the end of \<open>buildServer\<close>, and \<open>buildServer\<close>.\<close>

definition server_of :: "('s, 'e, 'c) config \<Rightarrow> 'e signer \<Rightarrow> ('s, 'e, 'c) server" where
  "server_of cfg activeSigner =
     \<lparr>sv_issuer = cf_Issuer cfg, sv_maxTokenRequestBody = cf_MaxTokenRequestBody cfg,
      sv_signers = cf_Signers cfg, sv_activeSigner = activeSigner,
      sv_tokens = \<lparr>ts_issuer = cf_Issuer cfg,
        ts_store = (case cf_Store cfg of
                      None \<Rightarrow> Inr (NewMemoryClientStore (cf_Clients cfg))
                    | Some s \<Rightarrow> Inl s),
        ts_signer = activeSigner, ts_accessTokenTTL = cf_AccessTokenTTL cfg\<rparr>,
      sv_now = cf_Now cfg\<rparr>"

definition buildServer :: "'c \<Rightarrow> ('s, 'e, 'c) config \<Rightarrow> config_error + ('s, 'e, 'c) server" where
  "buildServer time_Now input =
     (let cfg = normalizeConfig time_Now input in
      case validateConfig cfg of
        Inl err \<Rightarrow> Inl err
      | Inr activeSigner \<Rightarrow> Inr (server_of cfg activeSigner))"

definition Build :: "'c \<Rightarrow> ('s, 'e, 'c) builder \<Rightarrow> config_error + ('s, 'e, 'c) server" where
  "Build time_Now b = (case b of None \<Rightarrow> Inl NilBuilder | Some cfg \<Rightarrow> buildServer time_Now cfg)"

definition server_Must :: "'c \<Rightarrow> ('s, 'e, 'c) builder \<Rightarrow> config_error panic + ('s, 'e, 'c) server" where
  "server_Must time_Now b = must (Build time_Now b)"

definition NewServer :: "'c \<Rightarrow> ('s, 'e, 'c) config \<Rightarrow> config_error + ('s, 'e, 'c) server" where
  "NewServer time_Now cfg = buildServer time_Now cfg"

definition server_Issuer :: "('s, 'e, 'c) server \<Rightarrow> string" where
  "server_Issuer s = sv_issuer s"

definition route_Token :: string where "route_Token = ''/oauth/token''"
definition route_JWKS :: string where "route_JWKS = ''/.well-known/jwks.json''"
definition route_Discovery :: string where "route_Discovery = ''/.well-known/openid-configuration''"
definition route_Health :: string where "route_Health = ''/healthz''"
definition route_Ready :: string where "route_Ready = ''/readyz''"

definition JWKSURI :: "('s, 'e, 'c) server \<Rightarrow> string" where
  "JWKSURI s = sv_issuer s @ route_JWKS"

definition TokenEndpoint :: "('s, 'e, 'c) server \<Rightarrow> string" where
  "TokenEndpoint s = sv_issuer s @ route_Token"

subsection \<open>Which configurations build, and what is built\<close>

text \<open>The key ids a list of signers declares, and the signer of a key id.\<close>

definition signer_kid :: "'e signer \<Rightarrow> string" where
  "signer_kid s = TrimSpace (sg_KeyID s)"

definition signers_ok :: "'e signer list \<Rightarrow> bool" where
  "signers_ok ss \<longleftrightarrow> (\<forall>s\<in>set ss. signer_kid s \<noteq> []) \<and> distinct (map signer_kid ss)"

lemma signers_ok_simps [simp]:
  "signers_ok []"
  "signers_ok (s # ss) \<longleftrightarrow>
     signer_kid s \<noteq> [] \<and> (\<forall>t\<in>set ss. signer_kid t \<noteq> signer_kid s) \<and> signers_ok ss"
  by (auto simp: signers_ok_def dest: notin_imageD)

definition signer_of :: "string \<Rightarrow> 'e signer list \<Rightarrow> 'e signer option" where
  "signer_of kid ss = List.find (\<lambda>s. signer_kid s = kid) ss"

lemma signer_of_simps [simp]:
  "signer_of kid [] = None"
  "signer_of kid (s # ss) = (if signer_kid s = kid then Some s else signer_of kid ss)"
  by (simp_all add: signer_of_def)

lemma signer_of_None: "\<forall>s\<in>set ss. signer_kid s \<noteq> kid \<Longrightarrow> signer_of kid ss = None"
  by (induction ss) auto

lemma signer_of_SomeD: "signer_of kid ss = Some s \<Longrightarrow> s \<in> set ss \<and> signer_kid s = kid"
  by (induction ss) (auto split: if_splits)

lemma scan_signers_map_Some:
  "scan_signers activeKID seen active (map Some ss) = Inr r \<longleftrightarrow>
     signers_ok ss \<and> (\<forall>s\<in>set ss. signer_kid s \<notin> seen) \<and>
     r = (case signer_of activeKID ss of None \<Rightarrow> active | Some s \<Rightarrow> Some s)"
proof (induction ss arbitrary: seen active)
  case (Cons s ss)
  have fresh: "(\<forall>t\<in>set ss. signer_kid t \<notin> insert (signer_kid s) seen) \<longleftrightarrow>
      (\<forall>t\<in>set ss. signer_kid t \<noteq> signer_kid s) \<and> (\<forall>t\<in>set ss. signer_kid t \<notin> seen)"
    by auto
  show ?case
    by (simp add: Let_def Cons fresh flip: signer_kid_def)
       (auto simp: signer_of_None)
qed auto

lemma scan_signers_Inr:
  "scan_signers activeKID seen active signers = Inr r \<Longrightarrow> \<exists>ss. signers = map Some ss"
proof (induction activeKID seen active signers rule: scan_signers.induct)
  case (3 activeKID seen active s signers)
  then obtain ss where "signers = map Some ss" by (auto simp: Let_def split: if_splits)
  then show ?case by (intro exI[of _ "s # ss"]) simp
qed auto

lemma scan_clients_None:
  "scan_clients i seen cs = None \<longleftrightarrow>
     list_all client_ok cs \<and> distinct (map c_ID cs) \<and> (\<forall>c\<in>set cs. c_ID c \<notin> seen)"
  by (induction cs arbitrary: i seen) (auto simp: client_Validate_None dest: notin_imageD)

text \<open>The configurations the server accepts, written on the normalized configuration.\<close>

definition config_ok :: "('s, 'e, 'c) config \<Rightarrow> 'e signer list \<Rightarrow> bool" where
  "config_ok cfg ss \<longleftrightarrow> cf_Issuer cfg \<noteq> [] \<and> ss \<noteq> [] \<and> cf_Signers cfg = map Some ss \<and> signers_ok ss \<and>
     (cf_ActiveKID cfg \<noteq> [] \<longrightarrow> cf_ActiveKID cfg \<in> signer_kid ` set ss) \<and>
     ((cf_Store cfg = None) = (cf_Clients cfg \<noteq> [])) \<and>
     list_all client_ok (cf_Clients cfg) \<and> distinct (map c_ID (cf_Clients cfg))"

lemma signer_of_exists: "(\<exists>s. signer_of kid ss = Some s) \<longleftrightarrow> kid \<in> signer_kid ` set ss"
  by (induction ss) auto

lemma signer_of_blank: "signers_ok ss \<Longrightarrow> signer_of [] ss = None"
  by (rule signer_of_None) (simp add: signers_ok_def)

definition active_of :: "('s, 'e, 'c) config \<Rightarrow> 'e signer list \<Rightarrow> 'e signer" where
  "active_of cfg ss =
     (if cf_ActiveKID cfg = [] then hd ss else the (signer_of (cf_ActiveKID cfg) ss))"

lemma validateConfig_Inr:
  "validateConfig cfg = Inr active \<longleftrightarrow> (\<exists>ss. config_ok cfg ss \<and> active = active_of cfg ss)"
  (is "?L \<longleftrightarrow> ?R")
proof (cases "\<exists>ss. cf_Signers cfg = map Some ss")
  case False
  then have "scan_signers kid {} None (cf_Signers cfg) \<noteq> Inr r" for kid r
    using scan_signers_Inr by blast
  then have "\<not> ?L" by (auto simp: validateConfig_def split: if_splits sum.splits)
  then show ?thesis using False by (auto simp: config_ok_def)
next
  case True
  then obtain ss where ss: "cf_Signers cfg = map Some ss" by blast
  have uniq: "cf_Signers cfg = map Some ts \<longleftrightarrow> ts = ss" for ts
    unfolding ss by (auto simp: inj_map_eq_map)
  have R: "?R \<longleftrightarrow> config_ok cfg ss \<and> active = active_of cfg ss"
    unfolding config_ok_def uniq by auto
  show ?thesis
  proof (cases "ss = [] \<or> \<not> signers_ok ss")
    case True
    then have "\<not> ?L" using scan_signers_map_Some[of "cf_ActiveKID cfg" "{}" None ss]
      by (auto simp: validateConfig_def Let_def ss split: if_splits sum.splits)
    then show ?thesis unfolding R using True by (auto simp: config_ok_def)
  next
    case False
    then have scan: "scan_signers (cf_ActiveKID cfg) {} None (cf_Signers cfg) =
        Inr (signer_of (cf_ActiveKID cfg) ss)"
      using scan_signers_map_Some[of "cf_ActiveKID cfg" "{}" None ss "signer_of (cf_ActiveKID cfg) ss"]
      by (simp add: ss split: option.split)
    have blank: "signer_of [] ss = None" using False by (intro signer_of_blank) simp
    have ex: "signer_of kid ss = None \<longleftrightarrow> kid \<notin> signer_kid ` set ss" for kid
      using signer_of_exists[of kid ss] by auto
    have clients: "scan_clients 0 {} (cf_Clients cfg) = None \<longleftrightarrow>
        list_all client_ok (cf_Clients cfg) \<and> distinct (map c_ID (cf_Clients cfg))"
      by (simp add: scan_clients_None)
    have hd: "hd (cf_Signers cfg) = Some (hd ss)" using False by (simp add: ss hd_map)
    show ?thesis
    proof (cases "cf_ActiveKID cfg = []")
      case True
      then show ?thesis
        unfolding R validateConfig_def scan config_ok_def active_of_def hd clients[symmetric]
        using False ss blank by (auto split: option.splits)
    next
      case kid: False
      show ?thesis
        unfolding R validateConfig_def scan config_ok_def active_of_def clients[symmetric]
        using False ss kid ex by (auto split: option.splits)
    qed
  qed
qed

text \<open>A client list of a built server, asked for one of its ids.\<close>

lemma memory_find:
  assumes "distinct (map c_ID cs)" "\<forall>c\<in>set cs. client_Normalize c = c" "c \<in> set cs"
    and "c_ID c \<noteq> []"
  shows "(FindClient (NewMemoryClientStore cs) (c_ID c) :: 'e store_error + client) =
    (if c_Disabled c then Inl ErrClientNotFound else Inr c)"
proof -
  have trim: "TrimSpace (c_ID d) = c_ID d" if "d \<in> set cs" for d
    using assms(2) that client_Normalize_simps(1)[of d] by simp
  obtain as bs where cs: "cs = as @ c # bs" using split_list[OF assms(3)] by blast
  have "\<forall>d\<in>set bs. TrimSpace (c_ID d) \<noteq> TrimSpace (c_ID c)"
    using assms(1) trim unfolding cs by (auto dest: notin_imageD)
  then have "(FindClient (foldl Upsert Map.empty (as @ c # bs)) (c_ID c) :: 'e store_error + client) =
      (if c_Disabled c then Inl ErrClientNotFound else Inr (client_Normalize c))"
    using assms(3,4) trim by (intro memory.find_last memory.inv_new) auto
  then show ?thesis using assms(2,3) by (simp add: NewMemoryClientStore_def cs)
qed

lemma normalizeConfig_simps [simp]:
  "cf_Issuer (normalizeConfig tn cfg) = trim_issuer (cf_Issuer cfg)"
  "cf_Store (normalizeConfig tn cfg) = cf_Store cfg"
  "cf_Signers (normalizeConfig tn cfg) = cf_Signers cfg"
  "cf_ActiveKID (normalizeConfig tn cfg) = TrimSpace (cf_ActiveKID cfg)"
  "cf_Clients (normalizeConfig tn cfg) = map client_Normalize (cf_Clients cfg)"
  "0 < cf_AccessTokenTTL (normalizeConfig tn cfg)"
  "0 < cf_MaxTokenRequestBody (normalizeConfig tn cfg)"
  "cf_Now (normalizeConfig tn cfg) \<noteq> None"
  by (simp_all add: normalizeConfig_def defaultAccessTokenTTL_def DefaultMaxTokenRequestBody_def
      minute_def second_def del: not_None_eq)

text \<open>The invariant of a built server.\<close>

definition server_ok :: "('s, 'e, 'c) server \<Rightarrow> bool" where
  "server_ok sv \<longleftrightarrow>
     sv_issuer sv \<noteq> [] \<and> last (sv_issuer sv) \<noteq> CHR ''/'' \<and> 0 < sv_maxTokenRequestBody sv \<and>
     (\<exists>ss. sv_signers sv = map Some ss \<and> signers_ok ss \<and> sv_activeSigner sv \<in> set ss) \<and>
     ts_issuer (sv_tokens sv) = sv_issuer sv \<and> ts_signer (sv_tokens sv) = sv_activeSigner sv \<and>
     0 < ts_accessTokenTTL (sv_tokens sv) \<and> sv_now sv \<noteq> None \<and>
     (case ts_store (sv_tokens sv) of Inl _ \<Rightarrow> True | Inr m \<Rightarrow> store_ok m)"

lemma buildServer_Inr:
  "buildServer tn cfg = Inr sv \<longleftrightarrow>
     (\<exists>ss. config_ok (normalizeConfig tn cfg) ss \<and>
        sv = server_of (normalizeConfig tn cfg) (active_of (normalizeConfig tn cfg) ss))"
  by (auto simp: buildServer_def Let_def validateConfig_Inr split: sum.splits)
    (metis sum.distinct(1) validateConfig_Inr sum.inject(2))+

lemma active_of_in: "config_ok cfg ss \<Longrightarrow> active_of cfg ss \<in> set ss"
  using signer_of_exists[of "cf_ActiveKID cfg" ss] signer_of_SomeD[of "cf_ActiveKID cfg" ss]
  by (auto simp: config_ok_def active_of_def)

lemma store_ok_NewMemoryClientStore: "store_ok (NewMemoryClientStore cs)"
  unfolding NewMemoryClientStore_def by (rule memory.inv_inserts[OF memory.inv_new])

lemma trim_issuer_last: "trim_issuer s = [] \<or> last (trim_issuer s) \<noteq> CHR ''/''"
  unfolding trim_issuer_def by (rule TrimRight_last)

lemma server_of_ok:
  assumes "config_ok (normalizeConfig tn cfg) ss"
  shows "server_ok (server_of (normalizeConfig tn cfg) (active_of (normalizeConfig tn cfg) ss))"
  unfolding server_ok_def
  using assms active_of_in[OF assms] trim_issuer_last[of "cf_Issuer cfg"]
  by (auto simp: server_of_def config_ok_def store_ok_NewMemoryClientStore split: option.split)

lemma buildServer_ok: "buildServer tn cfg = Inr sv \<Longrightarrow> server_ok sv"
  by (auto simp: buildServer_Inr server_of_ok)

subsection \<open>Properties\<close>

text \<open>C34: a configuration builds exactly when, once normalized, it has an issuer, signers with distinct
  non-blank key ids among which is the active one, and either a store or a non-empty list of valid
  clients with distinct ids.\<close>

theorem buildServer_decides:
  "(\<exists>sv. buildServer tn cfg = Inr sv) \<longleftrightarrow> (\<exists>ss. config_ok (normalizeConfig tn cfg) ss)"
  unfolding buildServer_Inr by blast

text \<open>A server that was built has an issuer without a trailing slash, a positive body limit and
  token lifetime, a clock, and an active signer that is one of its signers; its token service uses the
  same issuer and that signer.\<close>

theorem built_server_ok:
  assumes "buildServer tn cfg = Inr sv"
  shows "server_ok sv"
  using assms by (rule buildServer_ok)

definition demo_config :: "(unit, unit, nat) config" where
  "demo_config = zero_config\<lparr>cf_Issuer := ''https://auth/'', cf_Signers := [Some demo_signer],
     cf_Clients := [demo_client]\<rparr>"

definition demo_server :: "(unit, unit, nat) server" where
  "demo_server = server_of (normalizeConfig 0 demo_config) demo_signer"

lemma demo_build: "buildServer 0 demo_config = Inr demo_server"
proof -
  have "trim_issuer ''https://auth/'' = ''https://auth''" by code_simp
  moreover have "client_Validate (client_Normalize demo_client) = None" by code_simp
  then have "client_ok (client_Normalize demo_client)" by (rule client_Validate_None[THEN iffD1])
  moreover have "TrimSpace ''k1'' = ''k1''" by code_simp
  ultimately have "config_ok (normalizeConfig 0 demo_config) [demo_signer]"
    by (simp add: config_ok_def demo_config_def zero_config_def signer_kid_def demo_signer_def)
  then show ?thesis
    unfolding buildServer_Inr
    by (intro exI conjI) (auto simp: demo_server_def active_of_def demo_config_def zero_config_def)
qed

theorem built_server_ok_witness: "server_ok demo_server"
  by (rule built_server_ok[OF demo_build])

text \<open>A server built from a list of clients serves each of them under its trimmed id, in normal
  form, unless the client is disabled.\<close>

theorem built_server_serves_clients:
  fixes fc :: "'s \<Rightarrow> string \<Rightarrow> 'e store_error + client"
  assumes "buildServer tn cfg = Inr sv" "cf_Store cfg = None" "c \<in> set (cf_Clients cfg)"
  shows "find_any fc (ts_store (sv_tokens sv)) (TrimSpace (c_ID c)) =
    (if c_Disabled c then Inl ErrClientNotFound else Inr (client_Normalize c))"
proof -
  let ?cs = "map client_Normalize (cf_Clients cfg)"
  from assms(1) obtain ss where ok: "config_ok (normalizeConfig tn cfg) ss" and
    sv: "sv = server_of (normalizeConfig tn cfg) (active_of (normalizeConfig tn cfg) ss)"
    unfolding buildServer_Inr by blast
  have cs: "distinct (map c_ID ?cs)" "list_all client_ok ?cs"
    using ok by (simp_all add: config_ok_def)
  have "client_ok (client_Normalize c)" using cs(2) assms(3) by (auto simp: list_all_iff)
  then have "c_ID (client_Normalize c) \<noteq> []" by (simp add: client_ok_def)
  then have "FindClient (NewMemoryClientStore ?cs) (c_ID (client_Normalize c)) =
      (if c_Disabled c then Inl ErrClientNotFound else Inr (client_Normalize c) :: 'e store_error + client)"
    using memory_find[OF cs(1), of "client_Normalize c"] assms(3) by auto
  then show ?thesis by (simp add: sv server_of_def find_any_def assms(2))
qed

theorem built_server_serves_clients_witness:
  "find_any (\<lambda>_ _. Inl ErrClientNotFound) (ts_store (sv_tokens demo_server)) ''svc'' =
     (Inr (client_Normalize demo_client) :: unit store_error + client)"
proof -
  have "TrimSpace (c_ID demo_client) = ''svc''" by code_simp
  then show ?thesis
    using built_server_serves_clients[OF demo_build, of demo_client "\<lambda>_ _. Inl ErrClientNotFound"]
    by (simp add: demo_config_def zero_config_def) (simp add: demo_client_def)
qed

end
