(* ===== verification/Slice_Config.thy ===== *)
theory Slice_Config
  imports Slice_Store Server_Config
begin

text \<open>
  The copies of \<open>server/config.go\<close> and \<open>client/config.go\<close>. \<open>normalizeConfig\<close> normalizes the clients of its
  configuration in place, in the array it was given a copy of by \<open>cloneConfig\<close>: the caller's array of
  clients, their slices and the array of signers stay as they are, and the copy has the values of
  \<open>normalizeConfig\<close> of \<open>Server_Config\<close>. \<open>cloneStrings\<close> is the client's way to copy a slice.
\<close>

definition cloneStrings :: "slice_heap \<Rightarrow> slice \<Rightarrow> slice_heap \<times> slice" where
  "cloneStrings h values = (if contents h values = [] then (h, None) else new_array h (contents h values))"

lemma made_cloneStrings: "cloneStrings h s = (h', s') \<Longrightarrow> made h h' s' (contents h s)"
  by (auto simp: cloneStrings_def dest: made_new_array split: if_splits) (auto simp: made_def contents_def)

text \<open>The arrays of signers and of clients, beside those of strings; the two slices of a configuration.\<close>

record 'g config_heap =
  cg_strings :: slice_heap
  cg_signers :: "nat \<Rightarrow> 'g list"
  cg_clients :: "nat \<Rightarrow> shared_client list"
  cg_next :: nat

record shared_config =
  sf_Signers :: "nat option"
  sf_Clients :: "nat option"

fun clone_each :: "slice_heap \<Rightarrow> shared_client list \<Rightarrow> slice_heap \<times> shared_client list" where
  "clone_each h [] = (h, [])"
| "clone_each h (c # cs) =
     (let (h, c) = cloneClient h c; (h, cs) = clone_each h cs in (h, c # cs))"

definition shared_cloneConfig :: "'g config_heap \<Rightarrow> shared_config \<Rightarrow> 'g config_heap \<times> shared_config" where
  "shared_cloneConfig h cfg =
     (let (h, cfg) =
        (case sf_Signers cfg of
           None \<Rightarrow> (h, cfg)
         | Some a \<Rightarrow>
             (h\<lparr>cg_signers := (cg_signers h)(cg_next h := cg_signers h a), cg_next := Suc (cg_next h)\<rparr>,
              cfg\<lparr>sf_Signers := Some (cg_next h)\<rparr>)) in
      case sf_Clients cfg of
        None \<Rightarrow> (h, cfg)
      | Some a \<Rightarrow>
          (let (strings, clients) = clone_each (cg_strings h) (cg_clients h a) in
           (h\<lparr>cg_strings := strings, cg_clients := (cg_clients h)(cg_next h := clients),
              cg_next := Suc (cg_next h)\<rparr>,
            cfg\<lparr>sf_Clients := Some (cg_next h)\<rparr>)))"

text \<open>The loop over the indices of the clients, writing to the array.\<close>

fun normalize_loop :: "nat \<Rightarrow> nat \<Rightarrow> nat \<Rightarrow> 'g config_heap \<Rightarrow> 'g config_heap" where
  "normalize_loop a index 0 h = h"
| "normalize_loop a index (Suc n) h =
     (let (strings, c) = shared_Normalize (cg_strings h) (cg_clients h a ! index) in
      normalize_loop a (Suc index) n
        (h\<lparr>cg_strings := strings, cg_clients := (cg_clients h)(a := (cg_clients h a)[index := c])\<rparr>))"

definition shared_normalizeConfig :: "'g config_heap \<Rightarrow> shared_config \<Rightarrow> 'g config_heap \<times> shared_config" where
  "shared_normalizeConfig h cfg =
     (let (h, cfg) = shared_cloneConfig h cfg in
      case sf_Clients cfg of
        None \<Rightarrow> (h, cfg)
      | Some a \<Rightarrow> (normalize_loop a 0 (length (cg_clients h a)) h, cfg))"

subsection \<open>What the caller sees\<close>

definition client_values :: "'g config_heap \<Rightarrow> shared_config \<Rightarrow> client list" where
  "client_values h cfg =
     (case sf_Clients cfg of None \<Rightarrow> [] | Some a \<Rightarrow> map (view (cg_strings h)) (cg_clients h a))"

definition signer_values :: "'g config_heap \<Rightarrow> shared_config \<Rightarrow> 'g list" where
  "signer_values h cfg = (case sf_Signers cfg of None \<Rightarrow> [] | Some a \<Rightarrow> cg_signers h a)"

text \<open>Nothing that existed before has changed.\<close>

definition untouched :: "'g config_heap \<Rightarrow> 'g config_heap \<Rightarrow> bool" where
  "untouched h h' \<longleftrightarrow> extends (cg_strings h) (cg_strings h') \<and>
     (\<forall>a < cg_next h. cg_clients h' a = cg_clients h a \<and> cg_signers h' a = cg_signers h a)"

definition well_formed :: "'g config_heap \<Rightarrow> shared_config \<Rightarrow> bool" where
  "well_formed h cfg \<longleftrightarrow> set_option (sf_Signers cfg) \<subseteq> {..<cg_next h} \<and> set_option (sf_Clients cfg) \<subseteq> {..<cg_next h} \<and>
     (\<forall>a\<in>set_option (sf_Clients cfg). \<forall>c\<in>set (cg_clients h a). addrs c \<subseteq> {..<sh_next (cg_strings h)})"

lemma clone_each_spec:
  assumes "clone_each h cs = (h', cs')" "\<forall>c\<in>set cs. addrs c \<subseteq> {..<sh_next h}"
  shows "extends h h' \<and> map (view h') cs' = map (view h) cs \<and> (\<forall>c\<in>set cs'. addrs c \<subseteq> {..<sh_next h'})"
  using assms
proof (induction cs arbitrary: h h' cs')
  case (Cons c cs)
  obtain h1 d ds where eqs: "cloneClient h c = (h1, d)" "clone_each h1 cs = (h', ds)" "cs' = d # ds"
    using Cons.prems(1) by (auto simp: Let_def split: prod.splits)
  have d: "extends h h1" "view h1 d = view h c" "addrs d \<subseteq> {..<sh_next h1}"
    using cloneClient_spec[OF eqs(1)] Cons.prems(2) by auto
  have "\<forall>c\<in>set cs. addrs c \<subseteq> {..<sh_next h1}" using Cons.prems(2) d(1) by (fastforce simp: extends_def)
  note IH = Cons.IH[OF eqs(2) this]
  have "map (view h1) cs = map (view h) cs" using Cons.prems(2) d(1) by (auto intro!: view_extends)
  moreover have "view h' d = view h1 d" using IH d(3) by (auto intro: view_extends)
  moreover have "addrs d \<subseteq> {..<sh_next h'}" using IH d(3) by (fastforce simp: extends_def)
  ultimately show ?case using IH d(1,2) eqs(3) by (auto intro: extends_trans)
qed auto

lemma normalize_loop_spec:
  assumes "index + n = length (cg_clients h a)"
    and "\<forall>c\<in>set (cg_clients h a). addrs c \<subseteq> {..<sh_next (cg_strings h)}"
    and "h' = normalize_loop a index n h" "vs = map (view (cg_strings h)) (cg_clients h a)"
  shows "extends (cg_strings h) (cg_strings h') \<and> (\<forall>b. b \<noteq> a \<longrightarrow> cg_clients h' b = cg_clients h b) \<and>
    cg_signers h' = cg_signers h \<and>
    map (view (cg_strings h')) (cg_clients h' a) = take index vs @ map client_Normalize (drop index vs)"
  using assms
proof (induction n arbitrary: h index vs)
  case (Suc n)
  let ?cs = "cg_clients h a"
  have i: "index < length ?cs" using Suc.prems(1) by simp
  obtain strings c where c: "shared_Normalize (cg_strings h) (?cs ! index) = (strings, c)" by (metis surj_pair)
  let ?h = "h\<lparr>cg_strings := strings, cg_clients := (cg_clients h)(a := ?cs[index := c])\<rparr>"
  have "addrs (?cs ! index) \<subseteq> {..<sh_next (cg_strings h)}" using Suc.prems(2) i by simp
  note n = shared_Normalize_spec[OF c this]
  have old: "\<forall>d\<in>set ?cs. addrs d \<subseteq> {..<sh_next strings}" using Suc.prems(2) n by (fastforce simp: extends_def)
  have new: "addrs c \<subseteq> {..<sh_next strings}" using n by fastforce
  have "\<forall>d\<in>set (?cs[index := c]). addrs d \<subseteq> {..<sh_next strings}"
    using old new set_update_subset_insert[of ?cs index c] by blast
  moreover have "h' = normalize_loop a (Suc index) n ?h" using Suc.prems(3) c by simp
  ultimately have IH: "extends strings (cg_strings h') \<and> (\<forall>b. b \<noteq> a \<longrightarrow> cg_clients h' b = cg_clients h b) \<and>
      cg_signers h' = cg_signers h \<and> map (view (cg_strings h')) (cg_clients h' a) =
        take (Suc index) (map (view strings) (?cs[index := c])) @
        map client_Normalize (drop (Suc index) (map (view strings) (?cs[index := c])))"
    using Suc.IH[of "Suc index" ?h] Suc.prems(1) by simp
  have vs0: "map (view strings) ?cs = vs" unfolding Suc.prems(4) using Suc.prems(2) n by (auto intro!: view_extends)
  then have vs: "map (view strings) (?cs[index := c]) = vs[index := client_Normalize (vs ! index)]"
    unfolding map_update vs0 using n i by (simp add: Suc.prems(4))
  have "index < length vs" using i Suc.prems(4) by simp
  then have "take (Suc index) (vs[index := client_Normalize (vs ! index)]) =
      take index vs @ [client_Normalize (vs ! index)]"
    "drop index vs = vs ! index # drop (Suc index) vs"
    by (simp_all add: take_Suc_conv_app_nth Cons_nth_drop_Suc)
  then show ?case using IH n extends_trans by (auto simp: vs)
qed simp

lemma untouched_values:
  assumes "untouched h h'" "well_formed h cfg"
  shows "client_values h' cfg = client_values h cfg"
proof (cases "sf_Clients cfg")
  case (Some a)
  then have "cg_clients h' a = cg_clients h a" using assms by (simp add: untouched_def well_formed_def)
  moreover have "map (view (cg_strings h')) (cg_clients h a) = map (view (cg_strings h)) (cg_clients h a)"
    using assms Some by (auto simp: untouched_def well_formed_def intro!: view_extends)
  ultimately show ?thesis using Some by (simp add: client_values_def)
qed (simp add: client_values_def)

lemma shared_cloneConfig_spec:
  assumes "shared_cloneConfig h cfg = (h1, cfg')" "well_formed h cfg"
  shows "untouched h h1 \<and> client_values h1 cfg' = client_values h cfg \<and> signer_values h1 cfg' = signer_values h cfg \<and>
    (\<forall>a\<in>set_option (sf_Clients cfg'). cg_next h \<le> a \<and>
       (\<forall>c\<in>set (cg_clients h1 a). addrs c \<subseteq> {..<sh_next (cg_strings h1)}))"
proof (cases "sf_Clients cfg")
  case None
  then show ?thesis using assms
    by (auto simp: shared_cloneConfig_def Let_def untouched_def client_values_def signer_values_def split: option.splits)
next
  case (Some a)
  obtain strings cs where cs: "clone_each (cg_strings h) (cg_clients h a) = (strings, cs)" by (metis surj_pair)
  have "\<forall>c\<in>set (cg_clients h a). addrs c \<subseteq> {..<sh_next (cg_strings h)}" using assms(2) Some by (simp add: well_formed_def)
  note spec = clone_each_spec[OF cs this]
  show ?thesis
  proof (cases "sf_Signers cfg")
    case None
    then show ?thesis using assms Some cs spec
      by (auto simp: shared_cloneConfig_def Let_def untouched_def client_values_def signer_values_def)
        (meson lessThan_iff subsetD)
  next
    case (Some b)
    then have "b < cg_next h" using assms(2) by (simp add: well_formed_def)
    then show ?thesis using assms Some \<open>sf_Clients cfg = Some a\<close> cs spec
      by (auto simp: shared_cloneConfig_def Let_def untouched_def client_values_def signer_values_def)
        (meson lessThan_iff subsetD)
  qed
qed

text \<open>\<open>normalizeConfig\<close> leaves what its caller holds alone, and gives the values of the model.\<close>

lemma normalizeConfig_isolated:
  assumes "shared_normalizeConfig h cfg = (h', cfg')" "well_formed h cfg"
  shows "untouched h h' \<and> client_values h' cfg = client_values h cfg \<and> signer_values h' cfg' = signer_values h cfg \<and>
    client_values h' cfg' = cf_Clients (normalizeConfig now (zero_config\<lparr>cf_Clients := client_values h cfg\<rparr>))"
proof -
  obtain h1 where clone: "shared_cloneConfig h cfg = (h1, cfg')"
    and h': "h' = (case sf_Clients cfg' of None \<Rightarrow> h1 | Some a \<Rightarrow> normalize_loop a 0 (length (cg_clients h1 a)) h1)"
    using assms(1) by (auto simp: shared_normalizeConfig_def Let_def split: prod.splits option.splits)
  note spec = shared_cloneConfig_spec[OF clone assms(2)]
  have "untouched h h' \<and> signer_values h' cfg' = signer_values h cfg \<and>
      client_values h' cfg' = map client_Normalize (client_values h cfg)"
  proof (cases "sf_Clients cfg'")
    case None
    then show ?thesis using spec h' by (auto simp: client_values_def)
  next
    case (Some a)
    then have "\<forall>c\<in>set (cg_clients h1 a). addrs c \<subseteq> {..<sh_next (cg_strings h1)}" "cg_next h \<le> a" using spec by auto
    note loop = normalize_loop_spec[OF _ this(1) refl refl, of 0 "length (cg_clients h1 a)", simplified]
    then have "untouched h h'"
      using spec \<open>cg_next h \<le> a\<close> h' Some by (auto simp: untouched_def intro: extends_trans)
    moreover have "signer_values h' cfg' = signer_values h1 cfg'"
      using loop h' Some by (simp add: signer_values_def split: option.split)
    moreover have "client_values h' cfg' = map client_Normalize (client_values h1 cfg')"
      using loop h' Some by (simp add: client_values_def)
    ultimately show ?thesis using spec by simp
  qed
  then show ?thesis using untouched_values[OF _ assms(2)] by (simp add: normalizeConfig_def)
qed

end
