(* ===== verification/Http_Json.thy ===== *)
theory Http_Json
  imports Orion_Prelude
begin

text \<open>
  \<open>internal/httpjson/httpjson.go\<close>: reading a bounded JSON document from an HTTP body.

  A body is the bytes it delivers and the error that ends it, if any (\<open>None\<close> for end of file). The
  JSON decoder of the standard library is the parameter \<open>json\<close>: decoding the next value from some
  bytes gives an error, or the value and what follows it; \<open>extra\<close> is the outcome of decoding once
  more.
\<close>

record 'e body =
  bd_bytes :: string
  bd_err :: "'e option"

datatype 'e json_error = NilBody | BodyTooLarge int | ReadFailed 'e | DecodeFailed 'e | ErrTrailingData

definition json_Read :: "'e body option \<Rightarrow> int \<Rightarrow> 'e json_error + string" where
  "json_Read r maxBytes =
     (case r of
        None \<Rightarrow> Inl NilBody
      | Some b \<Rightarrow>
          let raw = take (nat (maxBytes + 1)) (bd_bytes b) in
          if int (length (bd_bytes b)) < maxBytes + 1 \<and> bd_err b \<noteq> None
          then Inl (ReadFailed (the (bd_err b)))
          else if int (length raw) > maxBytes then Inl (BodyTooLarge maxBytes)
          else Inr raw)"

datatype extra = ExtraEOF | ExtraValue | ExtraError

record ('e, 'a) json_decoder =
  jd_value :: "string \<Rightarrow> 'e + 'a \<times> string"
  jd_extra :: "string \<Rightarrow> extra"

definition json_Decode ::
  "('e, 'a) json_decoder \<Rightarrow> 'e body option \<Rightarrow> int \<Rightarrow> 'e json_error + 'a" where
  "json_Decode json r maxBytes =
     (case json_Read r maxBytes of
        Inl err \<Rightarrow> Inl err
      | Inr raw \<Rightarrow>
          (case jd_value json raw of
             Inl err \<Rightarrow> Inl (DecodeFailed err)
           | Inr (dst, rest) \<Rightarrow>
               if jd_extra json rest \<noteq> ExtraEOF then Inl ErrTrailingData else Inr dst))"

text \<open>The whole body was read, without error and within the limit.\<close>

lemma json_Read_Inr:
  assumes "0 \<le> maxBytes"
  shows "json_Read r maxBytes = Inr raw \<longleftrightarrow>
    (\<exists>b. r = Some b \<and> bd_err b = None \<and> raw = bd_bytes b \<and> int (length raw) \<le> maxBytes)"
  using assms by (auto simp: json_Read_def Let_def min_def split: option.splits if_splits)

lemma json_Decode_Inr:
  assumes "0 \<le> maxBytes"
  shows "json_Decode json r maxBytes = Inr dst \<longleftrightarrow>
    (\<exists>b rest. r = Some b \<and> bd_err b = None \<and> int (length (bd_bytes b)) \<le> maxBytes \<and>
       jd_value json (bd_bytes b) = Inr (dst, rest) \<and> jd_extra json rest = ExtraEOF)"
proof -
  have "json_Decode json r maxBytes = Inr dst \<longleftrightarrow>
      (\<exists>raw rest. json_Read r maxBytes = Inr raw \<and> jd_value json raw = Inr (dst, rest) \<and>
         jd_extra json rest = ExtraEOF)"
    by (auto simp: json_Decode_def split: sum.splits if_splits)
  then show ?thesis unfolding json_Read_Inr[OF assms] by blast
qed

end
