(* ===== verification/Jwk_Remote.thy ===== *)
theory Jwk_Remote
  imports Jwk_Providers Http_Json Call_Bounds
begin

text \<open>
  \<open>jwk/remote.go\<close>: the provider that fetches its key set over HTTP, caches it, refreshes it behind
  a gate and serves it stale for a bounded time when refreshing fails.

  Calls of \<open>Key\<close> and \<open>Refresh\<close> run concurrently. Each critical section of the mutex and each
  operation on the gate channel is one step of \<open>rstep\<close>; a goroutine is a number with a program
  counter. The refresh counters are naturals: a \<open>uint64\<close> that grows by one per refresh does not wrap.
  \<open>err_is\<close> is \<open>errors.Is\<close> on the errors of the HTTP client and of contexts.
\<close>

subsection \<open>Configuration\<close>

definition defaultRefreshInterval :: duration where "defaultRefreshInterval = 10 * minute"
definition defaultMaxStale :: duration where "defaultMaxStale = hour"

record 'h remote_config =
  rc_URL :: string
  rc_HTTPClient :: "'h option"
  rc_RefreshInterval :: duration
  rc_MaxStale :: duration

type_synonym 'h remote_builder = "'h remote_config option"

definition rb_URL :: "'h remote_builder \<Rightarrow> string \<Rightarrow> 'h remote_builder" where
  "rb_URL b url = map_option (\<lambda>cfg. cfg\<lparr>rc_URL := TrimSpace url\<rparr>) b"

definition Remote :: "string list \<Rightarrow> 'h remote_builder" where
  "Remote urls =
     (let b = Some \<lparr>rc_URL = [], rc_HTTPClient = None, rc_RefreshInterval = 0, rc_MaxStale = 0\<rparr> in
      case urls of [] \<Rightarrow> b | url # _ \<Rightarrow> rb_URL b url)"

definition rb_HTTPClient :: "'h remote_builder \<Rightarrow> 'h option \<Rightarrow> 'h remote_builder" where
  "rb_HTTPClient b hc = map_option (\<lambda>cfg. cfg\<lparr>rc_HTTPClient := hc\<rparr>) b"

definition rb_RefreshEvery :: "'h remote_builder \<Rightarrow> duration \<Rightarrow> 'h remote_builder" where
  "rb_RefreshEvery b interval =
     map_option (\<lambda>cfg. if 0 < interval then cfg\<lparr>rc_RefreshInterval := interval\<rparr> else cfg) b"

definition rb_MaxStale :: "'h remote_builder \<Rightarrow> duration \<Rightarrow> 'h remote_builder" where
  "rb_MaxStale b maxStale =
     map_option (\<lambda>cfg. if 0 < maxStale then cfg\<lparr>rc_MaxStale := maxStale\<rparr> else cfg) b"

datatype remote_config_error = NilRemoteBuilder | JWKSURLRequired

text \<open>Errors of a refresh: no context, a context that ended while waiting for the gate, and what can go
  wrong with the request, the answer and its key set.\<close>

datatype 'e remote_error =
    NilContext | ContextEnded 'e | BadRequest 'e | FetchFailed 'e | UnexpectedStatus nat
  | DecodeJWKS "'e json_error" | NoUsableKeys | BadKeySet set_error

record ('h, 'e) remote_provider =
  rp_url :: string
  rp_httpClient :: 'h
  rp_refreshInterval :: duration
  rp_maxStale :: duration
  rp_keys :: key_map
  rp_expiresAt :: time
  rp_fetchedAt :: time
  rp_generation :: nat
  rp_refreshVersion :: nat
  rp_lastRefreshErr :: "'e remote_error option"
  rp_lastRefreshCanceledByCaller :: bool

text \<open>\<open>defaultClient\<close> is \<open>defaultRemoteHTTPClient()\<close>.\<close>

definition NewRemoteProvider ::
  "'h \<Rightarrow> 'h remote_config \<Rightarrow> remote_config_error + ('h, 'e) remote_provider" where
  "NewRemoteProvider defaultClient cfg =
     (let url = TrimSpace (rc_URL cfg) in
      if url = [] then Inl JWKSURLRequired
      else Inr
        \<lparr>rp_url = url,
         rp_httpClient = (case rc_HTTPClient cfg of None \<Rightarrow> defaultClient | Some hc \<Rightarrow> hc),
         rp_refreshInterval =
           (if rc_RefreshInterval cfg \<le> 0 then defaultRefreshInterval else rc_RefreshInterval cfg),
         rp_maxStale = (if rc_MaxStale cfg \<le> 0 then defaultMaxStale else rc_MaxStale cfg),
         rp_keys = Map.empty, rp_expiresAt = 0, rp_fetchedAt = 0, rp_generation = 0,
         rp_refreshVersion = 0, rp_lastRefreshErr = None, rp_lastRefreshCanceledByCaller = False\<rparr>)"

definition rb_Build ::
  "'h \<Rightarrow> 'h remote_builder \<Rightarrow> remote_config_error + ('h, 'e) remote_provider" where
  "rb_Build defaultClient b =
     (case b of None \<Rightarrow> Inl NilRemoteBuilder | Some cfg \<Rightarrow> NewRemoteProvider defaultClient cfg)"

definition rb_Must ::
  "'h \<Rightarrow> 'h remote_builder \<Rightarrow> remote_config_error panic + ('h, 'e) remote_provider" where
  "rb_Must defaultClient b = must (rb_Build defaultClient b)"

subsection \<open>Critical sections\<close>

record remote_snapshot =
  sn_key :: "decoded_key option"
  sn_fresh :: bool
  sn_staleOK :: bool
  sn_generation :: nat
  sn_refreshVersion :: nat

text \<open>\<open>found\<close> is \<open>sn_key \<noteq> None\<close>.\<close>

definition snapshot :: "('h, 'e) remote_provider \<Rightarrow> string \<Rightarrow> time \<Rightarrow> remote_snapshot" where
  "snapshot p kid now =
     \<lparr>sn_key = rp_keys p kid, sn_fresh = time_before now (rp_expiresAt p),
      sn_staleOK = (\<not> time_is_zero (rp_fetchedAt p) \<and>
        time_sub now (rp_fetchedAt p) \<le> rp_maxStale p),
      sn_generation = rp_generation p, sn_refreshVersion = rp_refreshVersion p\<rparr>"

text \<open>A context is \<open>nil\<close>, alive, or ended with its error.\<close>

datatype 'e ctx = NilCtx | AliveCtx | EndedCtx 'e

definition ctx_Err :: "'e ctx \<Rightarrow> 'e option" where
  "ctx_Err c = (case c of EndedCtx e \<Rightarrow> Some e | _ \<Rightarrow> None)"

text \<open>What the network answers to the request: it cannot be built, \<open>Do\<close> fails, or a status and what
  \<open>httpjson.Decode\<close> makes of the body.\<close>

datatype 'e fetch_outcome = NewRequestError 'e | DoError 'e | Response nat "'e json_error + key list"

text \<open>The network of a fetch: building a request, which gives its headers, sending it, and the decoder of key
  sets.\<close>

record 'e jwks_net =
  jn_new_request :: "string \<Rightarrow> string \<Rightarrow> 'e + (string \<rightharpoonup> string)"
  jn_do :: "string \<Rightarrow> string \<Rightarrow> (string \<rightharpoonup> string) \<Rightarrow> 'e + nat \<times> 'e body option"
  jn_json :: "('e, key list) json_decoder"

definition maxJWKSResponseBody :: int where "maxJWKSResponseBody = 1048576"

definition ask_jwks :: "'e jwks_net \<Rightarrow> string \<Rightarrow> 'e fetch_outcome" where
  "ask_jwks net url =
     (case jn_new_request net ''GET'' url of
        Inl err \<Rightarrow> NewRequestError err
      | Inr header \<Rightarrow>
          (case jn_do net ''GET'' url (header(''Accept'' \<mapsto> ''application/json'')) of
             Inl err \<Rightarrow> DoError err
           | Inr (status, body) \<Rightarrow> Response status (json_Decode (jn_json net) body maxJWKSResponseBody)))"

definition fetch ::
  "jwt_algs \<Rightarrow> 'e ctx \<Rightarrow> 'e fetch_outcome \<Rightarrow> 'e remote_error + key_map" where
  "fetch A c outcome =
     (case outcome of
        NewRequestError err \<Rightarrow> Inl (BadRequest err)
      | DoError err \<Rightarrow>
          (case ctx_Err c of Some ctxErr \<Rightarrow> Inl (FetchFailed ctxErr) | None \<Rightarrow> Inl (FetchFailed err))
      | Response status body \<Rightarrow>
          if status \<noteq> 200 then Inl (UnexpectedStatus status)
          else
            (case body of
               Inl err \<Rightarrow> Inl (DecodeJWKS err)
             | Inr items \<Rightarrow>
                 (case decodeSet A items of
                    Inl err \<Rightarrow> if err = NoKeys then Inl NoUsableKeys else Inl (BadKeySet err)
                  | Inr decoded \<Rightarrow> Inr decoded)))"

text \<open>\<open>errors.Is(err, ctxErr)\<close> through the wrapping of \<open>httpjson.Decode\<close> and of \<open>fetch\<close>.\<close>

definition json_is :: "('e \<Rightarrow> 'e \<Rightarrow> bool) \<Rightarrow> 'e json_error \<Rightarrow> 'e \<Rightarrow> bool" where
  "json_is err_is err ctxErr =
     (case err of ReadFailed e \<Rightarrow> err_is e ctxErr | DecodeFailed e \<Rightarrow> err_is e ctxErr | _ \<Rightarrow> False)"

definition remote_is :: "('e \<Rightarrow> 'e \<Rightarrow> bool) \<Rightarrow> 'e remote_error \<Rightarrow> 'e \<Rightarrow> bool" where
  "remote_is err_is err ctxErr =
     (case err of
        FetchFailed e \<Rightarrow> err_is e ctxErr
      | DecodeJWKS e \<Rightarrow> json_is err_is e ctxErr
      | BadRequest e \<Rightarrow> err_is e ctxErr
      | _ \<Rightarrow> False)"

text \<open>The part of \<open>refreshLocked\<close> after the fetch, under the mutex.\<close>

definition refresh_commit ::
  "('e \<Rightarrow> 'e \<Rightarrow> bool) \<Rightarrow> 'e ctx \<Rightarrow> time \<Rightarrow> 'e remote_error + key_map \<Rightarrow>
     ('h, 'e) remote_provider \<Rightarrow> ('h, 'e) remote_provider \<times> 'e remote_error option" where
  "refresh_commit err_is c now fetched p =
     (let err = (case fetched of Inl e \<Rightarrow> Some e | Inr _ \<Rightarrow> None);
          canceledByCaller =
            (case (err, ctx_Err c) of
               (Some e, Some ctxErr) \<Rightarrow> remote_is err_is e ctxErr
             | _ \<Rightarrow> False);
          p = p\<lparr>rp_refreshVersion := rp_refreshVersion p + 1, rp_lastRefreshErr := err,
                rp_lastRefreshCanceledByCaller := canceledByCaller\<rparr>;
          p = (case fetched of
                 Inl _ \<Rightarrow> p
               | Inr decoded \<Rightarrow>
                   p\<lparr>rp_keys := decoded, rp_fetchedAt := now,
                     rp_expiresAt := time_add now (rp_refreshInterval p),
                     rp_generation := rp_generation p + 1\<rparr>)
      in (p, err))"

text \<open>The decision of \<open>refreshIfUnchanged\<close> once the gate is held: return, or refresh.\<close>

datatype 'e decision = Return "'e remote_error option" | Refresh_now

definition refresh_decision ::
  "'e ctx \<Rightarrow> nat \<Rightarrow> nat \<Rightarrow> ('h, 'e) remote_provider \<Rightarrow> 'e decision" where
  "refresh_decision c generation refreshVersion p =
     (if rp_generation p \<noteq> generation then Return None
      else if rp_refreshVersion p \<noteq> refreshVersion then
        (if rp_lastRefreshCanceledByCaller p \<and> ctx_Err c = None then Refresh_now
         else Return (rp_lastRefreshErr p))
      else Refresh_now)"

text \<open>The end of \<open>Key\<close>: what it returns after \<open>refreshIfUnchanged\<close> returned \<open>err\<close>.\<close>

definition key_result ::
  "('h, 'e) remote_provider \<Rightarrow> string \<Rightarrow> string \<Rightarrow> 'e remote_error option \<Rightarrow> time \<Rightarrow>
     'e remote_error key_error + public_key" where
  "key_result p kid alg err now =
     (case err of
        Some e \<Rightarrow>
          let stale = snapshot p kid now in
          (case sn_key stale of
             Some key \<Rightarrow> if sn_staleOK stale then forAlgorithm key kid alg else Inl (ProviderError e)
           | None \<Rightarrow> Inl (ProviderError e))
      | None \<Rightarrow>
          let refreshed = snapshot p kid now in
          (case sn_key refreshed of
             None \<Rightarrow> Inl (ErrKeyNotFound kid)
           | Some key \<Rightarrow> forAlgorithm key kid alg))"

subsection \<open>The concurrent provider\<close>

text \<open>A call of \<open>Key\<close> keeps its first snapshot; a call of \<open>Refresh\<close> keeps nothing.\<close>

datatype job = KeyJob string string remote_snapshot | RefreshJob

datatype 'e pc =
    Idle
  | Waiting job
  | Locked job
  | Fetching job
  | Releasing job "'e remote_error option"
  | Returning job "'e remote_error option"
  | KeyDone string string "'e remote_error key_error + public_key"
  | RefreshDone "'e remote_error option"

definition key_begin ::
  "('h, 'e) remote_provider \<Rightarrow> string \<Rightarrow> string \<Rightarrow> time \<Rightarrow> 'e pc" where
  "key_begin p kid alg now =
     (let s = snapshot p kid now in
      case sn_key s of
        Some key \<Rightarrow>
          if sn_fresh s then KeyDone kid alg (forAlgorithm key kid alg) else Waiting (KeyJob kid alg s)
      | None \<Rightarrow> Waiting (KeyJob kid alg s))"

definition gate_entered :: "'e ctx \<Rightarrow> ('h, 'e) remote_provider \<Rightarrow> job \<Rightarrow> 'e pc" where
  "gate_entered c p job =
     (case job of
        RefreshJob \<Rightarrow> Fetching job
      | KeyJob kid alg s \<Rightarrow>
          (case refresh_decision c (sn_generation s) (sn_refreshVersion s) p of
             Return err \<Rightarrow> Releasing job err
           | Refresh_now \<Rightarrow> Fetching job))"

definition finish :: "('h, 'e) remote_provider \<Rightarrow> job \<Rightarrow> 'e remote_error option \<Rightarrow> time \<Rightarrow> 'e pc" where
  "finish p job err now =
     (case job of
        RefreshJob \<Rightarrow> RefreshDone err
      | KeyJob kid alg s \<Rightarrow> KeyDone kid alg (key_result p kid alg err now))"

text \<open>The whole system. \<open>rs_gate\<close> is the goroutine whose token is in the gate channel; \<open>rs_sets\<close> is a
  history variable: every key set that was ever installed.\<close>

record ('h, 'e) remote_system =
  rs_provider :: "('h, 'e) remote_provider"
  rs_gate :: "nat option"
  rs_now :: time
  rs_ctx :: "nat \<Rightarrow> 'e ctx"
  rs_pc :: "nat \<Rightarrow> 'e pc"
  rs_sets :: "key_map set"

abbreviation set_pc :: "('h, 'e) remote_system \<Rightarrow> nat \<Rightarrow> 'e pc \<Rightarrow> ('h, 'e) remote_system" where
  "set_pc s t x \<equiv> s\<lparr>rs_pc := (rs_pc s)(t := x)\<rparr>"

inductive rstep ::
  "jwt_algs \<Rightarrow> ('e \<Rightarrow> 'e \<Rightarrow> bool) \<Rightarrow> ('h, 'e) remote_system \<Rightarrow> ('h, 'e) remote_system \<Rightarrow> bool"
  for A err_is where
  tick: "0 \<le> d \<Longrightarrow> rstep A err_is s (s\<lparr>rs_now := rs_now s + d\<rparr>)"
| cancel: "rs_ctx s t = AliveCtx \<Longrightarrow>
    rstep A err_is s (s\<lparr>rs_ctx := (rs_ctx s)(t := EndedCtx e)\<rparr>)"
| call_key: "rs_pc s t = Idle \<Longrightarrow>
    rstep A err_is s (set_pc s t (key_begin (rs_provider s) kid alg (rs_now s)))"
| call_refresh: "rs_pc s t = Idle \<Longrightarrow> rstep A err_is s (set_pc s t (Waiting RefreshJob))"
| nil_context: "rs_pc s t = Waiting job \<Longrightarrow> rs_ctx s t = NilCtx \<Longrightarrow>
    rstep A err_is s (set_pc s t (Returning job (Some NilContext)))"
| enter_gate: "rs_pc s t = Waiting job \<Longrightarrow> rs_ctx s t \<noteq> NilCtx \<Longrightarrow> rs_gate s = None \<Longrightarrow>
    rstep A err_is s (set_pc s t (Locked job)\<lparr>rs_gate := Some t\<rparr>)"
| give_up: "rs_pc s t = Waiting job \<Longrightarrow> rs_ctx s t = EndedCtx e \<Longrightarrow>
    rstep A err_is s (set_pc s t (Returning job (Some (ContextEnded e))))"
| decide: "rs_pc s t = Locked job \<Longrightarrow>
    rstep A err_is s (set_pc s t (gate_entered (rs_ctx s t) (rs_provider s) job))"
| fetched: "rs_pc s t = Fetching job \<Longrightarrow> fetch A (rs_ctx s t) outcome = r \<Longrightarrow>
    refresh_commit err_is (rs_ctx s t) (rs_now s) r (rs_provider s) = (p', err) \<Longrightarrow>
    rstep A err_is s (set_pc s t (Releasing job err)
      \<lparr>rs_provider := p', rs_sets := (case r of Inl _ \<Rightarrow> rs_sets s | Inr m \<Rightarrow> insert m (rs_sets s))\<rparr>)"
| leave_gate: "rs_pc s t = Releasing job err \<Longrightarrow>
    rstep A err_is s (set_pc s t (Returning job err)\<lparr>rs_gate := None\<rparr>)"
| return: "rs_pc s t = Returning job err \<Longrightarrow>
    rstep A err_is s (set_pc s t (finish (rs_provider s) job err (rs_now s)))"

text \<open>A provider starts with no keys, at a time after the zero time, with nothing running.\<close>

definition initial_system :: "('h, 'e) remote_provider \<Rightarrow> time \<Rightarrow> (nat \<Rightarrow> 'e ctx) \<Rightarrow> ('h, 'e) remote_system" where
  "initial_system p now ctxs =
     \<lparr>rs_provider = p, rs_gate = None, rs_now = now, rs_ctx = ctxs, rs_pc = (\<lambda>_. Idle), rs_sets = {}\<rparr>"

inductive reachable ::
  "jwt_algs \<Rightarrow> ('e \<Rightarrow> 'e \<Rightarrow> bool) \<Rightarrow> ('h, 'e) remote_system \<Rightarrow> bool" for A err_is where
  start: "NewRemoteProvider hc cfg = Inr p \<Longrightarrow> 0 < now \<Longrightarrow> reachable A err_is (initial_system p now ctxs)"
| step: "reachable A err_is s \<Longrightarrow> rstep A err_is s s' \<Longrightarrow> reachable A err_is s'"

subsection \<open>Invariants\<close>

text \<open>A goroutine is inside the gate while it decides, fetches and releases.\<close>

fun holding :: "'e pc \<Rightarrow> bool" where
  "holding (Locked job) = True"
| "holding (Fetching job) = True"
| "holding (Releasing job err) = True"
| "holding _ = False"

text \<open>A snapshot is never ahead of the provider. If no refresh happened since, no new set was
  installed; if refreshes happened but none installed a set, the last one failed.\<close>

definition snapshot_ok :: "('h, 'e) remote_provider \<Rightarrow> remote_snapshot \<Rightarrow> bool" where
  "snapshot_ok p s \<longleftrightarrow> sn_generation s \<le> rp_generation p \<and> sn_refreshVersion s \<le> rp_refreshVersion p \<and>
     (sn_refreshVersion s = rp_refreshVersion p \<longrightarrow> sn_generation s = rp_generation p) \<and>
     (sn_generation s = rp_generation p \<and> sn_refreshVersion s < rp_refreshVersion p \<longrightarrow>
        rp_lastRefreshErr p \<noteq> None)"

fun job_ok :: "('h, 'e) remote_provider \<Rightarrow> job \<Rightarrow> bool" where
  "job_ok p (KeyJob kid alg s) = snapshot_ok p s"
| "job_ok p RefreshJob = True"

text \<open>A refresh that is reported as successful installed a set after the call's snapshot.\<close>

fun newer :: "('h, 'e) remote_provider \<Rightarrow> job \<Rightarrow> bool" where
  "newer p (KeyJob kid alg s) = (sn_generation s < rp_generation p)"
| "newer p RefreshJob = True"

fun pc_ok :: "('h, 'e) remote_provider \<Rightarrow> key_map set \<Rightarrow> 'e pc \<Rightarrow> bool" where
  "pc_ok p sets (Waiting job) = job_ok p job"
| "pc_ok p sets (Locked job) = job_ok p job"
| "pc_ok p sets (Fetching job) = job_ok p job"
| "pc_ok p sets (Releasing job err) = (job_ok p job \<and> (err = None \<longrightarrow> newer p job))"
| "pc_ok p sets (Returning job err) = (job_ok p job \<and> (err = None \<longrightarrow> newer p job))"
| "pc_ok p sets (KeyDone kid alg r) =
     (\<forall>pk. r = Inr pk \<longrightarrow> (\<exists>m\<in>sets. \<exists>d. m kid = Some d \<and>
        forAlgorithm d kid alg = (Inr pk :: 'e remote_error key_error + public_key)))"
| "pc_ok p sets _ = True"

text \<open>The cached set is the last one installed; its times are consistent with the clock.\<close>

definition provider_ok ::
  "jwt_algs \<Rightarrow> key_map set \<Rightarrow> time \<Rightarrow> ('h, 'e) remote_provider \<Rightarrow> bool" where
  "provider_ok A sets now p \<longleftrightarrow> 0 < now \<and> 0 < rp_refreshInterval p \<and> 0 < rp_maxStale p \<and>
     (\<forall>m\<in>sets. keys_trusted A m) \<and>
     (if rp_generation p = 0
      then rp_keys p = Map.empty \<and> rp_fetchedAt p = 0 \<and> rp_expiresAt p = 0
      else rp_keys p \<in> sets \<and> 0 < rp_fetchedAt p \<and> rp_fetchedAt p \<le> now \<and>
        rp_expiresAt p = rp_fetchedAt p + rp_refreshInterval p)"

definition system_ok :: "jwt_algs \<Rightarrow> ('h, 'e) remote_system \<Rightarrow> bool" where
  "system_ok A s \<longleftrightarrow> provider_ok A (rs_sets s) (rs_now s) (rs_provider s) \<and>
     (\<forall>t. pc_ok (rs_provider s) (rs_sets s) (rs_pc s t)) \<and>
     (\<forall>t. holding (rs_pc s t) \<longleftrightarrow> rs_gate s = Some t)"

lemma snapshot_ok_snapshot: "snapshot_ok p (snapshot p kid now)"
  by (simp add: snapshot_ok_def snapshot_def)

lemma snapshot_simps [simp]:
  "sn_key (snapshot p kid now) = rp_keys p kid"
  "sn_generation (snapshot p kid now) = rp_generation p"
  "sn_refreshVersion (snapshot p kid now) = rp_refreshVersion p"
  by (simp_all add: snapshot_def)

lemma fetch_trusted: "fetch A c outcome = Inr m \<Longrightarrow> keys_trusted A m"
  by (auto simp: fetch_def dest: decodeSet_trusted split: fetch_outcome.splits option.splits
      sum.splits if_splits)

lemma refresh_commit_Inl:
  "refresh_commit err_is c now (Inl e) p = (p', err) \<Longrightarrow> err = Some e \<and>
     p' = p\<lparr>rp_refreshVersion := rp_refreshVersion p + 1, rp_lastRefreshErr := Some e,
       rp_lastRefreshCanceledByCaller :=
         (case ctx_Err c of None \<Rightarrow> False | Some ctxErr \<Rightarrow> remote_is err_is e ctxErr)\<rparr>"
  by (auto simp: refresh_commit_def Let_def split: option.splits)

lemma refresh_commit_Inr:
  "refresh_commit err_is c now (Inr m) p = (p', err) \<Longrightarrow> err = None \<and>
     p' = p\<lparr>rp_refreshVersion := rp_refreshVersion p + 1, rp_lastRefreshErr := None,
       rp_lastRefreshCanceledByCaller := False, rp_keys := m, rp_fetchedAt := now,
       rp_expiresAt := now + rp_refreshInterval p, rp_generation := rp_generation p + 1\<rparr>"
  by (auto simp: refresh_commit_def time_add_def Let_def)

lemma snapshot_ok_commit:
  assumes "refresh_commit err_is c now r p = (p', err)" "snapshot_ok p s"
  shows "snapshot_ok p' s \<and> (err = None \<longrightarrow> sn_generation s < rp_generation p')"
proof (cases r)
  case (Inl e)
  then show ?thesis
    using refresh_commit_Inl[of err_is c now e p p' err] assms by (auto simp: snapshot_ok_def)
next
  case (Inr m)
  then show ?thesis
    using refresh_commit_Inr[of err_is c now m p p' err] assms by (auto simp: snapshot_ok_def)
qed

lemma job_ok_commit:
  "refresh_commit err_is c now r p = (p', err) \<Longrightarrow> job_ok p job \<Longrightarrow>
     job_ok p' job \<and> (err = None \<longrightarrow> newer p' job)"
  using snapshot_ok_commit[of err_is c now r p p' err] by (cases job) auto

lemma generation_commit:
  "refresh_commit err_is c now r p = (p', err) \<Longrightarrow> rp_generation p \<le> rp_generation p'"
  by (auto simp: refresh_commit_def Let_def split: sum.splits)

lemma newer_commit:
  "refresh_commit err_is c now r p = (p', err) \<Longrightarrow> newer p job \<Longrightarrow> newer p' job"
  using generation_commit[of err_is c now r p p' err] by (cases job) auto

lemma pc_ok_commit:
  fixes x :: "'b pc"
  assumes "refresh_commit err_is c now r p = (p', err)" "sets \<subseteq> sets'" "pc_ok p sets x"
  shows "pc_ok p' sets' x"
proof (cases x)
  case (KeyDone kid alg res)
  show ?thesis
  proof (simp only: KeyDone pc_ok.simps, intro allI impI)
    fix pk assume "res = Inr pk"
    with assms(3) KeyDone obtain m d where "m \<in> sets" "m kid = Some d"
      "forAlgorithm d kid alg = (Inr pk :: 'b remote_error key_error + public_key)" by auto
    then show "\<exists>m\<in>sets'. \<exists>d. m kid = Some d \<and>
        forAlgorithm d kid alg = (Inr pk :: 'b remote_error key_error + public_key)"
      using assms(2) by (intro bexI[of _ m] exI[of _ d] conjI) auto
  qed
qed (use assms(3) job_ok_commit[OF assms(1)] newer_commit[OF assms(1)] in auto)

lemma provider_ok_commit:
  assumes "provider_ok A sets now p" "fetch A c outcome = r"
    and "refresh_commit err_is c now r p = (p', err)"
  shows "provider_ok A (case r of Inl _ \<Rightarrow> sets | Inr m \<Rightarrow> insert m sets) now p'"
proof (cases r)
  case (Inl e)
  then show ?thesis
    using refresh_commit_Inl[of err_is c now e p p' err] assms by (simp add: provider_ok_def)
next
  case (Inr m)
  then show ?thesis
    using refresh_commit_Inr[of err_is c now m p p' err] assms fetch_trusted[of A c outcome m]
    by (auto simp: provider_ok_def)
qed

text \<open>Whatever a call returns comes from the cached set.\<close>

lemma found_in_sets: "provider_ok A sets now p \<Longrightarrow> rp_keys p kid = Some d \<Longrightarrow> rp_keys p \<in> sets"
  by (auto simp: provider_ok_def split: if_splits)

lemma key_result_Inr:
  fixes p :: "('h, 'e) remote_provider"
  assumes "key_result p kid alg err now = Inr pk"
  obtains d where "rp_keys p kid = Some d"
    "forAlgorithm d kid alg = (Inr pk :: 'e remote_error key_error + public_key)"
    "err = None \<or> sn_staleOK (snapshot p kid now)"
  using assms by (auto simp: key_result_def Let_def split: option.splits if_splits)

lemma key_begin_ok:
  assumes "provider_ok A sets now p"
  shows "pc_ok p sets (key_begin p kid alg now)" "\<not> holding (key_begin p kid alg now)"
  using found_in_sets[OF assms] snapshot_ok_snapshot[of p kid now]
  by (auto simp: key_begin_def Let_def split: option.split)

lemma gate_entered_ok:
  assumes "job_ok p job"
  shows "pc_ok p sets (gate_entered c p job)" "holding (gate_entered c p job)"
proof -
  show "holding (gate_entered c p job)"
    by (auto simp: gate_entered_def split: job.split decision.split)
  show "pc_ok p sets (gate_entered c p job)"
  proof (cases job)
    case (KeyJob kid alg s)
    have ok: "snapshot_ok p s" using assms KeyJob by simp
    then have "err = None \<longrightarrow> newer p job"
      if "refresh_decision c (sn_generation s) (sn_refreshVersion s) p = Return err" for err
      using that by (auto simp: KeyJob refresh_decision_def snapshot_ok_def simp del: not_None_eq
          split: if_splits)
    then show ?thesis
      using ok by (simp add: KeyJob gate_entered_def split: decision.split)
  qed (simp add: gate_entered_def)
qed

lemma finish_ok:
  fixes p :: "('h, 'b) remote_provider"
  assumes "provider_ok A sets now p"
  shows "pc_ok p sets (finish p job err now)" "\<not> holding (finish p job err now)"
proof -
  show "\<not> holding (finish p job err now)" by (cases job) (auto simp: finish_def)
  show "pc_ok p sets (finish p job err now)"
  proof (cases job)
    case (KeyJob kid alg s)
    show ?thesis
    proof (simp only: KeyJob finish_def job.case pc_ok.simps, intro allI impI)
      fix pk assume "key_result p kid alg err now = Inr pk"
      then obtain d where "rp_keys p kid = Some d"
        "forAlgorithm d kid alg = (Inr pk :: 'b remote_error key_error + public_key)"
        by (rule key_result_Inr)
      then show "\<exists>m\<in>sets. \<exists>d. m kid = Some d \<and>
          forAlgorithm d kid alg = (Inr pk :: 'b remote_error key_error + public_key)"
        using found_in_sets[OF assms] by (intro bexI[of _ "rp_keys p"] exI[of _ d] conjI)
    qed
  qed (simp add: finish_def)
qed

lemma system_ok_initial:
  assumes "NewRemoteProvider hc cfg = Inr p" "0 < now"
  shows "system_ok A (initial_system p now ctxs)"
  using assms
  by (auto simp: NewRemoteProvider_def Let_def system_ok_def initial_system_def provider_ok_def
      defaultRefreshInterval_def defaultMaxStale_def minute_def hour_def second_def split: if_splits)

text \<open>A step that only moves one goroutine.\<close>

lemma system_ok_set_pc:
  assumes "system_ok A s" "pc_ok (rs_provider s) (rs_sets s) x" "holding x = holding (rs_pc s t)"
  shows "system_ok A (set_pc s t x)"
  using assms by (auto simp: system_ok_def)

lemma system_ok_gate:
  assumes "system_ok A s" "pc_ok (rs_provider s) (rs_sets s) x"
    and "\<And>u. u \<noteq> t \<Longrightarrow> (rs_gate s = Some u) = (g = Some u)" "holding x = (g = Some t)"
  shows "system_ok A (set_pc s t x\<lparr>rs_gate := g\<rparr>)"
  using assms by (auto simp: system_ok_def)

lemma system_okD:
  assumes "system_ok A s"
  shows "provider_ok A (rs_sets s) (rs_now s) (rs_provider s)"
    "pc_ok (rs_provider s) (rs_sets s) (rs_pc s t)" "holding (rs_pc s t) \<longleftrightarrow> rs_gate s = Some t"
  using assms by (auto simp: system_ok_def)

lemma system_ok_fetched:
  assumes ok: "system_ok A s" and pc: "rs_pc s t = Fetching job"
    and r: "fetch A (rs_ctx s t) outcome = r"
    and commit: "refresh_commit err_is (rs_ctx s t) (rs_now s) r (rs_provider s) = (p', err)"
  shows "system_ok A (set_pc s t (Releasing job err)
    \<lparr>rs_provider := p', rs_sets := (case r of Inl _ \<Rightarrow> rs_sets s | Inr m \<Rightarrow> insert m (rs_sets s))\<rparr>)"
proof -
  let ?sets = "case r of Inl _ \<Rightarrow> rs_sets s | Inr m \<Rightarrow> insert m (rs_sets s)"
  have sub: "rs_sets s \<subseteq> ?sets" by (auto split: sum.split)
  have "pc_ok p' ?sets (rs_pc s u)" for u
    by (rule pc_ok_commit[OF commit sub system_okD(2)[OF ok]])
  moreover have "pc_ok p' ?sets (Releasing job err)"
    using job_ok_commit[OF commit, of job] system_okD(2)[OF ok, of t] pc by simp
  moreover have "provider_ok A ?sets (rs_now s) p'"
    by (rule provider_ok_commit[OF system_okD(1)[OF ok] r commit])
  moreover have "rs_gate s = Some t" using system_okD(3)[OF ok, of t] pc by simp
  ultimately show ?thesis
    using system_okD(3)[OF ok] by (auto simp: system_ok_def)
qed

lemma system_ok_step:
  assumes "rstep A err_is s s'" "system_ok A s"
  shows "system_ok A s'"
  using assms(1)
proof cases
  case (tick d)
  then show ?thesis using assms(2) by (auto simp: system_ok_def provider_ok_def)
next
  case (cancel t e)
  then show ?thesis using assms(2) by (auto simp: system_ok_def)
next
  case (call_key t kid alg)
  then show ?thesis
    using key_begin_ok[OF system_okD(1)[OF assms(2)]] by (auto intro!: system_ok_set_pc assms(2))
next
  case (call_refresh t)
  then show ?thesis by (auto intro!: system_ok_set_pc assms(2))
next
  case (nil_context t job)
  then show ?thesis
    using system_okD(2)[OF assms(2), of t] by (auto intro!: system_ok_set_pc assms(2))
next
  case (enter_gate t job)
  then show ?thesis
    using system_okD(2)[OF assms(2), of t] by (auto intro!: system_ok_gate assms(2))
next
  case (give_up t job e)
  then show ?thesis
    using system_okD(2)[OF assms(2), of t] by (auto intro!: system_ok_set_pc assms(2))
next
  case (decide t job)
  then show ?thesis
    using system_okD(2)[OF assms(2), of t] gate_entered_ok[of "rs_provider s" job]
    by (auto intro!: system_ok_set_pc assms(2))
next
  case (fetched t job outcome r p' err)
  then show ?thesis using system_ok_fetched[OF assms(2)] by blast
next
  case (leave_gate t job err)
  then have "rs_gate s = Some t" using system_okD(3)[OF assms(2), of t] by simp
  then show ?thesis
    using system_okD(2)[OF assms(2), of t] leave_gate
    by (auto intro!: system_ok_gate assms(2))
next
  case (return t job err)
  then show ?thesis
    using finish_ok[OF system_okD(1)[OF assms(2)], of job err]
    by (auto intro!: system_ok_set_pc assms(2))
qed

theorem reachable_ok: "reachable A err_is s \<Longrightarrow> system_ok A s"
  by (induction rule: reachable.induct) (auto intro: system_ok_initial system_ok_step)

text \<open>The remote provider keeps the contract of a key provider in every reachable state: it serves
  entries of installed key sets only.\<close>

interpretation remote: key_provider A "\<lambda>s. \<exists>err_is. reachable A err_is s"
  "\<lambda>s kid d. \<exists>m\<in>rs_sets s. m kid = Some d" "\<lambda>s kid alg r. \<exists>t. rs_pc s t = KeyDone kid alg r" for A
proof
  show "key_trusted A d"
    if "\<exists>err_is. reachable A err_is s" "\<exists>m\<in>rs_sets s. m kid = Some d"
    for s :: "('h, 'e) remote_system" and kid d
  proof -
    from that(1) have "provider_ok A (rs_sets s) (rs_now s) (rs_provider s)"
      using system_okD(1)[OF reachable_ok] by blast
    with that(2) show ?thesis by (auto simp: provider_ok_def dest: keys_trustedD)
  qed
  show "\<exists>d. (\<exists>m\<in>rs_sets s. m kid = Some d) \<and>
      forAlgorithm d kid alg = (Inr pk :: 'e remote_error key_error + public_key)"
    if reach: "\<exists>err_is. reachable A err_is s" and "\<exists>t. rs_pc s t = KeyDone kid alg (Inr pk)"
    for s :: "('h, 'e) remote_system" and kid alg pk
  proof -
    from that(2) obtain t where t: "rs_pc s t = KeyDone kid alg (Inr pk)" by blast
    have "pc_ok (rs_provider s) (rs_sets s) (rs_pc s t)"
      using reach system_okD(2)[OF reachable_ok] by blast
    then show ?thesis unfolding t by auto
  qed
qed

text \<open>One fetch at a time.\<close>

lemma one_holder:
  assumes "reachable A err_is s" "holding (rs_pc s t)" "holding (rs_pc s u)"
  shows "t = u"
  using reachable_ok[OF assms(1)] assms(2,3) by (simp add: system_ok_def)

text \<open>The system is never stuck while a call is under way: some call can make a step of its own.\<close>

fun active :: "'e pc \<Rightarrow> bool" where
  "active Idle = False"
| "active (KeyDone kid alg r) = False"
| "active (RefreshDone err) = False"
| "active _ = True"

lemma holder_moves:
  assumes "holding (rs_pc s t)"
  shows "\<exists>s'. rstep A err_is s s' \<and> rs_pc s' t \<noteq> rs_pc s t"
proof -
  consider job where "rs_pc s t = Locked job" | job where "rs_pc s t = Fetching job"
    | job err where "rs_pc s t = Releasing job err"
    using assms by (cases "rs_pc s t") auto
  then show ?thesis
  proof cases
    case 1
    then have "gate_entered c p job \<noteq> rs_pc s t" for c and p :: "('b, 'a) remote_provider"
      by (auto simp: gate_entered_def split: job.split decision.split)
    with rstep.decide[OF 1] show ?thesis by (intro exI conjI) auto
  next
    case 2
    obtain p' err where c: "refresh_commit err_is (rs_ctx s t) (rs_now s)
        (fetch A (rs_ctx s t) (Response 0 (Inr []))) (rs_provider s) = (p', err)"
      by (cases "refresh_commit err_is (rs_ctx s t) (rs_now s)
        (fetch A (rs_ctx s t) (Response 0 (Inr []))) (rs_provider s)")
    show ?thesis using rstep.fetched[OF 2 refl c] 2 by (intro exI conjI) auto
  next
    case 3
    show ?thesis using rstep.leave_gate[OF 3] 3 by (intro exI conjI) auto
  qed
qed

lemma progress:
  assumes "reachable A err_is s" "active (rs_pc s t)"
  shows "\<exists>s' u. rstep A err_is s s' \<and> active (rs_pc s u) \<and> rs_pc s' u \<noteq> rs_pc s u"
proof (cases "\<exists>u. holding (rs_pc s u)")
  case True
  then obtain u where u: "holding (rs_pc s u)" by blast
  then have "active (rs_pc s u)" by (cases "rs_pc s u") auto
  with holder_moves[OF u, of A err_is] show ?thesis by blast
next
  case False
  then have gate: "rs_gate s = None"
    using reachable_ok[OF assms(1)] by (auto simp: system_ok_def)
  have "\<not> holding (rs_pc s t)" using False by blast
  with assms(2) consider job where "rs_pc s t = Waiting job"
    | job err where "rs_pc s t = Returning job err"
    by (cases "rs_pc s t") auto
  then show ?thesis
  proof cases
    case 1
    show ?thesis
    proof (cases "rs_ctx s t = NilCtx")
      case True
      from rstep.nil_context[OF 1 this] 1 show ?thesis
        by (intro exI[of _ t] exI conjI) auto
    next
      case False
      from rstep.enter_gate[OF 1 this gate] 1 show ?thesis
        by (intro exI[of _ t] exI conjI) auto
    qed
  next
    case 2
    have "finish p job err now \<noteq> rs_pc s t" for p :: "('b, 'a) remote_provider" and now
      by (cases job) (auto simp: 2 finish_def)
    with rstep.return[OF 2, of A err_is] 2 show ?thesis
      by (intro exI[of _ t] exI conjI) auto
  qed
qed

subsection \<open>Properties\<close>

text \<open>When a call of \<open>Key\<close> returns a key, that key is the cached one.\<close>

lemma returns_cached_key:
  fixes s :: "('h, 'e) remote_system"
  assumes "reachable A err_is s" "rstep A err_is s s'"
    and "rs_pc s t \<noteq> KeyDone kid alg (Inr pk)" "rs_pc s' t = KeyDone kid alg (Inr pk)"
  shows "\<exists>d. rp_keys (rs_provider s) kid = Some d \<and>
    forAlgorithm d kid alg = (Inr pk :: 'e remote_error key_error + public_key) \<and>
    (rs_now s < rp_expiresAt (rs_provider s) \<or> sn_staleOK (snapshot (rs_provider s) kid (rs_now s)) \<or>
     (\<exists>sn. rs_pc s t = Returning (KeyJob kid alg sn) None))"
  using assms(2)
proof cases
  case (call_key u kid' alg')
  then have "key_begin (rs_provider s) kid' alg' (rs_now s) = KeyDone kid alg (Inr pk)"
    using assms(3,4) by (auto split: if_splits)
  then show ?thesis
    by (auto simp: key_begin_def Let_def snapshot_def time_before_def split: option.splits if_splits)
next
  case (decide u job)
  then have "gate_entered (rs_ctx s t) (rs_provider s) job = KeyDone kid alg (Inr pk)"
    using assms(3,4) by (auto split: if_splits)
  then show ?thesis by (auto simp: gate_entered_def split: job.splits decision.splits)
next
  case (return u job err)
  then have u: "u = t" and "finish (rs_provider s) job err (rs_now s) = KeyDone kid alg (Inr pk)"
    using assms(3,4) by (auto split: if_splits)
  then obtain sn where job: "job = KeyJob kid alg sn" and
    res: "key_result (rs_provider s) kid alg err (rs_now s) = Inr pk"
    by (cases job) (auto simp: finish_def)
  from res obtain d where d: "rp_keys (rs_provider s) kid = Some d"
    "forAlgorithm d kid alg = (Inr pk :: 'e remote_error key_error + public_key)"
    "err = None \<or> sn_staleOK (snapshot (rs_provider s) kid (rs_now s))"
    by (rule key_result_Inr)
  from d(3) have "sn_staleOK (snapshot (rs_provider s) kid (rs_now s)) \<or>
      (\<exists>sn. rs_pc s t = Returning (KeyJob kid alg sn) None)"
    using return u job by auto
  with d show ?thesis by blast
qed (use assms(3,4) in \<open>auto split: if_splits\<close>)

text \<open>C6: a served key is never too old: it is in the cached set and allowed for the algorithm, and the
  set has not reached its refresh time, or was fetched at most \<open>maxStale\<close> ago, or was installed after
  this very call began.\<close>

theorem remote_key_fresh_enough:
  fixes s :: "('h, 'e) remote_system"
  assumes "reachable A err_is s" "rstep A err_is s s'" "rp_maxStale (rs_provider s) < max_int64"
    and "rs_pc s t \<noteq> KeyDone kid alg (Inr pk)" "rs_pc s' t = KeyDone kid alg (Inr pk)"
  shows "\<exists>d. rp_keys (rs_provider s) kid = Some d \<and>
    forAlgorithm d kid alg = (Inr pk :: 'e remote_error key_error + public_key) \<and> key_trusted A d \<and>
    (rs_now s < rp_fetchedAt (rs_provider s) + rp_refreshInterval (rs_provider s) \<or>
     rs_now s - rp_fetchedAt (rs_provider s) \<le> rp_maxStale (rs_provider s) \<or>
     (\<exists>sn. rs_pc s t = Returning (KeyJob kid alg sn) None \<and>
        sn_generation sn < rp_generation (rs_provider s)))"
proof -
  let ?p = "rs_provider s"
  have ok: "provider_ok A (rs_sets s) (rs_now s) ?p" by (rule system_okD(1)[OF reachable_ok[OF assms(1)]])
  obtain d where d: "rp_keys ?p kid = Some d"
    "forAlgorithm d kid alg = (Inr pk :: 'e remote_error key_error + public_key)"
    "rs_now s < rp_expiresAt ?p \<or> sn_staleOK (snapshot ?p kid (rs_now s)) \<or>
     (\<exists>sn. rs_pc s t = Returning (KeyJob kid alg sn) None)"
    using returns_cached_key[OF assms(1,2,4,5)] by blast
  have installed: "rp_keys ?p \<in> rs_sets s" by (rule found_in_sets[OF ok d(1)])
  then have trusted: "key_trusted A d" using ok d(1) by (auto simp: provider_ok_def dest: keys_trustedD)
  have expires: "rp_expiresAt ?p = rp_fetchedAt ?p + rp_refreshInterval ?p"
    using ok d(1) by (auto simp: provider_ok_def split: if_splits)
  have "rs_now s - rp_fetchedAt ?p \<le> rp_maxStale ?p" if "sn_staleOK (snapshot ?p kid (rs_now s))"
    using that time_sub_le[OF assms(3)] ok by (simp add: snapshot_def provider_ok_def min_int64_def)
  moreover have "sn_generation sn < rp_generation ?p"
    if "rs_pc s t = Returning (KeyJob kid alg sn) None" for sn
    using system_okD(2)[OF reachable_ok[OF assms(1)], of t] that by simp
  ultimately show ?thesis using d trusted unfolding expires by blast
qed

text \<open>C22: refreshing is single-flight: in every reachable state at most one call is fetching.\<close>

theorem remote_single_fetch:
  assumes "reachable A err_is s" "rs_pc s t = Fetching j" "rs_pc s u = Fetching k"
  shows "t = u"
  using one_holder[OF assms(1), of t u] assms(2,3) by simp

text \<open>C23: the provider does not deadlock: while any call is under way, in every reachable state some
  call can take a step of its own, whatever the clock, the contexts and the network do.\<close>

theorem remote_no_deadlock:
  assumes "reachable A err_is s" "active (rs_pc s t)"
  shows "\<exists>s' u. rstep A err_is s s' \<and> active (rs_pc s u) \<and> rs_pc s' u \<noteq> rs_pc s u"
  using assms by (rule progress)


definition demo_remote :: "(unit, string) remote_provider" where
  "demo_remote = \<lparr>rp_url = ''u'', rp_httpClient = (), rp_refreshInterval = 10 * minute,
     rp_maxStale = hour, rp_keys = Map.empty, rp_expiresAt = 0, rp_fetchedAt = 0, rp_generation = 0,
     rp_refreshVersion = 0, rp_lastRefreshErr = None, rp_lastRefreshCanceledByCaller = False\<rparr>"

lemma demo_remote_new:
  "NewRemoteProvider () \<lparr>rc_URL = ''u'', rc_HTTPClient = None, rc_RefreshInterval = 0, rc_MaxStale = 0\<rparr> =
     Inr demo_remote"
proof -
  have "TrimSpace ''u'' = ''u''" by code_simp
  then show ?thesis
    by (simp add: NewRemoteProvider_def demo_remote_def defaultRefreshInterval_def defaultMaxStale_def)
qed


text \<open>One call from an empty cache: it waits, enters the gate, fetches, leaves and returns the key.\<close>

definition demo_job :: job where
  "demo_job = KeyJob ''r1'' ''RS256'' (snapshot demo_remote ''r1'' 1)"

definition demo_loaded :: "(unit, string) remote_provider" where
  "demo_loaded = demo_remote\<lparr>rp_refreshVersion := 1, rp_keys := decoded_map demo_items,
     rp_fetchedAt := 1, rp_expiresAt := 1 + 10 * minute, rp_generation := 1\<rparr>"

definition demo_state ::
  "(unit, string) remote_provider \<Rightarrow> key_map set \<Rightarrow> nat option \<Rightarrow> string pc \<Rightarrow>
     (unit, string) remote_system" where
  "demo_state p sets g x = \<lparr>rs_provider = p, rs_gate = g, rs_now = 1, rs_ctx = (\<lambda>_. AliveCtx),
     rs_pc = (\<lambda>_. Idle)(0 := x), rs_sets = sets\<rparr>"

lemma demo_waiting: "reachable demo_algs (=) (demo_state demo_remote {} None (Waiting demo_job))"
proof -
  have "reachable demo_algs (=) (initial_system demo_remote 1 (\<lambda>_. AliveCtx))"
    by (rule reachable.start[OF demo_remote_new]) simp
  then have "reachable demo_algs (=) (set_pc (initial_system demo_remote 1 (\<lambda>_. AliveCtx)) 0
      (key_begin demo_remote ''r1'' ''RS256'' 1))"
    using rstep.call_key[of "initial_system demo_remote 1 (\<lambda>_. AliveCtx)" 0 demo_algs "(=)" "''r1''" "''RS256''"]
    by (auto simp: initial_system_def intro: reachable.step)
  moreover have "key_begin demo_remote ''r1'' ''RS256'' 1 = (Waiting demo_job :: string pc)"
    by (simp add: key_begin_def demo_job_def) (simp add: demo_remote_def)
  ultimately show ?thesis by (simp add: initial_system_def demo_state_def)
qed

lemma demo_fetching: "reachable demo_algs (=) (demo_state demo_remote {} (Some 0) (Fetching demo_job))"
proof -
  have "rstep demo_algs (=) (demo_state demo_remote {} None (Waiting demo_job))
      (demo_state demo_remote {} (Some 0) (Locked demo_job))"
    using rstep.enter_gate[of "demo_state demo_remote {} None (Waiting demo_job)" 0 demo_job demo_algs "(=)"]
    by (simp add: demo_state_def)
  note locked = reachable.step[OF demo_waiting this]
  have "gate_entered AliveCtx demo_remote demo_job = Fetching demo_job"
    by (simp add: gate_entered_def demo_job_def refresh_decision_def)
  then have "rstep demo_algs (=) (demo_state demo_remote {} (Some 0) (Locked demo_job))
      (demo_state demo_remote {} (Some 0) (Fetching demo_job))"
    using rstep.decide[of "demo_state demo_remote {} (Some 0) (Locked demo_job)" 0 demo_job demo_algs "(=)"]
    by (simp add: demo_state_def)
  from reachable.step[OF locked this] show ?thesis .
qed

lemma demo_returning:
  "reachable demo_algs (=) (demo_state demo_loaded {decoded_map demo_items} None (Returning demo_job None))"
proof -
  let ?f = "demo_state demo_remote {} (Some 0) (Fetching demo_job)"
  have "rstep demo_algs (=) ?f
      (demo_state demo_loaded {decoded_map demo_items} (Some 0) (Releasing demo_job None))"
    using rstep.fetched[of ?f 0 demo_job demo_algs "Response 200 (Inr demo_items)"
        "Inr (decoded_map demo_items)" "(=)" demo_loaded None]
    by (simp add: demo_state_def fetch_def demo_decodeSet refresh_commit_def time_add_def demo_loaded_def
        demo_remote_def)
  note releasing = reachable.step[OF demo_fetching this]
  have "rstep demo_algs (=) (demo_state demo_loaded {decoded_map demo_items} (Some 0) (Releasing demo_job None))
      (demo_state demo_loaded {decoded_map demo_items} None (Returning demo_job None))"
    using rstep.leave_gate[of "demo_state demo_loaded {decoded_map demo_items} (Some 0) (Releasing demo_job None)"
        0 demo_job None demo_algs "(=)"]
    by (simp add: demo_state_def)
  from reachable.step[OF releasing this] show ?thesis .
qed

theorem remote_key_fresh_enough_witness:
  "\<exists>d. rp_keys demo_loaded ''r1'' = Some d \<and> key_trusted demo_algs d \<and>
    forAlgorithm d ''r1'' ''RS256'' = (Inr (RSAPublicKey 65537 65537) :: string remote_error key_error + public_key)"
proof -
  let ?s = "demo_state demo_loaded {decoded_map demo_items} None (Returning demo_job None)"
  let ?done = "KeyDone ''r1'' ''RS256'' (Inr (RSAPublicKey 65537 65537)) :: string pc"
  have keys: "rp_keys demo_loaded = decoded_map demo_items" by (simp add: demo_loaded_def)
  have "finish demo_loaded demo_job None 1 = ?done"
    by (simp add: finish_def demo_job_def key_result_def keys demo_decoded forAlgorithm_def)
  then have "rstep demo_algs (=) ?s (demo_state demo_loaded {decoded_map demo_items} None ?done)"
    using rstep.return[of ?s 0 demo_job None demo_algs "(=)"] by (simp add: demo_state_def)
  from remote_key_fresh_enough[OF demo_returning this, of 0 "''r1''" "''RS256''" "RSAPublicKey 65537 65537"]
  show ?thesis
    by (auto simp: demo_state_def demo_loaded_def demo_remote_def max_int64_def hour_def minute_def
        second_def)
qed

theorem remote_single_fetch_witness:
  "{u. rs_pc (demo_state demo_remote {} (Some 0) (Fetching demo_job)) u = Fetching demo_job} = {0}"
proof (intro equalityI subsetI; unfold mem_Collect_eq singleton_iff)
  have pc0: "rs_pc (demo_state demo_remote {} (Some 0) (Fetching demo_job)) 0 = Fetching demo_job"
    by (simp add: demo_state_def)
  show "u = 0" if "rs_pc (demo_state demo_remote {} (Some 0) (Fetching demo_job)) u = Fetching demo_job" for u
    by (rule remote_single_fetch[OF demo_fetching that pc0])
  show "rs_pc (demo_state demo_remote {} (Some 0) (Fetching demo_job)) u = Fetching demo_job" if "u = 0" for u
    unfolding that by (rule pc0)
qed

theorem remote_no_deadlock_witness:
  "\<exists>s' u. rstep demo_algs (=) (demo_state demo_remote {} None (Waiting demo_job)) s' \<and>
    active (rs_pc (demo_state demo_remote {} None (Waiting demo_job)) u) \<and>
    rs_pc s' u \<noteq> rs_pc (demo_state demo_remote {} None (Waiting demo_job)) u"
  by (rule remote_no_deadlock[OF demo_waiting, of 0]) (simp add: demo_state_def)

subsection \<open>Calls end\<close>

fun steps_left :: "'e pc \<Rightarrow> nat" where
  "steps_left (Waiting job) = 5"
| "steps_left (Locked job) = 4"
| "steps_left (Fetching job) = 3"
| "steps_left (Releasing job err) = 2"
| "steps_left (Returning job err) = 1"
| "steps_left _ = 0"

lemma steps_left_begin: "steps_left (key_begin p kid alg now) \<le> 5"
  by (auto simp: key_begin_def Let_def split: option.splits)

lemma steps_left_gate: "steps_left (gate_entered c p job) < 4"
  by (auto simp: gate_entered_def split: job.splits decision.splits)

lemma steps_left_finish [simp]: "steps_left (finish p job err now) = 0"
  by (auto simp: finish_def split: job.splits)

lemma rstep_ranks:
  assumes "rstep A err_is s s'"
  shows "\<exists>t x. rs_pc s' = (rs_pc s)(t := x) \<and> (x = rs_pc s t \<or> rs_pc s t = Idle \<and> steps_left x \<le> 5 \<or>
    rs_pc s t \<noteq> Idle \<and> steps_left x < steps_left (rs_pc s t))"
  using assms
proof cases
  case (tick d)
  then show ?thesis by (intro exI[of _ 0] exI[of _ "rs_pc s 0"]) simp
next
  case (cancel t e)
  then show ?thesis by (intro exI[of _ t] exI[of _ "rs_pc s t"]) simp
next
  case (call_key t kid alg)
  then show ?thesis
    by (intro exI[of _ t] exI[of _ "key_begin (rs_provider s) kid alg (rs_now s)"]) (simp add: steps_left_begin)
next
  case (decide t job)
  then show ?thesis
    using steps_left_gate[of "rs_ctx s t" "rs_provider s" job]
    by (intro exI[of _ t] exI[of _ "gate_entered (rs_ctx s t) (rs_provider s) job"]) simp
next
  case (call_refresh t)
  then show ?thesis by (intro exI[of _ t] exI[of _ "Waiting RefreshJob"]) simp
next
  case (nil_context t job)
  then show ?thesis by (intro exI[of _ t] exI[of _ "Returning job (Some NilContext)"]) simp
next
  case (enter_gate t job)
  then show ?thesis by (intro exI[of _ t] exI[of _ "Locked job"]) simp
next
  case (give_up t job e)
  then show ?thesis by (intro exI[of _ t] exI[of _ "Returning job (Some (ContextEnded e))"]) simp
next
  case (fetched t job outcome r p' err)
  then show ?thesis by (intro exI[of _ t] exI[of _ "Releasing job err"]) simp
next
  case (leave_gate t job err)
  then show ?thesis by (intro exI[of _ t] exI[of _ "Returning job err"]) simp
next
  case (return t job err)
  then show ?thesis by (intro exI[of _ t] exI[of _ "finish (rs_provider s) job err (rs_now s)"]) simp
qed

interpretation remote_calls: ranked_calls "rstep A err_is" rs_pc Idle steps_left 5 for A err_is
  by unfold_locales (simp, rule rstep_ranks)



end
