(* ===== verification/Server_Http.thy ===== *)
theory Server_Http
  imports Server_Config
begin

text \<open>
  \<open>server/http.go\<close>: the HTTP handlers of the authorization server.

  A request is what the handlers read of it: the method, the outcome of \<open>ParseForm\<close> under the
  body limit (\<open>None\<close> when it fails, otherwise \<open>Form\<close> and \<open>PostForm\<close>), and the credentials
  \<open>BasicAuth\<close> finds. A response is the status, the headers that were set and the value encoded as
  JSON.
\<close>

type_synonym vals = "string \<Rightarrow> string list"

definition Get :: "vals \<Rightarrow> string \<Rightarrow> string" where
  "Get v key = (case v key of [] \<Rightarrow> [] | x # _ \<Rightarrow> x)"

record http_request =
  hr_Method :: string
  hr_ParseForm :: "int \<Rightarrow> (vals \<times> vals) option"
  hr_BasicAuth :: "(string \<times> string) option"

datatype payload =
    OAuthErrorBody string string
  | TokenBody token_response
  | ErrorBody string
  | JWKSBody "key list"
  | DiscoveryBody string string string "string list" "string list" "string list" "string list"
  | StatusBody string string

record http_response =
  ht_status :: nat
  ht_header :: "string \<rightharpoonup> string"
  ht_body :: payload

definition MethodPost :: string where "MethodPost = ''POST''"
definition MethodGet :: string where "MethodGet = ''GET''"
definition StatusMethodNotAllowed :: nat where "StatusMethodNotAllowed = 405"

definition writeJSON :: "(string \<rightharpoonup> string) \<Rightarrow> nat \<Rightarrow> payload \<Rightarrow> http_response" where
  "writeJSON header status payload =
     \<lparr>ht_status = status,
      ht_header = header(''Content-Type'' \<mapsto> ''application/json; charset=utf-8''),
      ht_body = payload\<rparr>"

definition writeOAuthError :: "(string \<rightharpoonup> string) \<Rightarrow> nat \<Rightarrow> string \<Rightarrow> string \<Rightarrow> http_response" where
  "writeOAuthError header status code description =
     writeJSON header status (OAuthErrorBody code description)"

fun firstNonEmpty :: "string list \<Rightarrow> string" where
  "firstNonEmpty [] = []"
| "firstNonEmpty (val # vals) =
     (let val = TrimSpace val in if val \<noteq> [] then val else firstNonEmpty vals)"

text \<open>The request the handler puts together from the form and the credentials.\<close>

definition token_request_of :: "(string \<times> string) option \<Rightarrow> vals \<Rightarrow> vals \<Rightarrow> token_request" where
  "token_request_of basic form postForm =
     (let (clientID, clientSecret) =
            (case basic of
               Some credentials \<Rightarrow> credentials
             | None \<Rightarrow> (Get postForm ''client_id'', Get postForm ''client_secret'')) in
      \<lparr>rq_grantType = Get form ''grant_type'', rq_clientID = TrimSpace clientID,
       rq_clientSecret = clientSecret,
       rq_audience = firstNonEmpty [Get form ''audience'', Get form ''resource''],
       rq_scopes = NormalizeScopes [Get form ''scope'']\<rparr>)"

definition TokenHTTP ::
  "(string \<Rightarrow> string) \<Rightarrow> (time \<Rightarrow> time) \<Rightarrow> ('s \<Rightarrow> string \<Rightarrow> 'e store_error + client) \<Rightarrow>
     ('s, 'e, 'c) server \<Rightarrow> time \<Rightarrow> 'e + string \<Rightarrow> http_request \<Rightarrow> http_response" where
  "TokenHTTP sha256 numeric_date find_client s now random r =
     (if hr_Method r \<noteq> MethodPost
      then writeOAuthError [''Allow'' \<mapsto> MethodPost] StatusMethodNotAllowed ''invalid_request''
             ''method not allowed''
      else
        (case hr_ParseForm r (sv_maxTokenRequestBody s) of
           None \<Rightarrow> writeOAuthError Map.empty StatusBadRequest ''invalid_request'' ''invalid form body''
         | Some (form, postForm) \<Rightarrow>
             (case issue sha256 numeric_date (find_any find_client) (sv_tokens s) now random
                     (token_request_of (hr_BasicAuth r) form postForm) of
                Inl (OAuthError status code description) \<Rightarrow>
                  let header = (if code = ''invalid_client''
                                then [''WWW-Authenticate'' \<mapsto> ''Basic realm=\"orionis\"'']
                                else Map.empty) in
                  writeOAuthError header status code description
              | Inl _ \<Rightarrow>
                  writeOAuthError Map.empty StatusInternalServerError ''server_error''
                    ''cannot issue token''
              | Inr response \<Rightarrow>
                  writeJSON [''Cache-Control'' \<mapsto> ''no-store'', ''Pragma'' \<mapsto> ''no-cache''] StatusOK
                    (TokenBody response))))"

text \<open>\<open>nil\<close> signers have been rejected by \<open>validateConfig\<close>, so every entry has a public key.\<close>

definition JWKSHTTP :: "('s, 'e, 'c) server \<Rightarrow> http_request \<Rightarrow> http_response" where
  "JWKSHTTP s r =
     (if hr_Method r \<noteq> MethodGet
      then writeJSON [''Allow'' \<mapsto> MethodGet] StatusMethodNotAllowed (ErrorBody ''method_not_allowed'')
      else
        writeJSON [''Cache-Control'' \<mapsto> ''public, max-age=300''] StatusOK
          (JWKSBody (map (\<lambda>signer. sg_PublicJWK (the signer)) (sv_signers s))))"

definition DiscoveryHTTP :: "('s, 'e, 'c) server \<Rightarrow> http_request \<Rightarrow> http_response" where
  "DiscoveryHTTP s r =
     (if hr_Method r \<noteq> MethodGet
      then writeJSON [''Allow'' \<mapsto> MethodGet] StatusMethodNotAllowed (ErrorBody ''method_not_allowed'')
      else
        writeJSON Map.empty StatusOK
          (DiscoveryBody (sv_issuer s) (TokenEndpoint s) (JWKSURI s) [''client_credentials'']
             [''client_secret_basic'', ''client_secret_post''] [''token'']
             [sg_Algorithm (sv_activeSigner s)]))"

definition HealthHTTP :: "('s, 'e, 'c) server \<Rightarrow> http_request \<Rightarrow> http_response" where
  "HealthHTTP s r = writeJSON Map.empty StatusOK (StatusBody ''ok'' ''orionis-auth'')"

subsection \<open>What the endpoints answer\<close>

lemma writeJSON_simps [simp]:
  "ht_status (writeJSON h st p) = st" "ht_body (writeJSON h st p) = p"
  "ht_header (writeJSON h st p) = h(''Content-Type'' \<mapsto> ''application/json; charset=utf-8'')"
  by (simp_all add: writeJSON_def)

lemma token_request_of_clean: "clean (rq_scopes (token_request_of basic form postForm))"
  by (simp add: token_request_of_def Let_def split: prod.split)

lemma firstNonEmpty_trim: "TrimSpace (firstNonEmpty vs) = firstNonEmpty vs"
  by (induction vs) (simp_all add: Let_def)

lemma token_request_of_trimmed:
  "TrimSpace (rq_clientID (token_request_of basic form postForm)) =
     rq_clientID (token_request_of basic form postForm)"
  "TrimSpace (rq_audience (token_request_of basic form postForm)) =
     rq_audience (token_request_of basic form postForm)"
  by (simp_all add: token_request_of_def firstNonEmpty_trim Let_def
      del: firstNonEmpty.simps split: prod.split)

text \<open>A success body is only ever written for an issued token.\<close>

lemma TokenHTTP_TokenBody:
  assumes "ht_body (TokenHTTP sha256 numeric_date fc s now random r) = TokenBody resp"
  shows "hr_Method r = MethodPost \<and>
    ht_status (TokenHTTP sha256 numeric_date fc s now random r) = StatusOK \<and>
    ht_header (TokenHTTP sha256 numeric_date fc s now random r) ''Cache-Control'' = Some ''no-store'' \<and>
    (\<exists>form postForm. hr_ParseForm r (sv_maxTokenRequestBody s) = Some (form, postForm) \<and>
      issue sha256 numeric_date (find_any fc) (sv_tokens s) now random
        (token_request_of (hr_BasicAuth r) form postForm) = Inr resp)"
  using assms
  by (auto simp: TokenHTTP_def writeOAuthError_def Let_def
      split: if_splits option.splits sum.splits issue_error.splits)

text \<open>The store of a server that was built from a list of clients keeps the contract.\<close>

definition memory_only :: "'s + memory_store \<Rightarrow> bool" where
  "memory_only store = (case store of Inl _ \<Rightarrow> False | Inr m \<Rightarrow> store_ok m)"

definition upsert_any :: "'s + memory_store \<Rightarrow> client \<Rightarrow> 's + memory_store" where
  "upsert_any store c = (case store of Inl s \<Rightarrow> Inl s | Inr m \<Rightarrow> Inr (Upsert m c))"

interpretation server_store: client_store memory_only "Inr Map.empty" upsert_any "find_any fc"
  for fc :: "'s \<Rightarrow> string \<Rightarrow> 'e store_error + client"
proof
  show "c_ID c = TrimSpace cid \<and> c_ID c \<noteq> [] \<and> \<not> c_Disabled c \<and> client_Normalize c = c"
    if "memory_only s" "find_any fc s cid = Inr c" for s cid c
    using that memory.found[of _ cid c]
    by (auto simp: memory_only_def find_any_def split: sum.splits)
qed (auto simp: memory_only_def find_any_def upsert_any_def memory.inv_new memory.inv_insert
    memory.find_new memory.find_insert memory.find_insert_other memory.insert_no_id
    split: sum.splits)

lemma TokenHTTP_authorised:
  assumes "memory_only (ts_store (sv_tokens s))"
    and "ht_body (TokenHTTP sha256 numeric_date fc s now random r) = TokenBody resp"
  shows "\<exists>request c cl. find_any fc (ts_store (sv_tokens s)) (rq_clientID request) = Inr c \<and>
    \<not> c_Disabled c \<and> c_ID c = rq_clientID request \<and>
    VerifySecret sha256 c (rq_clientSecret request) \<and>
    sg_Sign (ts_signer (sv_tokens s)) cl = Inr (tr_AccessToken resp) \<and> tr_Scope resp = cl_Scope cl \<and>
    authorised c request cl"
proof -
  obtain form postForm where
    "issue sha256 numeric_date (find_any fc) (sv_tokens s) now random
       (token_request_of (hr_BasicAuth r) form postForm) = Inr resp"
    using TokenHTTP_TokenBody[OF assms(2)] by blast
  from server_store.issued_token[OF assms(1) token_request_of_clean this]
  show ?thesis unfolding token_request_of_trimmed by blast
qed

text \<open>Failed authentication looks the same whatever its cause, so that the answer does not tell a
  caller which client ids exist.\<close>

definition login_fails ::
  "(string \<Rightarrow> string) \<Rightarrow> ('s \<Rightarrow> string \<Rightarrow> 'e store_error + client) \<Rightarrow> ('s, 'e, 'c) server \<Rightarrow>
     http_request \<Rightarrow> bool" where
  "login_fails sha256 fc s r \<longleftrightarrow> hr_Method r = MethodPost \<and>
     (\<exists>form postForm. hr_ParseForm r (sv_maxTokenRequestBody s) = Some (form, postForm) \<and>
        Get form ''grant_type'' = ''client_credentials'' \<and>
        (let request = token_request_of (hr_BasicAuth r) form postForm in
         \<exists>err. err \<in> {ErrUnauthorized, ErrClientNotFound} \<and>
           authenticate sha256 (find_any fc) (ts_store (sv_tokens s)) (rq_clientID request)
             (rq_clientSecret request) = Inl err))"

lemma token_request_of_grant:
  "rq_grantType (token_request_of basic form postForm) = Get form ''grant_type''"
  by (simp add: token_request_of_def Let_def split: prod.split)

lemma login_fails_response:
  assumes "login_fails sha256 fc s r"
  shows "TokenHTTP sha256 numeric_date fc s now random r =
    writeOAuthError [''WWW-Authenticate'' \<mapsto> ''Basic realm=\"orionis\"''] StatusUnauthorized
      ''invalid_client'' ''invalid client credentials''"
  using assms
  by (auto simp: login_fails_def TokenHTTP_def issue_def newOAuthError_def token_request_of_grant
      Let_def)

subsection \<open>Properties\<close>


definition demo_form :: vals where
  "demo_form key = (if key = ''grant_type'' then [''client_credentials''] else
     if key = ''audience'' then ['' sms''] else if key = ''scope'' then [''sms.send.otp''] else [])"

definition demo_post :: "string \<Rightarrow> string \<Rightarrow> http_request" where
  "demo_post cid secret = \<lparr>hr_Method = ''POST'', hr_ParseForm = (\<lambda>_. Some (demo_form, (\<lambda>_. []))),
     hr_BasicAuth = Some (cid, secret)\<rparr>"

lemma demo_token_request:
  "token_request_of (Some (''svc'', ''s3cret'')) demo_form (\<lambda>_. []) = demo_request"
  by code_simp

lemma demo_find:
  "find_any fc (ts_store (sv_tokens demo_server)) ''svc'' =
     (Inr (client_Normalize demo_client) :: unit store_error + client)"
  using demo_lookup
  by (simp add: demo_server_def server_of_def demo_config_def zero_config_def find_any_def
      demo_service_def NewMemoryClientStore_def Upsert_def)

lemma demo_TokenHTTP:
  "ht_body (TokenHTTP id (\<lambda>t. t - t mod second) fc demo_server 0 (Inr ''0123456789abcdef'')
     (demo_post ''svc'' ''s3cret'')) = TokenBody demo_response"
proof -
  have "issue id (\<lambda>t. t - t mod second) (find_any fc) (sv_tokens demo_server) 0
      (Inr ''0123456789abcdef'') demo_request = Inr demo_response"
    by (rule demo_issue_any[where find_client = "find_any fc", OF demo_find])
      (simp_all add: demo_server_def server_of_def demo_config_def zero_config_def
        normalizeConfig_def defaultAccessTokenTTL_def)
  then show ?thesis
    by (simp add: TokenHTTP_def demo_post_def MethodPost_def demo_token_request)
qed



lemma demo_login_fails:
  assumes "TrimSpace cid = ''svc'' \<and> \<not> VerifySecret id (client_Normalize demo_client) secret \<or>
    TrimSpace cid = []"
  shows "login_fails id fc demo_server (demo_post cid secret)"
  using assms demo_find[of fc]
  by (auto simp: login_fails_def demo_post_def MethodPost_def demo_form_def Get_def Let_def
      token_request_of_def authenticate_def)


end
