(* ===== verification/Verifier.thy ===== *)
theory Verifier
  imports Jwk_Providers
begin

text \<open>
  \<open>verifier.go\<close>: the configuration of a verifier and the verification of an access token.

  The JWT library is the parameter \<open>parse\<close>, \<open>ParseWithClaims\<close> on a parser with the given options at
  the given time; it calls the key function back with the token's key id and algorithm. What it
  documents is \<open>jwt_laws\<close>, stated over the parts of a token it exposes (\<open>jwt_view\<close>). A key provider
  is its \<open>Key\<close> method at the moment of the call.
\<close>

record 'q verifier =
  v_issuer :: string
  v_audience :: string
  v_provider :: "(string \<Rightarrow> string \<Rightarrow> 'q + public_key) option"
  v_leeway :: duration
  v_validAlgs :: "string list"
  v_requireUse :: string

definition DefaultAlgorithms :: "jwt_algs \<Rightarrow> string list" where
  "DefaultAlgorithms A = [EdDSA A, RS256 A, PS256 A, ES256 A]"

definition NewVerifier :: "jwt_algs \<Rightarrow> 'q verifier option" where
  "NewVerifier A =
     Some \<lparr>v_issuer = [], v_audience = [], v_provider = None, v_leeway = 30 * second,
       v_validAlgs = DefaultAlgorithms A, v_requireUse = TokenUseAccess\<rparr>"

definition v_Issuer :: "'q verifier option \<Rightarrow> string \<Rightarrow> 'q verifier option" where
  "v_Issuer v issuer =
     map_option (\<lambda>v. v\<lparr>v_issuer := TrimRight (TrimSpace issuer) (CHR ''/'')\<rparr>) v"

definition v_Audience :: "'q verifier option \<Rightarrow> string \<Rightarrow> 'q verifier option" where
  "v_Audience v audience = map_option (\<lambda>v. v\<lparr>v_audience := TrimSpace audience\<rparr>) v"

definition v_KeyProvider ::
  "'q verifier option \<Rightarrow> (string \<Rightarrow> string \<Rightarrow> 'q + public_key) option \<Rightarrow> 'q verifier option" where
  "v_KeyProvider v provider = map_option (\<lambda>v. v\<lparr>v_provider := provider\<rparr>) v"

definition v_Keys ::
  "'q verifier option \<Rightarrow> (string \<Rightarrow> string \<Rightarrow> 'q + public_key) option \<Rightarrow> 'q verifier option" where
  "v_Keys v provider = v_KeyProvider v provider"

definition v_Leeway :: "'q verifier option \<Rightarrow> duration \<Rightarrow> 'q verifier option" where
  "v_Leeway v leeway = map_option (\<lambda>v. v\<lparr>v_leeway := leeway\<rparr>) v"

definition v_Algorithms :: "'q verifier option \<Rightarrow> string list \<Rightarrow> 'q verifier option" where
  "v_Algorithms v algs = map_option (\<lambda>v. v\<lparr>v_validAlgs := Normalize algs\<rparr>) v"

definition v_TokenUse :: "'q verifier option \<Rightarrow> string \<Rightarrow> 'q verifier option" where
  "v_TokenUse v tokenUse = map_option (\<lambda>v. v\<lparr>v_requireUse := TrimSpace tokenUse\<rparr>) v"

definition WithoutTokenUseCheck :: "'q verifier option \<Rightarrow> 'q verifier option" where
  "WithoutTokenUseCheck v = v_TokenUse v []"

definition VerifierFor ::
  "jwt_algs \<Rightarrow> string \<Rightarrow> string \<Rightarrow> (string \<Rightarrow> string \<Rightarrow> 'q + public_key) option \<Rightarrow> 'q verifier option" where
  "VerifierFor A issuer audience provider =
     v_KeyProvider (v_Audience (v_Issuer (NewVerifier A) issuer) audience) provider"

subsection \<open>The JWT library\<close>

record parser_options =
  po_expirationRequired :: bool
  po_issuedAt :: bool
  po_validMethods :: "string list"
  po_issuer :: "string option"
  po_audience :: "string option"
  po_leeway :: "duration option"

datatype 'q keyfunc_error = KeyMissingKid | KeyProviderFailed 'q

type_synonym 'q keyfunc = "string option \<Rightarrow> string \<Rightarrow> 'q keyfunc_error + public_key"

text \<open>The parsed token (\<open>None\<close> for a \<open>nil\<close> token, otherwise its \<open>Valid\<close> flag) and the claims.\<close>

type_synonym ('q, 'j) jwt_parser =
  "time \<Rightarrow> parser_options \<Rightarrow> string \<Rightarrow> 'q keyfunc \<Rightarrow> 'j + bool option \<times> claims"

text \<open>The parts of a token: the \<open>kid\<close> header when it is a string, the algorithm, the payload when it
  decodes, and whether the signature verifies under an algorithm and a key.\<close>

record jwt_view =
  jv_kid :: "string \<Rightarrow> string option"
  jv_alg :: "string \<Rightarrow> string"
  jv_claims :: "string \<Rightarrow> claims option"
  jv_signature :: "string \<Rightarrow> string \<Rightarrow> public_key \<Rightarrow> bool"

definition leeway_of :: "parser_options \<Rightarrow> duration" where
  "leeway_of po = (case po_leeway po of None \<Rightarrow> 0 | Some d \<Rightarrow> d)"

text \<open>The documented validation of the registered claims.\<close>

definition claims_accepted :: "parser_options \<Rightarrow> time \<Rightarrow> claims \<Rightarrow> bool" where
  "claims_accepted po now cl \<longleftrightarrow>
     (case cl_ExpiresAt cl of
        None \<Rightarrow> \<not> po_expirationRequired po | Some ex \<Rightarrow> now < ex + leeway_of po) \<and>
     (case cl_NotBefore cl of None \<Rightarrow> True | Some nbf \<Rightarrow> nbf - leeway_of po \<le> now) \<and>
     (po_issuedAt po \<longrightarrow>
        (case cl_IssuedAt cl of None \<Rightarrow> True | Some iat \<Rightarrow> iat - leeway_of po \<le> now)) \<and>
     (case po_audience po of None \<Rightarrow> True | Some aud \<Rightarrow> aud \<in> set (cl_Audience cl)) \<and>
     (case po_issuer po of None \<Rightarrow> True | Some iss \<Rightarrow> cl_Issuer cl = iss)"

definition jwt_laws :: "jwt_view \<Rightarrow> ('q, 'j) jwt_parser \<Rightarrow> bool" where
  "jwt_laws J parse \<longleftrightarrow> (\<forall>now po token keyfunc cl.
     parse now po token keyfunc = Inr (Some True, cl) \<longleftrightarrow>
       jv_claims J token = Some cl \<and> jv_alg J token \<in> set (po_validMethods po) \<and>
       (case keyfunc (jv_kid J token) (jv_alg J token) of
          Inl _ \<Rightarrow> False | Inr pk \<Rightarrow> jv_signature J token (jv_alg J token) pk) \<and>
       claims_accepted po now cl)"

subsection \<open>Verify\<close>

definition valid_algs :: "jwt_algs \<Rightarrow> 'q verifier \<Rightarrow> string list" where
  "valid_algs A v =
     (if length (v_validAlgs v) = 0 then DefaultAlgorithms A else v_validAlgs v)"

definition options_of :: "jwt_algs \<Rightarrow> 'q verifier \<Rightarrow> parser_options" where
  "options_of A v =
     \<lparr>po_expirationRequired = True, po_issuedAt = True, po_validMethods = valid_algs A v,
      po_issuer = (if v_issuer v \<noteq> [] then Some (v_issuer v) else None),
      po_audience = (if v_audience v \<noteq> [] then Some (v_audience v) else None),
      po_leeway = (if 0 < v_leeway v then Some (v_leeway v) else None)\<rparr>"

text \<open>The key function; a header without a string \<open>kid\<close> reads as the empty string.\<close>

definition key_function :: "(string \<Rightarrow> string \<Rightarrow> 'q + public_key) \<Rightarrow> 'q keyfunc" where
  "key_function provider header_kid alg =
     (let kid = (case header_kid of None \<Rightarrow> [] | Some kid \<Rightarrow> kid) in
      if TrimSpace kid = [] then Inl KeyMissingKid
      else (case provider kid alg of Inl err \<Rightarrow> Inl (KeyProviderFailed err) | Inr pk \<Rightarrow> Inr pk))"

definition Verify ::
  "('q, 'j) jwt_parser \<Rightarrow> jwt_algs \<Rightarrow> time \<Rightarrow> 'q verifier option \<Rightarrow> string \<Rightarrow>
     'j token_error + verified_token" where
  "Verify parse A now v tokenString =
     (if TrimSpace tokenString = [] then Inl ErrMissingToken
      else
        (case v of
           None \<Rightarrow> Inl (ErrInvalidToken NilVerifier)
         | Some v \<Rightarrow>
             (case v_provider v of
                None \<Rightarrow> Inl (ErrInvalidToken NilKeyProvider)
              | Some provider \<Rightarrow>
                  (case parse now (options_of A v) tokenString (key_function provider) of
                     Inl err \<Rightarrow> Inl (ErrInvalidToken (ParseFailed err))
                   | Inr (token, claims) \<Rightarrow>
                       if token = None \<or> token = Some False then Inl (ErrInvalidToken NotValid)
                       else if v_requireUse v \<noteq> [] \<and> cl_TokenUse claims \<noteq> v_requireUse v
                       then Inl (ErrInvalidToken (UnexpectedTokenUse (cl_TokenUse claims)))
                       else if cl_Subject claims = [] \<or> cl_ClientID claims = []
                       then Inl (ErrInvalidToken MissingServiceIdentity)
                       else Inr \<lparr>vt_Raw = tokenString, vt_Claims = claims\<rparr>))))"

subsection \<open>What a verified token is\<close>

text \<open>The tokens a verifier accepts, written without the code's control flow.\<close>

definition acceptable ::
  "jwt_view \<Rightarrow> jwt_algs \<Rightarrow> time \<Rightarrow> 'q verifier \<Rightarrow> string \<Rightarrow> claims \<Rightarrow> bool" where
  "acceptable J A now v token cl \<longleftrightarrow>
     TrimSpace token \<noteq> [] \<and> jv_claims J token = Some cl \<and> jv_alg J token \<in> set (valid_algs A v) \<and>
     (\<exists>provider kid pk. v_provider v = Some provider \<and> jv_kid J token = Some kid \<and>
        TrimSpace kid \<noteq> [] \<and> provider kid (jv_alg J token) = Inr pk \<and>
        jv_signature J token (jv_alg J token) pk) \<and>
     (\<exists>ex. cl_ExpiresAt cl = Some ex \<and> now < ex + max 0 (v_leeway v)) \<and>
     (\<forall>t. cl_NotBefore cl = Some t \<or> cl_IssuedAt cl = Some t \<longrightarrow> t - max 0 (v_leeway v) \<le> now) \<and>
     (v_issuer v \<noteq> [] \<longrightarrow> cl_Issuer cl = v_issuer v) \<and>
     (v_audience v \<noteq> [] \<longrightarrow> v_audience v \<in> set (cl_Audience cl)) \<and>
     (v_requireUse v \<noteq> [] \<longrightarrow> cl_TokenUse cl = v_requireUse v) \<and>
     cl_Subject cl \<noteq> [] \<and> cl_ClientID cl \<noteq> []"

lemma key_function_Inr:
  "key_function provider header_kid alg = Inr pk \<longleftrightarrow>
     (\<exists>kid. header_kid = Some kid \<and> TrimSpace kid \<noteq> [] \<and> provider kid alg = Inr pk)"
  by (auto simp: key_function_def Let_def split: option.splits sum.splits)

lemma leeway_options [simp]: "leeway_of (options_of A v) = max 0 (v_leeway v)"
  by (simp add: leeway_of_def options_of_def max_def)

lemma options_simps [simp]:
  "po_expirationRequired (options_of A v)" "po_issuedAt (options_of A v)"
  "po_validMethods (options_of A v) = valid_algs A v"
  "po_issuer (options_of A v) = (if v_issuer v \<noteq> [] then Some (v_issuer v) else None)"
  "po_audience (options_of A v) = (if v_audience v \<noteq> [] then Some (v_audience v) else None)"
  by (simp_all add: options_of_def)

lemma claims_accepted_options:
  "claims_accepted (options_of A v) now cl \<longleftrightarrow>
     (\<exists>ex. cl_ExpiresAt cl = Some ex \<and> now < ex + max 0 (v_leeway v)) \<and>
     (\<forall>t. cl_NotBefore cl = Some t \<or> cl_IssuedAt cl = Some t \<longrightarrow> t - max 0 (v_leeway v) \<le> now) \<and>
     (v_issuer v \<noteq> [] \<longrightarrow> cl_Issuer cl = v_issuer v) \<and>
     (v_audience v \<noteq> [] \<longrightarrow> v_audience v \<in> set (cl_Audience cl))"
  unfolding claims_accepted_def by (simp split: option.split) blast

lemma jwt_lawsD:
  "jwt_laws J parse \<Longrightarrow> parse now po token keyfunc = Inr (Some True, cl) \<longleftrightarrow>
     jv_claims J token = Some cl \<and> jv_alg J token \<in> set (po_validMethods po) \<and>
     (case keyfunc (jv_kid J token) (jv_alg J token) of
        Inl _ \<Rightarrow> False | Inr pk \<Rightarrow> jv_signature J token (jv_alg J token) pk) \<and>
     claims_accepted po now cl"
  unfolding jwt_laws_def by blast

lemma Verify_Inr_parse:
  "Verify parse A now (Some v) token = Inr vt \<longleftrightarrow>
     TrimSpace token \<noteq> [] \<and> vt_Raw vt = token \<and>
     (\<exists>provider. v_provider v = Some provider \<and>
        parse now (options_of A v) token (key_function provider) = Inr (Some True, vt_Claims vt)) \<and>
     (v_requireUse v \<noteq> [] \<longrightarrow> cl_TokenUse (vt_Claims vt) = v_requireUse v) \<and>
     cl_Subject (vt_Claims vt) \<noteq> [] \<and> cl_ClientID (vt_Claims vt) \<noteq> []"
  by (cases vt) (auto simp: Verify_def split: option.splits sum.splits)

lemma Verify_Inr:
  assumes "jwt_laws J parse"
  shows "Verify parse A now (Some v) token = Inr vt \<longleftrightarrow>
    vt_Raw vt = token \<and> acceptable J A now v token (vt_Claims vt)"
proof -
  have key: "(case key_function provider kid alg of Inl _ \<Rightarrow> False | Inr pk \<Rightarrow> P pk) \<longleftrightarrow>
      (\<exists>k pk. kid = Some k \<and> TrimSpace k \<noteq> [] \<and> provider k alg = Inr pk \<and> P pk)"
    for provider :: "string \<Rightarrow> string \<Rightarrow> 'a + public_key" and kid alg P
    by (auto simp: key_function_def Let_def split: option.splits sum.splits)
  show ?thesis
    unfolding Verify_Inr_parse jwt_lawsD[OF assms] key claims_accepted_options options_simps
      acceptable_def
    by blast
qed

lemma Verify_None [simp]: "Verify parse A now None token \<noteq> Inr vt"
  by (simp add: Verify_def)

subsection \<open>Properties\<close>

text \<open>A parser that behaves as documented exists for every view of tokens.\<close>

definition reference_parser :: "jwt_view \<Rightarrow> ('q, unit) jwt_parser" where
  "reference_parser J now po token keyfunc =
     (case jv_claims J token of
        None \<Rightarrow> Inl ()
      | Some cl \<Rightarrow>
          if jv_alg J token \<in> set (po_validMethods po) \<and> claims_accepted po now cl \<and>
             (case keyfunc (jv_kid J token) (jv_alg J token) of
                Inl _ \<Rightarrow> False | Inr pk \<Rightarrow> jv_signature J token (jv_alg J token) pk)
          then Inr (Some True, cl) else Inl ())"

lemma reference_parser_laws: "jwt_laws J (reference_parser J)"
  unfolding jwt_laws_def reference_parser_def by (auto split: option.splits)

text \<open>C9: \<open>Verify\<close> returns a token exactly when it is acceptable: signed by the key its provider serves
  for the token's key id under an allowed algorithm, not expired and not from the future (up to the
  leeway), from the expected issuer, for the expected audience and use, and naming a subject and a
  client.\<close>

theorem Verify_decides:
  assumes "jwt_laws J parse"
  shows "Verify parse A now (Some v) token = Inr vt \<longleftrightarrow>
    vt_Raw vt = token \<and> acceptable J A now v token (vt_Claims vt)"
  using assms by (rule Verify_Inr)

definition demo_view :: jwt_view where
  "demo_view = \<lparr>jv_kid = (\<lambda>t. Some ''k1''), jv_alg = (\<lambda>t. ''EdDSA''), jv_claims = (\<lambda>t. Some demo_claims),
     jv_signature = (\<lambda>t alg pk. t = ''tok'' \<and> pk = Ed25519PublicKey ''pub'')\<rparr>"

definition demo_verifier :: "unit verifier" where
  "demo_verifier = \<lparr>v_issuer = ''https://auth'', v_audience = ''sms'',
     v_provider = Some (\<lambda>kid alg. if kid = ''k1'' then Inr (Ed25519PublicKey ''pub'') else Inl ()),
     v_leeway = 30 * second, v_validAlgs = [''EdDSA''], v_requireUse = ''access''\<rparr>"

lemma demo_acceptable: "acceptable demo_view demo_algs (60 * second) demo_verifier ''tok'' demo_claims"
proof -
  have "TrimSpace ''tok'' = ''tok''" "TrimSpace ''k1'' = ''k1''" by code_simp+
  then show ?thesis
    by (simp add: acceptable_def demo_view_def demo_verifier_def demo_claims_def valid_algs_def
        second_def)
qed

theorem Verify_decides_witness:
  "Verify (reference_parser demo_view) demo_algs (60 * second) (Some demo_verifier) ''tok'' =
     Inr \<lparr>vt_Raw = ''tok'', vt_Claims = demo_claims\<rparr>"
  using Verify_decides[OF reference_parser_laws, of demo_view demo_algs "60 * second" demo_verifier]
    demo_acceptable by simp

end
