(* ===== verification/Gin_Guard.thy ===== *)
theory Gin_Guard
  imports Verifier
begin

text \<open>
  \<open>ginorion/builder.go\<close>, \<open>middleware.go\<close>, \<open>claims.go\<close> and \<open>errors.go\<close>: the guard that protects the
  routes of a Gin application.

  A Gin context is what the middleware reads and writes: the Authorization header, the values set
  on the context, whether the handler chain was aborted or continued, and the answer written. An
  error handler is a function on contexts; logging is left out of the default one. A remote key
  provider is made by the parameter \<open>remote\<close>, the builder of \<open>jwk/remote.go\<close>.
\<close>

definition DefaultClaimsKey :: string where "DefaultClaimsKey = ''orionis.claims''"

record gin_context =
  cx_authorization :: string
  cx_values :: "string \<rightharpoonup> claims"
  cx_aborted :: bool
  cx_next :: bool
  cx_answer :: "(nat \<times> string \<times> string) option"

datatype 'j guard_error = GuardToken "'j token_error" | GuardNilVerifier

type_synonym 'j error_handler = "gin_context \<Rightarrow> nat \<Rightarrow> string \<Rightarrow> 'j guard_error \<Rightarrow> gin_context"

definition publicErrorMessage :: "nat \<Rightarrow> string \<Rightarrow> string" where
  "publicErrorMessage status code =
     (if code = ''missing_bearer_token'' then ''missing bearer token''
      else if code = ''invalid_token'' then ''invalid token''
      else if code = ''insufficient_scope'' then ''insufficient scope''
      else if code = ''auth_misconfigured'' then ''authentication service unavailable''
      else if 500 \<le> status then ''authentication service unavailable''
      else ''authentication request rejected'')"

definition defaultErrorHandler :: "'j error_handler" where
  "defaultErrorHandler c status code err =
     c\<lparr>cx_answer := Some (status, code, publicErrorMessage status code)\<rparr>"

record ('q, 'j) guard =
  g_verifier :: "'q verifier option"
  g_claimsKey :: string
  g_errorHandler :: "'j error_handler"
  g_requiredScopes :: "string list"

definition newGuard ::
  "'q verifier option \<Rightarrow> string list \<Rightarrow> string \<Rightarrow> 'j error_handler option \<Rightarrow> ('q, 'j) guard" where
  "newGuard verifier requiredScopes claimsKey errorHandler =
     \<lparr>g_verifier = verifier,
      g_claimsKey = (if claimsKey = [] then DefaultClaimsKey else claimsKey),
      g_errorHandler = (case errorHandler of None \<Rightarrow> defaultErrorHandler | Some h \<Rightarrow> h),
      g_requiredScopes = NormalizeScopes requiredScopes\<rparr>"

definition reject ::
  "('q, 'j) guard \<Rightarrow> gin_context \<Rightarrow> nat \<Rightarrow> string \<Rightarrow> 'j guard_error \<Rightarrow> gin_context" where
  "reject g c status code err = (g_errorHandler g c status code err)\<lparr>cx_aborted := True\<rparr>"

definition gin_BearerToken :: "string \<Rightarrow> 'j token_error + string" where
  "gin_BearerToken header = BearerToken header"

text \<open>The deprecated configuration record; its handler is optional as in the code.\<close>

record ('q, 'j) gin_config =
  gc_Verifier :: "'q verifier option"
  gc_RequiredScopes :: "string list"
  gc_ClaimsKey :: string
  gc_ErrorHandler :: "'j error_handler option"

definition middlewareFromConfig ::
  "('q, 'j) jwt_parser \<Rightarrow> jwt_algs \<Rightarrow> time \<Rightarrow> ('q, 'j) gin_config \<Rightarrow> gin_context \<Rightarrow> gin_context" where
  "middlewareFromConfig parse A now cfg c =
     (let guard = newGuard (gc_Verifier cfg) (gc_RequiredScopes cfg) (gc_ClaimsKey cfg)
                    (gc_ErrorHandler cfg) in
      case BearerToken (cx_authorization c) of
        Inl err \<Rightarrow> reject guard c 401 ''missing_bearer_token'' (GuardToken err)
      | Inr tokenString \<Rightarrow>
          if g_verifier guard = None
          then reject guard c 500 ''auth_misconfigured'' GuardNilVerifier
          else
            (case Verify parse A now (g_verifier guard) tokenString of
               Inl err \<Rightarrow> reject guard c 401 ''invalid_token'' (GuardToken err)
             | Inr verified \<Rightarrow>
                 if \<not> HasAllScopes (Some (vt_Claims verified)) (g_requiredScopes guard)
                 then reject guard c 403 ''insufficient_scope'' (GuardToken ErrInsufficientScope)
                 else c\<lparr>cx_values := (cx_values c)(g_claimsKey guard \<mapsto> vt_Claims verified,
                                                  DefaultClaimsKey \<mapsto> vt_Claims verified),
                        cx_next := True\<rparr>))"

definition WithScopes :: "string list \<Rightarrow> ('q, 'j) gin_config \<Rightarrow> ('q, 'j) gin_config" where
  "WithScopes scopes c = c\<lparr>gc_RequiredScopes := NormalizeScopes scopes\<rparr>"

definition WithClaimsKey :: "string \<Rightarrow> ('q, 'j) gin_config \<Rightarrow> ('q, 'j) gin_config" where
  "WithClaimsKey key c = (if key \<noteq> [] then c\<lparr>gc_ClaimsKey := key\<rparr> else c)"

definition WithErrorHandler ::
  "'j error_handler option \<Rightarrow> ('q, 'j) gin_config \<Rightarrow> ('q, 'j) gin_config" where
  "WithErrorHandler handler c =
     (if handler = None then c else c\<lparr>gc_ErrorHandler := handler\<rparr>)"

text \<open>\<open>Middleware\<close>: the options are applied in order, \<open>nil\<close> options skipped.\<close>

definition middleware_config ::
  "'q verifier option \<Rightarrow> (('q, 'j) gin_config \<Rightarrow> ('q, 'j) gin_config) option list \<Rightarrow>
     ('q, 'j) gin_config" where
  "middleware_config verifier opts =
     foldl (\<lambda>cfg opt. case opt of None \<Rightarrow> cfg | Some f \<Rightarrow> f cfg)
       \<lparr>gc_Verifier = verifier, gc_RequiredScopes = [], gc_ClaimsKey = DefaultClaimsKey,
        gc_ErrorHandler = Some defaultErrorHandler\<rparr>
       opts"

subsection \<open>The guard builder\<close>

record ('q, 'j, 'h) guard_builder =
  gb_verifier :: "'q verifier option"
  gb_provider :: "(string \<Rightarrow> string \<Rightarrow> 'q + public_key) option"
  gb_issuer :: string
  gb_audience :: string
  gb_jwksURL :: string
  gb_httpClient :: "'h option"
  gb_refreshEvery :: duration
  gb_maxStale :: duration
  gb_requiredScopes :: "string list"
  gb_claimsKey :: string
  gb_errorHandler :: "'j error_handler option"

definition gb_New :: "('q, 'j, 'h) guard_builder option" where
  "gb_New = Some \<lparr>gb_verifier = None, gb_provider = None, gb_issuer = [], gb_audience = [],
     gb_jwksURL = [], gb_httpClient = None, gb_refreshEvery = 0, gb_maxStale = 0,
     gb_requiredScopes = [], gb_claimsKey = DefaultClaimsKey,
     gb_errorHandler = Some defaultErrorHandler\<rparr>"

definition gb_Verifier where
  "gb_Verifier b verifier = map_option (\<lambda>b. b\<lparr>gb_verifier := verifier\<rparr>) b"

definition gb_FromVerifier :: "'q verifier option \<Rightarrow> ('q, 'j, 'h) guard_builder option" where
  "gb_FromVerifier verifier = gb_Verifier gb_New verifier"

definition gb_Issuer where
  "gb_Issuer b issuer =
     map_option (\<lambda>b. b\<lparr>gb_issuer := TrimRight (TrimSpace issuer) (CHR ''/'')\<rparr>) b"

definition gb_Audience where
  "gb_Audience b audience = map_option (\<lambda>b. b\<lparr>gb_audience := TrimSpace audience\<rparr>) b"

definition gb_JWKS where
  "gb_JWKS b url = map_option (\<lambda>b. b\<lparr>gb_jwksURL := TrimSpace url\<rparr>) b"

definition gb_KeyProvider where
  "gb_KeyProvider b provider = map_option (\<lambda>b. b\<lparr>gb_provider := provider\<rparr>) b"

definition gb_HTTPClient where
  "gb_HTTPClient b hc = map_option (\<lambda>b. b\<lparr>gb_httpClient := hc\<rparr>) b"

definition gb_RefreshEvery where
  "gb_RefreshEvery b interval =
     map_option (\<lambda>b. if 0 < interval then b\<lparr>gb_refreshEvery := interval\<rparr> else b) b"

definition gb_MaxStale where
  "gb_MaxStale b maxStale =
     map_option (\<lambda>b. if 0 < maxStale then b\<lparr>gb_maxStale := maxStale\<rparr> else b) b"

definition gb_Scopes where
  "gb_Scopes b scopes = map_option (\<lambda>b. b\<lparr>gb_requiredScopes := gb_requiredScopes b @ scopes\<rparr>) b"

definition gb_Scope where
  "gb_Scope b scope = gb_Scopes b [scope]"

definition gb_ClaimsKey where
  "gb_ClaimsKey b key =
     map_option (\<lambda>b. if TrimSpace key \<noteq> [] then b\<lparr>gb_claimsKey := TrimSpace key\<rparr> else b) b"

definition gb_ErrorHandler where
  "gb_ErrorHandler b handler =
     map_option (\<lambda>b. if handler = None then b else b\<lparr>gb_errorHandler := handler\<rparr>) b"

datatype 'r builder_error =
    NilGuardBuilder | GuardIssuerRequired | GuardAudienceRequired | GuardKeysRequired
  | RemoteProviderFailed 'r

text \<open>\<open>remote url client refresh stale\<close>: \<open>jwk.Remote(url).HTTPClient(..).RefreshEvery(..).MaxStale(..).Build()\<close>.\<close>

definition buildVerifier ::
  "(string \<Rightarrow> 'h option \<Rightarrow> duration \<Rightarrow> duration \<Rightarrow> 'r + (string \<Rightarrow> string \<Rightarrow> 'q + public_key)) \<Rightarrow>
     jwt_algs \<Rightarrow> ('q, 'j, 'h) guard_builder \<Rightarrow> 'r builder_error + 'q verifier option" where
  "buildVerifier remote A b =
     (if gb_verifier b \<noteq> None then Inr (gb_verifier b)
      else if gb_issuer b = [] then Inl GuardIssuerRequired
      else if gb_audience b = [] then Inl GuardAudienceRequired
      else
        (case (case gb_provider b of
                 Some provider \<Rightarrow> Inr provider
               | None \<Rightarrow>
                   if gb_jwksURL b = [] then Inl GuardKeysRequired
                   else (case remote (gb_jwksURL b) (gb_httpClient b) (gb_refreshEvery b)
                                (gb_maxStale b) of
                           Inl err \<Rightarrow> Inl (RemoteProviderFailed err)
                         | Inr provider \<Rightarrow> Inr provider)) of
           Inl err \<Rightarrow> Inl err
         | Inr provider \<Rightarrow> Inr (VerifierFor A (gb_issuer b) (gb_audience b) (Some provider))))"

definition gb_Build where
  "gb_Build remote A b =
     (case b of
        None \<Rightarrow> Inl NilGuardBuilder
      | Some b \<Rightarrow>
          (case buildVerifier remote A b of
             Inl err \<Rightarrow> Inl err
           | Inr verifier \<Rightarrow>
               Inr (newGuard verifier (gb_requiredScopes b) (gb_claimsKey b) (gb_errorHandler b))))"

definition gb_Must where
  "gb_Must remote A b = must (gb_Build remote A b)"

definition firstScopes :: "string list \<Rightarrow> string list \<Rightarrow> string list" where
  "firstScopes primary fallback = (if 0 < length primary then primary else fallback)"

definition Require ::
  "('q, 'j) jwt_parser \<Rightarrow> jwt_algs \<Rightarrow> time \<Rightarrow> ('q, 'j) guard \<Rightarrow> string list \<Rightarrow> gin_context \<Rightarrow>
     gin_context" where
  "Require parse A now g scopes =
     middlewareFromConfig parse A now
       \<lparr>gc_Verifier = g_verifier g, gc_RequiredScopes = firstScopes scopes (g_requiredScopes g),
        gc_ClaimsKey = g_claimsKey g, gc_ErrorHandler = Some (g_errorHandler g)\<rparr>"

definition guard_Handler where
  "guard_Handler parse A now g = Require parse A now g []"

definition gb_Handler where
  "gb_Handler remote parse A now b =
     (case gb_Build remote A b of Inl err \<Rightarrow> Inl err | Inr guard \<Rightarrow> Inr (guard_Handler parse A now guard))"

definition gb_MustHandler where
  "gb_MustHandler remote parse A now b =
     (case gb_Must remote A b of Inl panic \<Rightarrow> Inl panic | Inr guard \<Rightarrow> Inr (guard_Handler parse A now guard))"

definition guard_Scope where
  "guard_Scope parse A now g scope = Require parse A now g [scope]"

text \<open>\<open>Claims\<close>: what a handler behind the guard reads.\<close>

definition Claims :: "gin_context \<Rightarrow> claims option" where
  "Claims c = cx_values c DefaultClaimsKey"

datatype claims_panic = ClaimsMissing

definition MustClaims :: "gin_context \<Rightarrow> claims_panic panic + claims" where
  "MustClaims c = (case Claims c of None \<Rightarrow> Inl (Panic ClaimsMissing) | Some claims \<Rightarrow> Inr claims)"

subsection \<open>Which requests pass\<close>

text \<open>A well-behaved error handler does not run the rest of the chain or set claims.\<close>

definition handler_ok :: "'j error_handler \<Rightarrow> bool" where
  "handler_ok h \<longleftrightarrow> (\<forall>c status code err. cx_next (h c status code err) = cx_next c \<and>
     cx_values (h c status code err) = cx_values c)"

lemma defaultErrorHandler_ok: "handler_ok defaultErrorHandler"
  by (simp add: handler_ok_def defaultErrorHandler_def)

lemma newGuard_simps [simp]:
  "g_verifier (newGuard v rs ck h) = v"
  "g_requiredScopes (newGuard v rs ck h) = NormalizeScopes rs"
  "g_claimsKey (newGuard v rs ck h) = (if ck = [] then DefaultClaimsKey else ck)"
  "g_errorHandler (newGuard v rs ck (Some eh)) = eh"
  by (simp_all add: newGuard_def)

lemma reject_simps [simp]:
  "cx_aborted (reject g c status code err)"
  "handler_ok (g_errorHandler g) \<Longrightarrow> cx_next (reject g c status code err) = cx_next c"
  "handler_ok (g_errorHandler g) \<Longrightarrow> cx_values (reject g c status code err) = cx_values c"
  by (simp_all add: reject_def handler_ok_def)

lemma HasAllScopes_NormalizeScopes [simp]:
  "HasAllScopes (Some cl) (NormalizeScopes rs) = HasAllScopes (Some cl) rs"
  by (simp add: HasAllScopes_iff)

text \<open>The requests a guard lets through, without the code's control flow: the header carries a
  bearer token that verifies and covers every required scope.\<close>

definition passes ::
  "('q, 'j) jwt_parser \<Rightarrow> jwt_algs \<Rightarrow> time \<Rightarrow> 'q verifier option \<Rightarrow> string list \<Rightarrow> string \<Rightarrow>
     claims \<Rightarrow> bool" where
  "passes parse A now verifier required header cl \<longleftrightarrow>
     (\<exists>token vt. (BearerToken header :: 'j token_error + string) = Inr token \<and>
        Verify parse A now verifier token = Inr vt \<and> vt_Claims vt = cl \<and>
        HasAllScopes (Some cl) required)"

lemma middleware_passes:
  fixes parse :: "('q, 'j) jwt_parser"
  assumes "passes parse A now (gc_Verifier cfg) (gc_RequiredScopes cfg) (cx_authorization c) cl"
  shows "middlewareFromConfig parse A now cfg c =
    c\<lparr>cx_values := (cx_values c)
        ((if gc_ClaimsKey cfg = [] then DefaultClaimsKey else gc_ClaimsKey cfg) \<mapsto> cl,
         DefaultClaimsKey \<mapsto> cl),
      cx_next := True\<rparr>"
proof -
  from assms obtain token vt where
    t: "(BearerToken (cx_authorization c) :: 'j token_error + string) = Inr token" and
    v: "Verify parse A now (gc_Verifier cfg) token = Inr vt" "vt_Claims vt = cl" and
    s: "HasAllScopes (Some cl) (gc_RequiredScopes cfg)"
    by (auto simp: passes_def)
  from v(1) obtain vr where "gc_Verifier cfg = Some vr" by (cases "gc_Verifier cfg") auto
  then show ?thesis using t v s by (simp add: middlewareFromConfig_def Let_def)
qed

lemma middleware_rejects:
  fixes parse :: "('q, 'j) jwt_parser"
  assumes "\<nexists>cl. passes parse A now (gc_Verifier cfg) (gc_RequiredScopes cfg) (cx_authorization c) cl"
  shows "\<exists>status code err.
    (status, code) \<in> {(401, ''missing_bearer_token''), (500, ''auth_misconfigured''),
      (401, ''invalid_token''), (403, ''insufficient_scope'')} \<and>
    middlewareFromConfig parse A now cfg c =
      reject (newGuard (gc_Verifier cfg) (gc_RequiredScopes cfg) (gc_ClaimsKey cfg)
        (gc_ErrorHandler cfg)) c status code err"
  (is "\<exists>status code err. (status, code) \<in> ?answers \<and> ?out = reject ?g c status code err")
proof -
  have by_answer: ?thesis if "?out = reject ?g c status code err" "(status, code) \<in> ?answers"
    for status code err
    by (rule exI[of _ status], rule exI[of _ code], rule exI[of _ err], rule conjI,
      rule that(2), rule that(1))
  show ?thesis
  proof (cases "BearerToken (cx_authorization c) :: 'j token_error + string")
    case (Inl err)
    show ?thesis
      by (rule by_answer[of 401 "''missing_bearer_token''" "GuardToken err"])
        (simp_all add: middlewareFromConfig_def Let_def Inl)
  next
    case bearer: (Inr token)
    show ?thesis
    proof (cases "gc_Verifier cfg")
      case None
      show ?thesis
        by (rule by_answer[of 500 "''auth_misconfigured''" GuardNilVerifier])
          (simp_all add: middlewareFromConfig_def Let_def bearer None)
    next
      case (Some v)
      show ?thesis
      proof (cases "Verify parse A now (Some v) token")
        case (Inl err)
        show ?thesis
          by (rule by_answer[of 401 "''invalid_token''" "GuardToken err"])
            (simp_all add: middlewareFromConfig_def Let_def bearer Some Inl)
      next
        case (Inr vt)
        then have "\<not> HasAllScopes (Some (vt_Claims vt)) (gc_RequiredScopes cfg)"
          using assms bearer Some by (auto simp: passes_def)
        then show ?thesis
          by (intro by_answer[of 403 "''insufficient_scope''" "GuardToken ErrInsufficientScope"])
            (simp_all add: middlewareFromConfig_def Let_def bearer Some Inr)
      qed
    qed
  qed
qed

text \<open>Hence the chain continues exactly for those requests, and is aborted for all others.\<close>

lemma middleware_next:
  assumes "gc_ErrorHandler cfg = Some h" "handler_ok h" "\<not> cx_next c"
  shows "cx_next (middlewareFromConfig parse A now cfg c) \<longleftrightarrow>
    (\<exists>cl. passes parse A now (gc_Verifier cfg) (gc_RequiredScopes cfg) (cx_authorization c) cl)"
proof (cases "\<exists>cl. passes parse A now (gc_Verifier cfg) (gc_RequiredScopes cfg)
    (cx_authorization c) cl")
  case True
  then show ?thesis using middleware_passes[of parse A now cfg c] by auto
next
  case False
  then show ?thesis using middleware_rejects[of parse A now cfg c] assms by auto
qed

lemma middleware_aborts:
  "\<nexists>cl. passes parse A now (gc_Verifier cfg) (gc_RequiredScopes cfg) (cx_authorization c) cl \<Longrightarrow>
     cx_aborted (middlewareFromConfig parse A now cfg c)"
  using middleware_rejects[of parse A now cfg c] by (metis reject_simps(1))

subsection \<open>Properties\<close>


definition demo_guard :: "(unit, unit) guard" where
  "demo_guard = newGuard (Some demo_verifier) [''sms.read''] [] None"

definition demo_context :: gin_context where
  "demo_context = \<lparr>cx_authorization = ''Bearer tok'', cx_values = Map.empty, cx_aborted = False,
     cx_next = False, cx_answer = None\<rparr>"

lemma demo_passes:
  "passes (reference_parser demo_view) demo_algs (60 * second) (Some demo_verifier) [''sms.send.otp'']
     ''Bearer tok'' demo_claims"
proof -
  have "(BearerToken ''Bearer tok'' :: unit token_error + string) = Inr ''tok''" by code_simp
  moreover have "HasAllScopes (Some demo_claims) [''sms.send.otp'']" by code_simp
  moreover have "Verify (reference_parser demo_view) demo_algs (60 * second) (Some demo_verifier) ''tok'' =
      Inr \<lparr>vt_Raw = ''tok'', vt_Claims = demo_claims\<rparr>"
    using demo_acceptable by (simp add: Verify_Inr[OF reference_parser_laws])
  ultimately show ?thesis unfolding passes_def by (intro exI conjI) auto
qed


text \<open>The claims a handler behind the guard reads are those of the verified token, under the guard's
  own key and under the default key.\<close>

theorem guarded_handler_reads_verified_claims:
  fixes parse :: "('q, 'j) jwt_parser"
  assumes "passes parse A now (g_verifier g) (firstScopes scopes (g_requiredScopes g))
      (cx_authorization c) cl"
  shows "Claims (Require parse A now g scopes c) = Some cl \<and>
    cx_values (Require parse A now g scopes c)
      (if g_claimsKey g = [] then DefaultClaimsKey else g_claimsKey g) = Some cl"
proof -
  let ?cfg = "\<lparr>gc_Verifier = g_verifier g, gc_RequiredScopes = firstScopes scopes (g_requiredScopes g),
      gc_ClaimsKey = g_claimsKey g, gc_ErrorHandler = Some (g_errorHandler g)\<rparr>"
  show ?thesis
    using middleware_passes[of parse A now ?cfg c cl] assms by (simp add: Require_def Claims_def)
qed

theorem guarded_handler_reads_verified_claims_witness:
  "Claims (Require (reference_parser demo_view) demo_algs (60 * second) demo_guard [''sms.send.otp'']
     demo_context) = Some demo_claims"
  using guarded_handler_reads_verified_claims[of "reference_parser demo_view" demo_algs "60 * second"
      demo_guard "[''sms.send.otp'']" demo_context demo_claims] demo_passes
  by (simp add: demo_guard_def demo_context_def firstScopes_def)

text \<open>C36: a route's own scope list replaces the guard's even when it holds blank strings only; such a
  route asks for no scope at all, whatever scopes the guard was built with.\<close>

theorem blank_route_scope_drops_guard_scopes:
  assumes "scopes \<noteq> []" "\<forall>s\<in>set scopes. TrimSpace s = []" "handler_ok (g_errorHandler g)" "\<not> cx_next c"
  shows "cx_next (Require parse A now g scopes c) \<longleftrightarrow>
    (\<exists>cl. passes parse A now (g_verifier g) [] (cx_authorization c) cl)"
proof -
  let ?cfg = "\<lparr>gc_Verifier = g_verifier g, gc_RequiredScopes = scopes,
      gc_ClaimsKey = g_claimsKey g, gc_ErrorHandler = Some (g_errorHandler g)\<rparr>"
  have "NormalizeScopes scopes = []" using assms(2) by (simp add: ns.norm_eq_Nil)
  then have "HasAllScopes (Some cl) scopes = HasAllScopes (Some cl) []" for cl
    by (simp add: HasAllScopes_iff)
  then have "passes parse A now (g_verifier g) scopes (cx_authorization c) cl \<longleftrightarrow>
      passes parse A now (g_verifier g) [] (cx_authorization c) cl" for cl
    unfolding passes_def by simp
  then show ?thesis
    using middleware_next[of ?cfg "g_errorHandler g" c parse A now] assms(1,3,4)
    by (simp add: Require_def firstScopes_def)
qed

theorem blank_route_scope_drops_guard_scopes_witness:
  "cx_next (Require (reference_parser demo_view) demo_algs (60 * second)
     (demo_guard\<lparr>g_requiredScopes := [''admin'']\<rparr>) [[]] demo_context)"
proof -
  have "passes (reference_parser demo_view) demo_algs (60 * second) (Some demo_verifier) []
      ''Bearer tok'' demo_claims"
    using demo_passes by (auto simp: passes_def HasAllScopes_iff)
  moreover have "handler_ok (g_errorHandler (demo_guard\<lparr>g_requiredScopes := [''admin'']\<rparr>))"
    by (simp add: demo_guard_def newGuard_def defaultErrorHandler_ok)
  ultimately show ?thesis
    by (subst blank_route_scope_drops_guard_scopes) (auto simp: demo_guard_def demo_context_def)
qed

end
