(* ===== verification/Token_Client.thy ===== *)
theory Token_Client
  imports Scope_Claims Http_Json Go_Url
begin

text \<open>
  The token client without its cache: \<open>client/config.go\<close>, \<open>client/client.go\<close>,
  \<open>client/authenticator.go\<close>, the request of \<open>client/token_http.go\<close>, and the parts of
  \<open>client/provider.go\<close>, \<open>client/target.go\<close> and \<open>client/transport.go\<close> that shape a request.

  An HTTP request is its method, URL, headers and body. \<open>new_request\<close> and \<open>do_request\<close> are
  \<open>http.NewRequestWithContext\<close> and the client's \<open>Do\<close>; an authenticator is a function on requests.
\<close>

record token_http_request =
  tq_method :: string
  tq_url :: string
  tq_header :: "string \<rightharpoonup> string"
  tq_body :: string

type_synonym 'e authenticator = "token_http_request \<Rightarrow> 'e + token_http_request"

definition defaultRefreshSkew :: duration where "defaultRefreshSkew = 60 * second"
definition maxTokenResponseBody :: int where "maxTokenResponseBody = 1048576"

record ('h, 'e) client_config =
  cc_TokenURL :: string
  cc_ClientID :: string
  cc_ClientSecret :: string
  cc_Audience :: string
  cc_Scopes :: "string list"
  cc_HTTPClient :: "'h option"
  cc_Authenticator :: "'e authenticator option"
  cc_RefreshSkew :: duration

type_synonym ('h, 'e) client_builder = "('h, 'e) client_config option"

definition cb_New :: "('h, 'e) client_builder" where
  "cb_New = Some \<lparr>cc_TokenURL = [], cc_ClientID = [], cc_ClientSecret = [], cc_Audience = [],
     cc_Scopes = [], cc_HTTPClient = None, cc_Authenticator = None, cc_RefreshSkew = 0\<rparr>"

definition cb_FromConfig :: "('h, 'e) client_config \<Rightarrow> ('h, 'e) client_builder" where
  "cb_FromConfig cfg = Some cfg"

definition cb_TokenURL :: "('h, 'e) client_builder \<Rightarrow> string \<Rightarrow> ('h, 'e) client_builder" where
  "cb_TokenURL b tokenURL = map_option (\<lambda>cfg. cfg\<lparr>cc_TokenURL := TrimSpace tokenURL\<rparr>) b"

definition cb_ClientSecret ::
  "('h, 'e) client_builder \<Rightarrow> string \<Rightarrow> string \<Rightarrow> ('h, 'e) client_builder" where
  "cb_ClientSecret b clientID clientSecret =
     map_option (\<lambda>cfg. cfg\<lparr>cc_ClientID := TrimSpace clientID, cc_ClientSecret := clientSecret\<rparr>) b"

definition cb_As :: "('h, 'e) client_builder \<Rightarrow> string \<Rightarrow> string \<Rightarrow> ('h, 'e) client_builder" where
  "cb_As b clientID clientSecret = cb_ClientSecret b clientID clientSecret"

definition cb_Credentials :: "('h, 'e) client_builder \<Rightarrow> string \<Rightarrow> string \<Rightarrow> ('h, 'e) client_builder" where
  "cb_Credentials b clientID clientSecret = cb_ClientSecret b clientID clientSecret"

definition cb_Audience :: "('h, 'e) client_builder \<Rightarrow> string \<Rightarrow> ('h, 'e) client_builder" where
  "cb_Audience b audience = map_option (\<lambda>cfg. cfg\<lparr>cc_Audience := TrimSpace audience\<rparr>) b"

definition cb_Scopes :: "('h, 'e) client_builder \<Rightarrow> string list \<Rightarrow> ('h, 'e) client_builder" where
  "cb_Scopes b scopes = map_option (\<lambda>cfg. cfg\<lparr>cc_Scopes := cc_Scopes cfg @ scopes\<rparr>) b"

definition cb_Scope :: "('h, 'e) client_builder \<Rightarrow> string \<Rightarrow> ('h, 'e) client_builder" where
  "cb_Scope b scope = cb_Scopes b [scope]"

definition cb_For ::
  "('h, 'e) client_builder \<Rightarrow> string \<Rightarrow> string list \<Rightarrow> ('h, 'e) client_builder" where
  "cb_For b audience scopes = cb_Scopes (cb_Audience b audience) scopes"

definition cb_TokenHTTPClient ::
  "('h, 'e) client_builder \<Rightarrow> 'h option \<Rightarrow> ('h, 'e) client_builder" where
  "cb_TokenHTTPClient b hc = map_option (\<lambda>cfg. cfg\<lparr>cc_HTTPClient := hc\<rparr>) b"

definition cb_Authenticator ::
  "('h, 'e) client_builder \<Rightarrow> 'e authenticator option \<Rightarrow> ('h, 'e) client_builder" where
  "cb_Authenticator b a =
     map_option (\<lambda>cfg. case a of None \<Rightarrow> cfg | Some _ \<Rightarrow> cfg\<lparr>cc_Authenticator := a\<rparr>) b"

definition cb_RefreshSkew ::
  "('h, 'e) client_builder \<Rightarrow> duration \<Rightarrow> ('h, 'e) client_builder" where
  "cb_RefreshSkew b skew =
     map_option (\<lambda>cfg. if 0 < skew then cfg\<lparr>cc_RefreshSkew := skew\<rparr> else cfg) b"

text \<open>\<open>ClientSecretBasic\<close>; \<open>missing\<close> stands for its error.\<close>

definition ClientSecretBasic :: "'e \<Rightarrow> string \<Rightarrow> string \<Rightarrow> 'e authenticator" where
  "ClientSecretBasic missing clientID clientSecret req =
     (if TrimSpace clientID = [] \<or> clientSecret = [] then Inl missing
      else Inr (req\<lparr>tq_header := SetBasicAuth clientID clientSecret (tq_header req)\<rparr>))"

datatype client_config_error = TokenURLRequired | NilClientBuilder

text \<open>The fixed part of a provider; its cache is the state of \<open>Token_Cache\<close>.\<close>

record ('h, 'e) token_provider =
  tp_tokenURL :: string
  tp_audience :: string
  tp_scopes :: "string list"
  tp_httpClient :: 'h
  tp_authenticator :: "'e authenticator"
  tp_refreshSkew :: duration

definition client_normalizeConfig ::
  "'h \<Rightarrow> 'e \<Rightarrow> ('h, 'e) client_config \<Rightarrow> client_config_error + ('h, 'e) client_config" where
  "client_normalizeConfig defaultClient missing cfg0 =
     (let cfg = cfg0\<lparr>cc_TokenURL := TrimSpace (cc_TokenURL cfg0),
                     cc_ClientID := TrimSpace (cc_ClientID cfg0),
                     cc_Audience := TrimSpace (cc_Audience cfg0),
                     cc_Scopes := NormalizeScopes (cc_Scopes cfg0)\<rparr> in
      if cc_TokenURL cfg = [] then Inl TokenURLRequired
      else Inr
        (cfg\<lparr>cc_HTTPClient :=
               (case cc_HTTPClient cfg of None \<Rightarrow> Some defaultClient | Some hc \<Rightarrow> Some hc),
             cc_RefreshSkew :=
               (if cc_RefreshSkew cfg \<le> 0 then defaultRefreshSkew else cc_RefreshSkew cfg),
             cc_Authenticator :=
               (case cc_Authenticator cfg of
                  None \<Rightarrow> Some (ClientSecretBasic missing (cc_ClientID cfg) (cc_ClientSecret cfg))
                | Some a \<Rightarrow> Some a)\<rparr>))"

definition buildProvider ::
  "'h \<Rightarrow> 'e \<Rightarrow> ('h, 'e) client_config \<Rightarrow> client_config_error + ('h, 'e) token_provider" where
  "buildProvider defaultClient missing raw =
     (case client_normalizeConfig defaultClient missing raw of
        Inl err \<Rightarrow> Inl err
      | Inr cfg \<Rightarrow>
          Inr \<lparr>tp_tokenURL = cc_TokenURL cfg, tp_audience = cc_Audience cfg,
            tp_scopes = cc_Scopes cfg, tp_httpClient = the (cc_HTTPClient cfg),
            tp_authenticator = the (cc_Authenticator cfg),
            tp_refreshSkew = cc_RefreshSkew cfg\<rparr>)"

definition cb_Build ::
  "'h \<Rightarrow> 'e \<Rightarrow> ('h, 'e) client_builder \<Rightarrow> client_config_error + ('h, 'e) token_provider" where
  "cb_Build defaultClient missing b =
     (case b of None \<Rightarrow> Inl NilClientBuilder | Some cfg \<Rightarrow> buildProvider defaultClient missing cfg)"

definition cb_Must ::
  "'h \<Rightarrow> 'e \<Rightarrow> ('h, 'e) client_builder \<Rightarrow> client_config_error panic + ('h, 'e) token_provider" where
  "cb_Must defaultClient missing b = must (cb_Build defaultClient missing b)"

definition NewProvider ::
  "'h \<Rightarrow> 'e \<Rightarrow> ('h, 'e) client_config \<Rightarrow> client_config_error + ('h, 'e) token_provider" where
  "NewProvider defaultClient missing cfg = buildProvider defaultClient missing cfg"

subsection \<open>What a call asks for\<close>

text \<open>Audience and scopes of a call, with the provider's defaults; \<open>None\<close> is the missing audience.\<close>

definition target :: "('h, 'e) token_provider \<Rightarrow> string \<Rightarrow> string list \<Rightarrow> (string \<times> string list) option" where
  "target p audience0 scopes0 =
     (let audience = TrimSpace (if TrimSpace audience0 = [] then tp_audience p else audience0);
          scopes = NormalizeScopes (if length scopes0 = 0 then tp_scopes p else scopes0) in
      if audience = [] then None else Some (audience, scopes))"

text \<open>A target is a provider with an audience and scopes of its own.\<close>

record ('h, 'e) client_target =
  tg_provider :: "('h, 'e) token_provider"
  tg_audience :: string
  tg_scopes :: "string list"

definition provider_For ::
  "('h, 'e) token_provider \<Rightarrow> string \<Rightarrow> string list \<Rightarrow> ('h, 'e) client_target" where
  "provider_For p audience scopes =
     \<lparr>tg_provider = p, tg_audience = audience, tg_scopes = NormalizeScopes scopes\<rparr>"

definition target_Scopes :: "('h, 'e) client_target \<Rightarrow> string list \<Rightarrow> ('h, 'e) client_target" where
  "target_Scopes t scopes = t\<lparr>tg_scopes := NormalizeScopes scopes\<rparr>"

definition cacheKey :: "string \<Rightarrow> string list \<Rightarrow> string \<times> string" where
  "cacheKey audience scopes = (TrimSpace audience, ScopeString scopes)"

subsection \<open>Requesting a token\<close>

record cached_token =
  ct_response :: token_response
  ct_expiresAt :: time

datatype 'e token_request_error =
    CannotBuildRequest 'e | NotAuthenticated 'e | TokenRequestFailed 'e
  | TokenStatus nat "(string \<times> string) option" | TokenStatusUnread nat "'e json_error"
  | TokenDecode "'e json_error" | InvalidTokenResponse

definition token_form :: "string \<Rightarrow> string list \<Rightarrow> form" where
  "token_form audience scopes =
     (let form = [(''grant_type'', ''client_credentials''), (''audience'', audience)];
          scope = ScopeString scopes in
      if scope \<noteq> [] then form @ [(''scope'', scope)] else form)"

text \<open>\<open>oauth_error\<close> is \<open>json.Unmarshal\<close> into the error document: its code and description.\<close>

definition tokenResponseError ::
  "(string \<Rightarrow> (string \<times> string) option) \<Rightarrow> nat \<Rightarrow> 'e body option \<Rightarrow> 'e token_request_error" where
  "tokenResponseError oauth_error status body =
     (case json_Read body maxTokenResponseBody of
        Inl err \<Rightarrow> TokenStatusUnread status err
      | Inr raw \<Rightarrow>
          (case oauth_error raw of
             Some (code, description) \<Rightarrow>
               if code \<noteq> [] then TokenStatus status (Some (code, description))
               else TokenStatus status None
           | None \<Rightarrow> TokenStatus status None))"

text \<open>The environment of a token request: the two HTTP calls and the two JSON decoders.\<close>

record 'e token_net =
  nt_new_request :: "string \<Rightarrow> string \<Rightarrow> string \<Rightarrow> 'e + token_http_request"
  nt_do :: "token_http_request \<Rightarrow> 'e + nat \<times> 'e body option"
  nt_json :: "('e, token_response) json_decoder"
  nt_oauth_error :: "string \<Rightarrow> (string \<times> string) option"

definition requestToken ::
  "'e token_net \<Rightarrow> ('h, 'e) token_provider \<Rightarrow> time \<Rightarrow> string \<Rightarrow> string list \<Rightarrow>
     'e token_request_error + cached_token" where
  "requestToken net p now audience scopes =
     (case nt_new_request net ''POST'' (tp_tokenURL p) (Encode (token_form audience scopes)) of
        Inl err \<Rightarrow> Inl (CannotBuildRequest err)
      | Inr req0 \<Rightarrow>
          let req = req0\<lparr>tq_header := (tq_header req0)
                (''Content-Type'' \<mapsto> ''application/x-www-form-urlencoded'',
                 ''Accept'' \<mapsto> ''application/json'')\<rparr> in
          (case tp_authenticator p req of
             Inl err \<Rightarrow> Inl (NotAuthenticated err)
           | Inr req \<Rightarrow>
               (case nt_do net req of
                  Inl err \<Rightarrow> Inl (TokenRequestFailed err)
                | Inr (status, body) \<Rightarrow>
                    if status \<noteq> 200 then Inl (tokenResponseError (nt_oauth_error net) status body)
                    else
                      (case json_Decode (nt_json net) body maxTokenResponseBody of
                         Inl err \<Rightarrow> Inl (TokenDecode err)
                       | Inr response \<Rightarrow>
                           if tr_AccessToken response = [] \<or>
                              \<not> EqualFold (tr_TokenType response) TokenTypeBearer \<or>
                              tr_ExpiresIn response \<le> 0
                           then Inl InvalidTokenResponse
                           else Inr \<lparr>ct_response = response,
                             ct_expiresAt =
                               time_add now (wrap64 (tr_ExpiresIn response * second))\<rparr>))))"

text \<open>Freshness of a cached token; products of durations wrap around at 64 bits.\<close>

definition freshAt :: "duration \<Rightarrow> cached_token \<Rightarrow> time \<Rightarrow> bool" where
  "freshAt refreshSkew token now =
     (if tr_ExpiresIn (ct_response token) \<le> 0 then False
      else
        (let ttl = wrap64 (tr_ExpiresIn (ct_response token) * second);
             skew = (if ttl \<le> refreshSkew then go_div ttl 10 else refreshSkew) in
         skew < time_sub (ct_expiresAt token) now))"

text \<open>Setting the header of an outgoing request once its token is there.\<close>

definition authorize_header :: "(string \<rightharpoonup> string) \<Rightarrow> string \<Rightarrow> (string \<rightharpoonup> string)" where
  "authorize_header header token = header(''Authorization'' \<mapsto> ''Bearer '' @ token)"

subsection \<open>Authorizing outgoing requests\<close>

text \<open>An outgoing request: its headers and whether its body is still open. \<open>token_of\<close> is the
  provider's \<open>TokenResponse\<close> for the request's context.\<close>

record out_request =
  or_header :: "string \<rightharpoonup> string"
  or_body_open :: bool

datatype 'r authorize_error = NilRequest | NilTokenProvider | TokenFailed 'r

definition Token ::
  "(string \<Rightarrow> string list \<Rightarrow> 'r + token_response) \<Rightarrow> string \<Rightarrow> string list \<Rightarrow> 'r + string" where
  "Token token_of audience scopes =
     (case token_of audience scopes of
        Inl err \<Rightarrow> Inl err
      | Inr resp \<Rightarrow> Inr (tr_AccessToken resp))"

definition AuthorizeRequest ::
  "(string \<Rightarrow> string list \<Rightarrow> 'r + token_response) \<Rightarrow> out_request option \<Rightarrow> string \<Rightarrow> string list \<Rightarrow>
     'r authorize_error + out_request" where
  "AuthorizeRequest token_of req audience scopes =
     (case req of
        None \<Rightarrow> Inl NilRequest
      | Some req \<Rightarrow>
          (case Token token_of audience scopes of
             Inl err \<Rightarrow> Inl (TokenFailed err)
           | Inr token \<Rightarrow> Inr (req\<lparr>or_header := authorize_header (or_header req) token\<rparr>)))"

text \<open>The transport. Its provider may be \<open>nil\<close>; \<open>base\<close> is the wrapped round tripper, which by the
  contract of \<open>http.RoundTripper\<close> closes the body of the request it is given. The second component of
  the result is the caller's request afterwards: the clone shares its body with it.\<close>

record ('r, 'x) client_transport =
  tt_base :: "out_request \<Rightarrow> 'x"
  tt_provider :: "(string \<Rightarrow> string list \<Rightarrow> 'r + token_response) option"
  tt_audience :: string
  tt_scopes :: "string list"

datatype 'r transport_error = TransportNoProvider | TransportNoRequest | TransportAuthorize "'r authorize_error"

definition RoundTrip ::
  "('r, 'x) client_transport option \<Rightarrow> out_request option \<Rightarrow>
     ('r transport_error + 'x) \<times> out_request option" where
  "RoundTrip t req =
     (case t of
        None \<Rightarrow> (Inl TransportNoProvider, req)
      | Some t \<Rightarrow>
          (case tt_provider t of
             None \<Rightarrow> (Inl TransportNoProvider, req)
           | Some token_of \<Rightarrow>
               (case req of
                  None \<Rightarrow> (Inl TransportNoRequest, req)
                | Some r \<Rightarrow>
                    (case AuthorizeRequest token_of (Some r) (tt_audience t) (tt_scopes t) of
                       Inl err \<Rightarrow> (Inl (TransportAuthorize err), req)
                     | Inr cloned \<Rightarrow>
                         (Inr (tt_base t cloned), Some (r\<lparr>or_body_open := False\<rparr>))))))"

text \<open>\<open>NewHTTPClient\<close>: the transport it installs.\<close>

definition NewHTTPClient ::
  "(out_request \<Rightarrow> 'x) \<Rightarrow> (string \<Rightarrow> string list \<Rightarrow> 'r + token_response) option \<Rightarrow> string \<Rightarrow>
     string list \<Rightarrow> ('r, 'x) client_transport" where
  "NewHTTPClient base provider audience scopes =
     \<lparr>tt_base = base, tt_provider = provider, tt_audience = audience,
      tt_scopes = NormalizeScopes scopes\<rparr>"

subsection \<open>What requests and tokens look like\<close>

lemma requestToken_Inr:
  assumes "requestToken net p now audience scopes = Inr token"
  shows "tr_AccessToken (ct_response token) \<noteq> [] \<and> 0 < tr_ExpiresIn (ct_response token) \<and>
    EqualFold (tr_TokenType (ct_response token)) TokenTypeBearer \<and>
    ct_expiresAt token = now + wrap64 (tr_ExpiresIn (ct_response token) * second)"
  using assms
  by (auto simp: requestToken_def Let_def time_add_def split: sum.splits if_splits)

lemma target_Some:
  "target p audience scopes = Some (a, ss) \<Longrightarrow> a \<noteq> [] \<and> TrimSpace a = a \<and> NormalizeScopes ss = ss"
  by (auto simp: target_def Let_def split: if_splits)

text \<open>The request of a client is understood by the server as asking for its audience and scopes.\<close>

lemma token_form_scope:
  "map_of (token_form audience scopes) ''scope'' =
     (if NormalizeScopes scopes = [] then None else Some (ScopeString scopes))"
  by (simp add: token_form_def Let_def ScopeString_eq_Nil)

text \<open>The lifetime arithmetic: as long as the lifetime fits 64 bits of nanoseconds, a fresh token has
  more than the skew - or a tenth of its life - left.\<close>

lemma go_div_pos: "0 \<le> a \<Longrightarrow> 0 < b \<Longrightarrow> go_div a b = a div b"
  by (auto simp: go_div_def sgn_if)

lemma go_div_neg: "a < 0 \<Longrightarrow> 0 < b \<Longrightarrow> a \<le> go_div a b"
proof -
  assume a: "a < 0" and b: "0 < b"
  have "(- a) div b \<le> - a" using a b by (intro int_div_le_self) simp
  then show ?thesis using a b by (simp add: go_div_def)
qed

lemma freshAt_before_expiry:
  assumes "freshAt skew token now" "0 \<le> skew" "skew < max_int64"
    and "ct_expiresAt token = t0 + wrap64 (tr_ExpiresIn (ct_response token) * second)" "t0 \<le> now"
  shows "now < ct_expiresAt token"
proof -
  let ?ttl = "wrap64 (tr_ExpiresIn (ct_response token) * second)"
  let ?skew = "if ?ttl \<le> skew then go_div ?ttl 10 else skew"
  have fresh: "?skew < time_sub (ct_expiresAt token) now"
    using assms(1) by (simp add: freshAt_def Let_def split: if_splits)
  have range: "min_int64 \<le> ?ttl" "?ttl \<le> max_int64" using wrap64_range by auto
  have min: "min_int64 \<le> ?skew"
    using range assms(2,3) go_div_neg[of ?ttl 10] go_div_pos[of ?ttl 10]
    by (cases "?ttl < 0") (auto simp: min_int64_def)
  have gt: "?skew < ct_expiresAt token - now" using time_sub_gt[OF min fresh] .
  show ?thesis
  proof (cases "?ttl < 0")
    case True
    then have "?ttl \<le> ?skew" using go_div_neg[of ?ttl 10] assms(2) by auto
    then show ?thesis using gt assms(4,5) by linarith
  next
    case False
    then have "0 \<le> ?skew" using go_div_pos[of ?ttl 10] assms(2) by (auto simp: pos_imp_zdiv_nonneg_iff)
    then show ?thesis using gt by linarith
  qed
qed

text \<open>A lifetime beyond 64 bits of nanoseconds wraps to a negative one: such a token is never fresh.\<close>

lemma overflowing_lifetime_never_fresh:
  assumes "wrap64 (tr_ExpiresIn (ct_response token) * second) < 0" "0 \<le> skew" "skew < max_int64"
    and "ct_expiresAt token = t0 + wrap64 (tr_ExpiresIn (ct_response token) * second)" "t0 \<le> now"
  shows "\<not> freshAt skew token now"
  using freshAt_before_expiry[OF _ assms(2-5)] assms(1,4,5) by fastforce

subsection \<open>What a request sends and accepts\<close>

text \<open>The request of a token, as it leaves the client.\<close>

definition sent_request ::
  "'e token_net \<Rightarrow> ('h, 'e) token_provider \<Rightarrow> string \<Rightarrow> string list \<Rightarrow> token_http_request \<Rightarrow> bool" where
  "sent_request net p audience scopes req \<longleftrightarrow>
     (\<exists>req0. nt_new_request net ''POST'' (tp_tokenURL p) (Encode (token_form audience scopes)) = Inr req0 \<and>
        tp_authenticator p (req0\<lparr>tq_header := (tq_header req0)
          (''Content-Type'' \<mapsto> ''application/x-www-form-urlencoded'', ''Accept'' \<mapsto> ''application/json'')\<rparr>) = Inr req)"

text \<open>C31: A token request yields a token exactly when the authenticated form request is answered with
  status 200 and a body of at most 1 MiB that is one JSON document followed by nothing, with a
  non-empty access token, token type bearer in any case, and a positive lifetime.\<close>

theorem requestToken_decides:
  "requestToken net p now audience scopes = Inr token \<longleftrightarrow>
     (\<exists>req b rest. sent_request net p audience scopes req \<and> nt_do net req = Inr (200, Some b) \<and>
        bd_err b = None \<and> length (bd_bytes b) \<le> 1048576 \<and>
        jd_value (nt_json net) (bd_bytes b) = Inr (ct_response token, rest) \<and>
        jd_extra (nt_json net) rest = ExtraEOF \<and> tr_AccessToken (ct_response token) \<noteq> [] \<and>
        EqualFold (tr_TokenType (ct_response token)) TokenTypeBearer \<and>
        0 < tr_ExpiresIn (ct_response token) \<and>
        ct_expiresAt token = now + wrap64 (tr_ExpiresIn (ct_response token) * second))"
  (is "?l \<longleftrightarrow> ?r")
proof
  have lim: "0 \<le> maxTokenResponseBody" by (simp add: maxTokenResponseBody_def)
  note dec = json_Decode_Inr[OF lim, of "nt_json net"]
  show ?r if l: ?l
  proof -
    obtain req status body where s: "sent_request net p audience scopes req"
        "nt_do net req = Inr (status, body)"
      and st: "status = 200"
      and r: "json_Decode (nt_json net) body maxTokenResponseBody = Inr (ct_response token)"
      using l unfolding requestToken_def sent_request_def
      by (auto simp: Let_def split: sum.splits prod.splits if_splits)
    show ?thesis
      using s st r[unfolded dec] requestToken_Inr[OF l] by (auto simp: maxTokenResponseBody_def)
  qed
  show ?l if r: ?r
  proof -
    obtain req b rest req0 where s: "nt_do net req = Inr (200, Some b)"
        "nt_new_request net ''POST'' (tp_tokenURL p) (Encode (token_form audience scopes)) = Inr req0"
        "tp_authenticator p (req0\<lparr>tq_header := (tq_header req0)
          (''Content-Type'' \<mapsto> ''application/x-www-form-urlencoded'', ''Accept'' \<mapsto> ''application/json'')\<rparr>) = Inr req"
      and d: "bd_err b = None" "length (bd_bytes b) \<le> 1048576"
        "jd_value (nt_json net) (bd_bytes b) = Inr (ct_response token, rest)"
        "jd_extra (nt_json net) rest = ExtraEOF"
      and t: "tr_AccessToken (ct_response token) \<noteq> []"
        "EqualFold (tr_TokenType (ct_response token)) TokenTypeBearer"
        "0 < tr_ExpiresIn (ct_response token)"
        "ct_expiresAt token = now + wrap64 (tr_ExpiresIn (ct_response token) * second)"
      using r unfolding sent_request_def by blast
    have "json_Decode (nt_json net) (Some b) maxTokenResponseBody = Inr (ct_response token)"
      unfolding dec using d by (auto simp: maxTokenResponseBody_def)
    then show ?thesis using s t by (simp add: requestToken_def Let_def time_add_def)
  qed
qed

lemma token_form_lookup:
  "map_of (token_form audience scopes) ''grant_type'' = Some ''client_credentials''"
  "map_of (token_form audience scopes) ''audience'' = Some audience"
  by (simp_all add: token_form_def Let_def)

text \<open>The client transport hands on exactly the caller's request with one header added: the base
  transport is called with \<open>Authorization: Bearer\<close> and the token of the transport's audience and scopes,
  and only if there is one; the caller's own headers never change. When authorization fails the
  request's body is left open, although \<open>http.RoundTripper\<close> obliges a transport to close it.\<close>

lemma RoundTrip_decides:
  "RoundTrip (Some \<lparr>tt_base = base, tt_provider = Some token_of, tt_audience = audience, tt_scopes = scopes\<rparr>)
     (Some req) =
   (case token_of audience scopes of
      Inl err \<Rightarrow> (Inl (TransportAuthorize (TokenFailed err)), Some req)
    | Inr resp \<Rightarrow>
        (Inr (base (req\<lparr>or_header := (or_header req)(''Authorization'' \<mapsto> ''Bearer '' @ tr_AccessToken resp)\<rparr>)),
         Some (req\<lparr>or_body_open := False\<rparr>)))"
  by (simp add: RoundTrip_def AuthorizeRequest_def Token_def authorize_header_def split: sum.split)

text \<open>The same through \<open>NewHTTPClient\<close>, on a request with an open body.\<close>

lemma RoundTrip_failure_leaks_body:
  "token_of audience (NormalizeScopes scopes) = Inl err \<Longrightarrow> or_body_open req \<Longrightarrow>
     \<exists>e req'. RoundTrip (Some (NewHTTPClient base (Some token_of) audience scopes)) (Some req) = (Inl e, Some req') \<and>
       or_body_open req'"
  by (simp add: RoundTrip_def NewHTTPClient_def AuthorizeRequest_def Token_def)

subsection \<open>Targets\<close>

text \<open>A target calls its provider with its own audience and scopes; \<open>token_of p\<close> is the provider's
  \<open>TokenResponse\<close>.\<close>

type_synonym ('h, 'e, 'r) provider_calls =
  "('h, 'e) token_provider \<Rightarrow> string \<Rightarrow> string list \<Rightarrow> 'r + token_response"

definition target_TokenResponse ::
  "('h, 'e, 'r) provider_calls \<Rightarrow> ('h, 'e) client_target \<Rightarrow> 'r + token_response" where
  "target_TokenResponse token_of t = token_of (tg_provider t) (tg_audience t) (tg_scopes t)"

definition target_Token :: "('h, 'e, 'r) provider_calls \<Rightarrow> ('h, 'e) client_target \<Rightarrow> 'r + string" where
  "target_Token token_of t = Token (token_of (tg_provider t)) (tg_audience t) (tg_scopes t)"

definition target_AuthorizeRequest ::
  "('h, 'e, 'r) provider_calls \<Rightarrow> ('h, 'e) client_target \<Rightarrow> out_request option \<Rightarrow>
     'r authorize_error + out_request" where
  "target_AuthorizeRequest token_of t req =
     AuthorizeRequest (token_of (tg_provider t)) req (tg_audience t) (tg_scopes t)"

definition target_HTTPClient ::
  "('h, 'e, 'r) provider_calls \<Rightarrow> ('h, 'e) client_target \<Rightarrow> (out_request \<Rightarrow> 'x) \<Rightarrow> ('r, 'x) client_transport" where
  "target_HTTPClient token_of t base =
     NewHTTPClient base (Some (token_of (tg_provider t))) (tg_audience t) (tg_scopes t)"

definition target_Transport ::
  "('h, 'e, 'r) provider_calls \<Rightarrow> ('h, 'e) client_target \<Rightarrow> (out_request \<Rightarrow> 'x) \<Rightarrow> ('r, 'x) client_transport" where
  "target_Transport token_of t base =
     \<lparr>tt_base = base, tt_provider = Some (token_of (tg_provider t)), tt_audience = tg_audience t,
      tt_scopes = tg_scopes t\<rparr>"

definition provider_HTTPClient ::
  "('h, 'e, 'r) provider_calls \<Rightarrow> ('h, 'e) token_provider \<Rightarrow> (out_request \<Rightarrow> 'x) \<Rightarrow> ('r, 'x) client_transport" where
  "provider_HTTPClient token_of p base = NewHTTPClient base (Some (token_of p)) [] []"

definition provider_Transport ::
  "('h, 'e, 'r) provider_calls \<Rightarrow> ('h, 'e) token_provider \<Rightarrow> (out_request \<Rightarrow> 'x) \<Rightarrow> ('r, 'x) client_transport" where
  "provider_Transport token_of p base =
     \<lparr>tt_base = base, tt_provider = Some (token_of p), tt_audience = [], tt_scopes = []\<rparr>"

definition cb_BuildHTTPClient ::
  "'h \<Rightarrow> 'e \<Rightarrow> ('h, 'e, 'r) provider_calls \<Rightarrow> ('h, 'e) client_builder \<Rightarrow> (out_request \<Rightarrow> 'x) \<Rightarrow>
     client_config_error + ('r, 'x) client_transport" where
  "cb_BuildHTTPClient defaultClient missing token_of b base =
     (case cb_Build defaultClient missing b of
        Inl err \<Rightarrow> Inl err
      | Inr p \<Rightarrow> Inr (NewHTTPClient base (Some (token_of p)) [] []))"

definition cb_MustHTTPClient ::
  "'h \<Rightarrow> 'e \<Rightarrow> ('h, 'e, 'r) provider_calls \<Rightarrow> ('h, 'e) client_builder \<Rightarrow> (out_request \<Rightarrow> 'x) \<Rightarrow>
     client_config_error panic + ('r, 'x) client_transport" where
  "cb_MustHTTPClient defaultClient missing token_of b base =
     must (cb_BuildHTTPClient defaultClient missing token_of b base)"

text \<open>Both ways to a transport from a target are one: the scopes of a target are already normal.\<close>

lemma target_transports_agree:
  assumes "t = provider_For p audience scopes"
  shows "target_HTTPClient token_of t base = target_Transport token_of t base"
  by (simp add: assms target_HTTPClient_def target_Transport_def NewHTTPClient_def provider_For_def)

end
