(* ===== verification/Token_Cache.thy ===== *)
theory Token_Cache
  imports Token_Client Call_Bounds
begin

text \<open>
  \<open>client/cache.go\<close> and \<open>client/provider.go\<close>: the token cache of a provider and its single-flight
  requests, used by many goroutines at once.

  Calls under way are objects shared by pointer: they live in a store \<open>tc_calls\<close> at addresses that
  are never reused. Each critical section of the mutex is one step of \<open>tstep\<close>; the goroutine that
  \<open>joinOrStartCall\<close> starts is the open call itself, which completes at some time with whatever
  \<open>requestToken\<close> returns. A caller is a number with a program counter.
\<close>

subsection \<open>The cache and the calls under way\<close>

type_synonym cache_key = "string \<times> string"

text \<open>\<open>inflightCall\<close>, with the arguments its goroutine captured. \<open>ic_done\<close> is the closed channel,
  \<open>ic_cancelled\<close> that \<open>cancel\<close> was called.\<close>

record 'r inflight_call =
  ic_key :: cache_key
  ic_audience :: string
  ic_scopes :: "string list"
  ic_waiters :: int
  ic_token :: "cached_token option"
  ic_err :: "'r option"
  ic_completed :: bool
  ic_abandoned :: bool
  ic_cancelled :: bool
  ic_done :: bool

record 'r token_cache =
  tc_skew :: duration
  tc_cache :: "cache_key \<rightharpoonup> cached_token"
  tc_inflight :: "cache_key \<rightharpoonup> nat"
  tc_calls :: "nat \<rightharpoonup> 'r inflight_call"
  tc_next :: nat

definition new_token_cache :: "duration \<Rightarrow> 'r token_cache" where
  "new_token_cache skew =
     \<lparr>tc_skew = skew, tc_cache = Map.empty, tc_inflight = Map.empty, tc_calls = Map.empty, tc_next = 0\<rparr>"

definition purgeStale :: "time \<Rightarrow> 'r token_cache \<Rightarrow> 'r token_cache" where
  "purgeStale now tc =
     tc\<lparr>tc_cache := (\<lambda>key. case tc_cache tc key of
          None \<Rightarrow> None
        | Some token \<Rightarrow> if \<not> freshAt (tc_skew tc) token now then None else Some token)\<rparr>"

definition cached :: "time \<Rightarrow> cache_key \<Rightarrow> 'r token_cache \<Rightarrow> 'r token_cache \<times> cached_token option" where
  "cached now key tc = (let tc = purgeStale now tc in (tc, tc_cache tc key))"

text \<open>The outcome of \<open>joinOrStartCall\<close>: a cached token, or the address of the call to wait for.\<close>

datatype joined = Hit cached_token | Wait_for nat

definition joinOrStartCall ::
  "time \<Rightarrow> cache_key \<Rightarrow> string \<Rightarrow> string list \<Rightarrow> 'r token_cache \<Rightarrow> 'r token_cache \<times> joined" where
  "joinOrStartCall now key audience scopes tc0 =
     (let tc = purgeStale now tc0 in
      case tc_cache tc key of
        Some token \<Rightarrow> (tc, Hit token)
      | None \<Rightarrow>
          (case tc_inflight tc key of
             Some c \<Rightarrow>
               (tc\<lparr>tc_calls := (tc_calls tc)(c := map_option
                  (\<lambda>call. call\<lparr>ic_waiters := ic_waiters call + 1\<rparr>) (tc_calls tc c))\<rparr>, Wait_for c)
           | None \<Rightarrow>
               let c = tc_next tc;
                   call = \<lparr>ic_key = key, ic_audience = audience, ic_scopes = scopes, ic_waiters = 1,
                     ic_token = None, ic_err = None, ic_completed = False, ic_abandoned = False,
                     ic_cancelled = False, ic_done = False\<rparr> in
               (tc\<lparr>tc_inflight := (tc_inflight tc)(key \<mapsto> c), tc_calls := (tc_calls tc)(c \<mapsto> call),
                   tc_next := c + 1\<rparr>, Wait_for c)))"

text \<open>The critical section at the end of \<open>runCall\<close>.\<close>

definition runCall_finish :: "nat \<Rightarrow> 'r + cached_token \<Rightarrow> 'r token_cache \<Rightarrow> 'r token_cache" where
  "runCall_finish c result tc =
     (case tc_calls tc c of
        None \<Rightarrow> tc
      | Some call0 \<Rightarrow>
          let call = call0\<lparr>ic_token := (case result of Inl _ \<Rightarrow> None | Inr token \<Rightarrow> Some token),
                ic_err := (case result of Inl err \<Rightarrow> Some err | Inr _ \<Rightarrow> None),
                ic_completed := True, ic_cancelled := True, ic_done := True\<rparr>;
              key = ic_key call;
              tc = tc\<lparr>tc_calls := (tc_calls tc)(c \<mapsto> call)\<rparr> in
          if tc_inflight tc key = Some c then
            tc\<lparr>tc_cache :=
                  (case result of
                     Inr token \<Rightarrow> if \<not> ic_abandoned call then (tc_cache tc)(key \<mapsto> token) else tc_cache tc
                   | Inl _ \<Rightarrow> tc_cache tc),
               tc_inflight := (tc_inflight tc)(key := None)\<rparr>
          else tc)"

definition releaseWaiter :: "cache_key \<Rightarrow> nat \<Rightarrow> 'r token_cache \<Rightarrow> 'r token_cache" where
  "releaseWaiter key c tc =
     (case tc_calls tc c of
        None \<Rightarrow> tc
      | Some call \<Rightarrow>
          if ic_completed call \<or> ic_abandoned call then tc
          else if tc_inflight tc key \<noteq> Some c then tc
          else
            let call = call\<lparr>ic_waiters := ic_waiters call - 1\<rparr> in
            if ic_waiters call > 0 then tc\<lparr>tc_calls := (tc_calls tc)(c \<mapsto> call)\<rparr>
            else tc\<lparr>tc_calls := (tc_calls tc)(c \<mapsto> call\<lparr>ic_abandoned := True, ic_cancelled := True\<rparr>),
                    tc_inflight := (tc_inflight tc)(key := None)\<rparr>)"

subsection \<open>Callers\<close>

datatype 'x caller_ctx = NilCallerCtx | LiveCtx | EndedCallerCtx 'x

datatype ('e, 'x) call_error =
    AudienceRequired | NilCallContext | CallContextEnded 'x | CallFailed "'e token_request_error"

datatype ('e, 'x) tpc =
    TIdle
  | TMissed cache_key string "string list"
  | TWaiting cache_key nat
  | TLeaving cache_key nat 'x
  | TDone cache_key "('e, 'x) call_error + token_response"
  | TRefused "('e, 'x) call_error"

record ('e, 'x) token_system =
  ts_tc :: "'e token_request_error token_cache"
  ts_now :: time
  ts_ctx :: "nat \<Rightarrow> 'x caller_ctx"
  ts_pc :: "nat \<Rightarrow> ('e, 'x) tpc"

text \<open>\<open>TokenResponse\<close> up to the first look into the cache.\<close>

definition call_begin ::
  "('h, 'e) token_provider \<Rightarrow> time \<Rightarrow> string \<Rightarrow> string list \<Rightarrow> 'e token_request_error token_cache \<Rightarrow>
     'e token_request_error token_cache \<times> ('e, 'x) tpc" where
  "call_begin p now audience0 scopes0 tc =
     (case target p audience0 scopes0 of
        None \<Rightarrow> (tc, TRefused AudienceRequired)
      | Some (audience, scopes) \<Rightarrow>
          let key = cacheKey audience scopes in
          (case cached now key tc of
             (tc, Some token) \<Rightarrow> (tc, TDone key (Inr (ct_response token)))
           | (tc, None) \<Rightarrow> (tc, TMissed key audience scopes)))"

text \<open>\<open>joinOrStartCall\<close> and the decision after it.\<close>

definition call_join ::
  "time \<Rightarrow> cache_key \<Rightarrow> string \<Rightarrow> string list \<Rightarrow> 'e token_request_error token_cache \<Rightarrow>
     'e token_request_error token_cache \<times> ('e, 'x) tpc" where
  "call_join now key audience scopes tc =
     (case joinOrStartCall now key audience scopes tc of
        (tc, Hit token) \<Rightarrow> (tc, TDone key (Inr (ct_response token)))
      | (tc, Wait_for c) \<Rightarrow> (tc, TWaiting key c))"

text \<open>The answer of a call that is done.\<close>

definition call_answer :: "'e token_request_error inflight_call \<Rightarrow> ('e, 'x) call_error + token_response" where
  "call_answer call =
     (case ic_err call of
        Some err \<Rightarrow> Inl (CallFailed err)
      | None \<Rightarrow> Inr (ct_response (the (ic_token call))))"

abbreviation move ::
  "('e, 'x) token_system \<Rightarrow> nat \<Rightarrow> 'e token_request_error token_cache \<times> ('e, 'x) tpc \<Rightarrow>
     ('e, 'x) token_system" where
  "move s t r \<equiv> s\<lparr>ts_tc := fst r, ts_pc := (ts_pc s)(t := snd r)\<rparr>"

inductive tstep ::
  "('h, 'e) token_provider \<Rightarrow> ('e, 'x) token_system \<Rightarrow> ('e, 'x) token_system \<Rightarrow> bool" for p where
  tick: "0 \<le> d \<Longrightarrow> tstep p s (s\<lparr>ts_now := ts_now s + d\<rparr>)"
| ctx_end: "ts_ctx s t = LiveCtx \<Longrightarrow> tstep p s (s\<lparr>ts_ctx := (ts_ctx s)(t := EndedCallerCtx x)\<rparr>)"
| begin_call: "ts_pc s t = TIdle \<Longrightarrow>
    tstep p s (move s t (call_begin p (ts_now s) audience scopes (ts_tc s)))"
| nil_ctx: "ts_pc s t = TMissed key audience scopes \<Longrightarrow> ts_ctx s t = NilCallerCtx \<Longrightarrow>
    tstep p s (move s t (ts_tc s, TRefused NilCallContext))"
| ctx_ended: "ts_pc s t = TMissed key audience scopes \<Longrightarrow> ts_ctx s t = EndedCallerCtx x \<Longrightarrow>
    tstep p s (move s t (ts_tc s, TRefused (CallContextEnded x)))"
| join: "ts_pc s t = TMissed key audience scopes \<Longrightarrow> ts_ctx s t \<noteq> NilCallerCtx \<Longrightarrow>
    tstep p s (move s t (call_join (ts_now s) key audience scopes (ts_tc s)))"
| call_done: "ts_pc s t = TWaiting key c \<Longrightarrow> tc_calls (ts_tc s) c = Some call \<Longrightarrow> ic_done call \<Longrightarrow>
    tstep p s (move s t (ts_tc s, TDone key (call_answer call)))"
| ctx_done: "ts_pc s t = TWaiting key c \<Longrightarrow> ts_ctx s t = EndedCallerCtx x \<Longrightarrow>
    tstep p s (move s t (ts_tc s, TLeaving key c x))"
| release: "ts_pc s t = TLeaving key c x \<Longrightarrow>
    tstep p s (move s t (releaseWaiter key c (ts_tc s), TDone key (Inl (CallContextEnded x))))"
| complete: "tc_calls (ts_tc s) c = Some call \<Longrightarrow> \<not> ic_completed call \<Longrightarrow> t0 \<le> ts_now s \<Longrightarrow>
    requestToken net p t0 (ic_audience call) (ic_scopes call) = result \<Longrightarrow>
    tstep p s (s\<lparr>ts_tc := runCall_finish c result (ts_tc s)\<rparr>)"

definition initial_tokens :: "('h, 'e) token_provider \<Rightarrow> time \<Rightarrow> (nat \<Rightarrow> 'x caller_ctx) \<Rightarrow> ('e, 'x) token_system" where
  "initial_tokens p now ctxs =
     \<lparr>ts_tc = new_token_cache (tp_refreshSkew p), ts_now = now, ts_ctx = ctxs, ts_pc = (\<lambda>_. TIdle)\<rparr>"

inductive treachable :: "('h, 'e) token_provider \<Rightarrow> ('e, 'x) token_system \<Rightarrow> bool" for p where
  tstart: "treachable p (initial_tokens p now ctxs)"
| tnext: "treachable p s \<Longrightarrow> tstep p s s' \<Longrightarrow> treachable p s'"

subsection \<open>The invariant of the cache\<close>

definition open_call :: "'r inflight_call \<Rightarrow> bool" where
  "open_call call \<longleftrightarrow> \<not> ic_completed call \<and> \<not> ic_abandoned call"

text \<open>The token answers a token request of the provider, made for an audience and scopes with this key.\<close>

definition good_token :: "('h, 'e) token_provider \<Rightarrow> time \<Rightarrow> cache_key \<Rightarrow> cached_token \<Rightarrow> bool" where
  "good_token p now key token \<longleftrightarrow>
     (\<exists>net t0 audience scopes. t0 \<le> now \<and> TrimSpace audience = audience \<and> NormalizeScopes scopes = scopes \<and>
        cacheKey audience scopes = key \<and> requestToken net p t0 audience scopes = Inr token)"

text \<open>\<open>W\<close> is the set of callers waiting on the call. An open call is the one under way for its key
  and counts its waiters; an abandoned one has none; the request is cancelled only then.\<close>

definition call_ok ::
  "('h, 'e) token_provider \<Rightarrow> time \<Rightarrow> 'e token_request_error token_cache \<Rightarrow> nat \<Rightarrow> nat set \<Rightarrow>
     'e token_request_error inflight_call \<Rightarrow> bool" where
  "call_ok p now tc c W call \<longleftrightarrow>
     finite W \<and> cacheKey (ic_audience call) (ic_scopes call) = ic_key call \<and>
     TrimSpace (ic_audience call) = ic_audience call \<and> NormalizeScopes (ic_scopes call) = ic_scopes call \<and>
     (open_call call \<longrightarrow> tc_inflight tc (ic_key call) = Some c \<and> ic_waiters call = int (card W) \<and> W \<noteq> {}) \<and>
     (ic_abandoned call \<longrightarrow> W = {}) \<and> (ic_cancelled call \<longleftrightarrow> \<not> open_call call) \<and>
     (ic_done call \<longleftrightarrow> ic_completed call) \<and>
     (ic_completed call \<and> ic_err call = None \<longrightarrow>
        (\<exists>token. ic_token call = Some token \<and> good_token p now (ic_key call) token))"

text \<open>The token was delivered by a completed request for this key.\<close>

definition delivered :: "'r token_cache \<Rightarrow> cache_key \<Rightarrow> cached_token \<Rightarrow> bool" where
  "delivered tc key token \<longleftrightarrow> (\<exists>c call. tc_calls tc c = Some call \<and> ic_key call = key \<and>
     ic_completed call \<and> ic_err call = None \<and> ic_token call = Some token)"

definition tc_ok ::
  "('h, 'e) token_provider \<Rightarrow> time \<Rightarrow> (nat \<Rightarrow> nat set) \<Rightarrow> 'e token_request_error token_cache \<Rightarrow> bool" where
  "tc_ok p now W tc \<longleftrightarrow>
     (\<forall>key c. tc_inflight tc key = Some c \<longrightarrow>
        (\<exists>call. tc_calls tc c = Some call \<and> ic_key call = key \<and> open_call call)) \<and>
     (\<forall>c call. tc_calls tc c = Some call \<longrightarrow> call_ok p now tc c (W c) call) \<and>
     (\<forall>c. tc_calls tc c = None \<longrightarrow> W c = {}) \<and>
     (\<forall>c. tc_next tc \<le> c \<longrightarrow> tc_calls tc c = None) \<and>
     (\<forall>key token. tc_cache tc key = Some token \<longrightarrow> delivered tc key token)"

lemma tc_okI:
  assumes "\<And>key c. tc_inflight tc key = Some c \<Longrightarrow>
      \<exists>call. tc_calls tc c = Some call \<and> ic_key call = key \<and> open_call call"
    and "\<And>c call. tc_calls tc c = Some call \<Longrightarrow> call_ok p now tc c (W c) call"
    and "\<And>c. tc_calls tc c = None \<Longrightarrow> W c = {}"
    and "\<And>c. tc_next tc \<le> c \<Longrightarrow> tc_calls tc c = None"
    and "\<And>key token. tc_cache tc key = Some token \<Longrightarrow> delivered tc key token"
  shows "tc_ok p now W tc"
  unfolding tc_ok_def using assms by blast

lemma tc_okD:
  assumes "tc_ok p now W tc"
  shows "tc_inflight tc key = Some c \<Longrightarrow>
      \<exists>call. tc_calls tc c = Some call \<and> ic_key call = key \<and> open_call call"
    "tc_calls tc c = Some call \<Longrightarrow> call_ok p now tc c (W c) call"
    "tc_calls tc c = None \<Longrightarrow> W c = {}"
    "tc_next tc \<le> c \<Longrightarrow> tc_calls tc c = None"
    "tc_cache tc key = Some token \<Longrightarrow> delivered tc key token"
  using assms unfolding tc_ok_def by blast+

text \<open>What depends on the store of calls only.\<close>

lemma call_ok_cong:
  assumes "call_ok p now tc c W call" "tc_inflight tc' (ic_key call) = tc_inflight tc (ic_key call)"
  shows "call_ok p now tc' c W call"
  using assms by (simp add: call_ok_def)

lemma call_ok_time: "call_ok p now tc c W call \<Longrightarrow> now \<le> now' \<Longrightarrow> call_ok p now' tc c W call"
  unfolding call_ok_def good_token_def by (meson order_trans)

lemma delivered_cong: "delivered tc key token \<Longrightarrow> tc_calls tc' = tc_calls tc \<Longrightarrow> delivered tc' key token"
  by (simp add: delivered_def)

lemma delivered_mono:
  "delivered tc key token \<Longrightarrow> tc_calls tc \<subseteq>\<^sub>m tc_calls tc' \<Longrightarrow> delivered tc' key token"
  unfolding delivered_def map_le_def by (metis domI)

lemma tc_ok_time: "tc_ok p now W tc \<Longrightarrow> now \<le> now' \<Longrightarrow> tc_ok p now' W tc"
  unfolding tc_ok_def using call_ok_time by blast

lemma tc_ok_subcache:
  assumes "tc_ok p now W tc" "\<And>key token. cache key = Some token \<Longrightarrow> tc_cache tc key = Some token"
  shows "tc_ok p now W (tc\<lparr>tc_cache := cache\<rparr>)"
proof (rule tc_okI)
  show "delivered (tc\<lparr>tc_cache := cache\<rparr>) key token"
    if "tc_cache (tc\<lparr>tc_cache := cache\<rparr>) key = Some token" for key token
    using delivered_cong[OF tc_okD(5)[OF assms(1) assms(2)]] that by simp
  show "call_ok p now (tc\<lparr>tc_cache := cache\<rparr>) c (W c) call"
    if "tc_calls (tc\<lparr>tc_cache := cache\<rparr>) c = Some call" for c call
    using call_ok_cong[OF tc_okD(2)[OF assms(1)]] that by simp
qed (use tc_okD[OF assms(1)] in auto)

lemma tc_ok_purge: "tc_ok p now W tc \<Longrightarrow> tc_ok p now W (purgeStale now' tc)"
  unfolding purgeStale_def by (rule tc_ok_subcache) (auto split: option.splits if_splits)

lemma purge_simps [simp]:
  "tc_calls (purgeStale now tc) = tc_calls tc" "tc_inflight (purgeStale now tc) = tc_inflight tc"
  "tc_next (purgeStale now tc) = tc_next tc" "tc_skew (purgeStale now tc) = tc_skew tc"
  by (simp_all add: purgeStale_def)

lemma purge_cache:
  "tc_cache (purgeStale now tc) key = Some token \<longleftrightarrow>
     tc_cache tc key = Some token \<and> freshAt (tc_skew tc) token now"
  by (auto simp: purgeStale_def split: option.splits)

text \<open>Replacing one call by a later version of itself.\<close>

lemma delivered_upd:
  assumes "delivered tc key token" "tc_calls tc c = Some call" "\<not> ic_completed call"
    and "tc_calls tc' = (tc_calls tc)(c := x)"
  shows "delivered tc' key token"
proof -
  obtain c' call' where c': "tc_calls tc c' = Some call'" "ic_key call' = key" "ic_completed call'"
    "ic_err call' = None" "ic_token call' = Some token"
    using assms(1) by (auto simp: delivered_def)
  then have "c' \<noteq> c" using assms(2,3) by auto
  with c' assms(4) show ?thesis by (auto simp: delivered_def)
qed

text \<open>A caller that joins the call under way.\<close>

lemma tc_ok_join_call:
  assumes ok: "tc_ok p now W tc" and fl: "tc_inflight tc key = Some c" and t: "\<And>c. t \<notin> W c"
  shows "tc_ok p now (W(c := insert t (W c)))
    (tc\<lparr>tc_calls := (tc_calls tc)(c := map_option (\<lambda>call. call\<lparr>ic_waiters := ic_waiters call + 1\<rparr>)
        (tc_calls tc c))\<rparr>)" (is "tc_ok p now ?W ?tc")
proof -
  obtain call where c: "tc_calls tc c = Some call" "ic_key call = key" "open_call call"
    using tc_okD(1)[OF ok fl] by blast
  have cok: "call_ok p now tc c (W c) call" by (rule tc_okD(2)[OF ok c(1)])
  let ?call = "call\<lparr>ic_waiters := ic_waiters call + 1\<rparr>"
  have calls: "tc_calls ?tc = (tc_calls tc)(c \<mapsto> ?call)" using c(1) by simp
  have new: "call_ok p now ?tc c (?W c) ?call"
    using cok t[of c] c(3) by (simp add: call_ok_def open_call_def card_insert_if)
  show ?thesis
  proof (rule tc_okI)
    show "\<exists>call. tc_calls ?tc c' = Some call \<and> ic_key call = key' \<and> open_call call"
      if "tc_inflight ?tc key' = Some c'" for key' c'
    proof (cases "c' = c")
      case True
      then have "key' = key" using tc_okD(1)[OF ok, of key' c'] that c by auto
      then show ?thesis using True c calls by (simp add: open_call_def)
    next
      case False
      then show ?thesis using tc_okD(1)[OF ok, of key' c'] that calls by simp
    qed
    show "call_ok p now ?tc c' (?W c') call'" if "tc_calls ?tc c' = Some call'" for c' call'
      using that new tc_okD(2)[OF ok, of c' call'] calls
      by (cases "c' = c") (auto intro: call_ok_cong)
    show "?W c' = {}" if "tc_calls ?tc c' = None" for c'
      using that tc_okD(3)[OF ok, of c'] calls by (auto split: if_splits)
    show "tc_calls ?tc c' = None" if "tc_next ?tc \<le> c'" for c'
      using that tc_okD(4)[OF ok, of c'] c(1) calls by auto
    show "delivered ?tc key' token" if "tc_cache ?tc key' = Some token" for key' token
      using that tc_okD(5)[OF ok, of key' token] delivered_upd[OF _ c(1) _ calls] c(3)
      by (simp add: open_call_def)
  qed
qed

text \<open>A caller that starts a call.\<close>

lemma tc_ok_start_call:
  assumes ok: "tc_ok p now W tc" and fl: "tc_inflight tc (cacheKey audience scopes) = None"
    and t: "\<And>c. t \<notin> W c" and trim: "TrimSpace audience = audience" "NormalizeScopes scopes = scopes"
  defines "call \<equiv> \<lparr>ic_key = cacheKey audience scopes, ic_audience = audience, ic_scopes = scopes,
      ic_waiters = 1, ic_token = None, ic_err = None, ic_completed = False, ic_abandoned = False,
      ic_cancelled = False, ic_done = False\<rparr>"
  shows "tc_ok p now (W(tc_next tc := insert t (W (tc_next tc))))
    (tc\<lparr>tc_inflight := (tc_inflight tc)(cacheKey audience scopes \<mapsto> tc_next tc),
        tc_calls := (tc_calls tc)(tc_next tc \<mapsto> call), tc_next := tc_next tc + 1\<rparr>)"
    (is "tc_ok p now ?W ?tc")
proof -
  let ?c = "tc_next tc" and ?key = "cacheKey audience scopes"
  have none: "tc_calls tc ?c = None" by (rule tc_okD(4)[OF ok]) simp
  then have W: "W ?c = {}" by (rule tc_okD(3)[OF ok])
  show ?thesis
  proof (rule tc_okI)
    show "\<exists>call. tc_calls ?tc c' = Some call \<and> ic_key call = key' \<and> open_call call"
      if "tc_inflight ?tc key' = Some c'" for key' c'
    proof (cases "key' = ?key")
      case True
      then show ?thesis using that by (auto simp: call_def open_call_def)
    next
      case False
      then show ?thesis using tc_okD(1)[OF ok, of key' c'] that none by auto
    qed
    show "call_ok p now ?tc c' (?W c') call'" if "tc_calls ?tc c' = Some call'" for c' call'
    proof (cases "c' = ?c")
      case True
      then show ?thesis using that W trim by (auto simp: call_def call_ok_def open_call_def)
    next
      case False
      then have old: "tc_calls tc c' = Some call'" using that by simp
      have "call_ok p now tc c' (W c') call'" by (rule tc_okD(2)[OF ok old])
      then have "open_call call' \<Longrightarrow> ic_key call' \<noteq> ?key" using fl by (auto simp: call_ok_def)
      then show ?thesis
        using \<open>call_ok p now tc c' (W c') call'\<close> False by (auto simp: call_ok_def)
    qed
    show "?W c' = {}" if "tc_calls ?tc c' = None" for c'
      using that tc_okD(3)[OF ok, of c'] by (auto split: if_splits)
    show "tc_calls ?tc c' = None" if "tc_next ?tc \<le> c'" for c'
      using that tc_okD(4)[OF ok, of c'] by auto
    show "delivered ?tc key' token" if "tc_cache ?tc key' = Some token" for key' token
      using delivered_mono[OF tc_okD(5)[OF ok, of key' token], of ?tc] that none
      by (simp add: map_le_def dom_def)
  qed
qed

text \<open>Updating the call at \<open>c\<close>, with or without taking it out of the calls under way.\<close>

lemma tc_ok_update:
  assumes ok: "tc_ok p now W tc" and c: "tc_calls tc c = Some call" "\<not> ic_completed call"
    and key: "ic_key call' = ic_key call"
    and new: "call_ok p now (tc\<lparr>tc_inflight := fl\<rparr>) c w call'"
    and fl: "\<And>k. fl k \<noteq> tc_inflight tc k \<Longrightarrow> tc_inflight tc k = Some c \<and> fl k = None"
    and gone: "\<not> open_call call' \<Longrightarrow> fl (ic_key call) \<noteq> Some c"
  shows "tc_ok p now (W(c := w)) (tc\<lparr>tc_calls := (tc_calls tc)(c \<mapsto> call'), tc_inflight := fl\<rparr>)"
    (is "tc_ok p now ?W ?tc")
proof (rule tc_okI)
  have flc: "tc_inflight tc k = Some c' \<and> c' \<noteq> c \<or> c' = c \<and> k = ic_key call" if "fl k = Some c'" for k c'
  proof -
    have infl: "tc_inflight tc k = Some c'"
      using fl[of k] that by (cases "fl k = tc_inflight tc k") simp_all
    then obtain x where x: "tc_calls tc c' = Some x" "ic_key x = k"
      using tc_okD(1)[OF ok infl] by blast
    show ?thesis using infl x c(1) by (cases "c' = c") simp_all
  qed
  show "\<exists>call. tc_calls ?tc c' = Some call \<and> ic_key call = k \<and> open_call call"
    if "tc_inflight ?tc k = Some c'" for k c'
    using that flc[of k c'] tc_okD(1)[OF ok, of k c'] gone key by (cases "c' = c") auto
  show "call_ok p now ?tc c' (?W c') x" if "tc_calls ?tc c' = Some x" for c' x
  proof (cases "c' = c")
    case True
    then show ?thesis using that new by (auto intro: call_ok_cong)
  next
    case False
    then have old: "call_ok p now tc c' (W c') x" using that tc_okD(2)[OF ok, of c' x] by simp
    then have "open_call x \<Longrightarrow> fl (ic_key x) = tc_inflight tc (ic_key x)"
      using fl[of "ic_key x"] False by (auto simp: call_ok_def)
    with old False show ?thesis by (auto simp: call_ok_def)
  qed
  show "?W c' = {}" if "tc_calls ?tc c' = None" for c'
    using that tc_okD(3)[OF ok, of c'] by (auto split: if_splits)
  show "tc_calls ?tc c' = None" if "tc_next ?tc \<le> c'" for c'
    using that tc_okD(4)[OF ok, of c'] c(1) by auto
  show "delivered ?tc k token" if "tc_cache ?tc k = Some token" for k token
    using delivered_upd[OF tc_okD(5)[OF ok, of k token] c] that by simp
qed

lemma tc_ok_cache_delivered:
  assumes "tc_ok p now W tc" "delivered tc key token"
  shows "tc_ok p now W (tc\<lparr>tc_cache := (tc_cache tc)(key \<mapsto> token)\<rparr>)"
proof (rule tc_okI)
  let ?tc = "tc\<lparr>tc_cache := (tc_cache tc)(key \<mapsto> token)\<rparr>"
  show "call_ok p now ?tc c (W c) call" if "tc_calls ?tc c = Some call" for c call
    using call_ok_cong[OF tc_okD(2)[OF assms(1)]] that by simp
  show "delivered ?tc k x" if "tc_cache ?tc k = Some x" for k x
    using that assms(2) tc_okD(5)[OF assms(1), of k x]
    by (auto simp: delivered_def split: if_splits)
qed (use tc_okD[OF assms(1)] in auto)

text \<open>The goroutine of a call finishes.\<close>

lemma tc_ok_finish:
  assumes ok: "tc_ok p now W tc" and c: "tc_calls tc c = Some call" "\<not> ic_completed call"
    and good: "\<And>token. result = Inr token \<Longrightarrow> good_token p now (ic_key call) token"
  shows "tc_ok p now W (runCall_finish c result tc)"
proof -
  let ?call = "call\<lparr>ic_token := (case result of Inl _ \<Rightarrow> None | Inr token \<Rightarrow> Some token),
      ic_err := (case result of Inl err \<Rightarrow> Some err | Inr _ \<Rightarrow> None),
      ic_completed := True, ic_cancelled := True, ic_done := True\<rparr>"
  have cok: "call_ok p now tc c (W c) call" by (rule tc_okD(2)[OF ok c(1)])
  have "open_call call \<longleftrightarrow> tc_inflight tc (ic_key call) = Some c"
    using cok tc_okD(1)[OF ok, of "ic_key call" c] c(1) by (auto simp: call_ok_def)
  have new: "call_ok p now (tc\<lparr>tc_inflight := fl\<rparr>) c (W c) ?call" for fl
    using cok good by (auto simp: call_ok_def open_call_def split: sum.split)
  have upd: "tc_ok p now W (tc\<lparr>tc_calls := (tc_calls tc)(c \<mapsto> ?call), tc_inflight := fl\<rparr>)"
    if "\<And>k. fl k \<noteq> tc_inflight tc k \<Longrightarrow> tc_inflight tc k = Some c \<and> fl k = None"
      "fl (ic_key call) \<noteq> Some c" for fl
    using tc_ok_update[OF ok c, of ?call fl "W c"] new that by simp
  show ?thesis
  proof (cases "tc_inflight tc (ic_key call) = Some c")
    case False
    then have "runCall_finish c result tc = tc\<lparr>tc_calls := (tc_calls tc)(c \<mapsto> ?call)\<rparr>"
      using c by (simp add: runCall_finish_def Let_def)
    then show ?thesis using upd[of "tc_inflight tc"] False by simp
  next
    case True
    let ?fl = "(tc_inflight tc)(ic_key call := None)"
    let ?tc = "tc\<lparr>tc_calls := (tc_calls tc)(c \<mapsto> ?call), tc_inflight := ?fl\<rparr>"
    have tc: "tc_ok p now W ?tc"
    proof (rule upd)
      show "tc_inflight tc k = Some c \<and> ?fl k = None" if "?fl k \<noteq> tc_inflight tc k" for k
        using that True by (cases "k = ic_key call") simp_all
    qed simp
    show ?thesis
    proof (cases result)
      case (Inl err)
      then have "runCall_finish c result tc = ?tc"
        using c True by (simp add: runCall_finish_def Let_def)
      then show ?thesis using tc by simp
    next
      case (Inr token)
      have "\<not> ic_abandoned call"
        using tc_okD(1)[OF ok True] c(1) by (simp add: open_call_def)
      then have "runCall_finish c result tc = ?tc\<lparr>tc_cache := (tc_cache ?tc)(ic_key call \<mapsto> token)\<rparr>"
        using c True Inr by (simp add: runCall_finish_def Let_def)
      moreover have "delivered ?tc (ic_key call) token"
        unfolding delivered_def by (intro exI[of _ c] exI[of _ ?call]) (simp add: Inr)
      ultimately show ?thesis using tc_ok_cache_delivered[OF tc] by simp
    qed
  qed
qed

text \<open>A waiting caller leaves.\<close>

lemma call_ok_leave_done:
  "call_ok p now tc c W call \<Longrightarrow> \<not> open_call call \<Longrightarrow> call_ok p now tc c (W - {t}) call"
  by (auto simp: call_ok_def)

lemma tc_ok_leave_done:
  assumes "tc_ok p now W tc" "tc_calls tc c = Some call" "\<not> open_call call"
  shows "tc_ok p now (W(c := W c - {t})) tc"
proof (rule tc_okI)
  show "call_ok p now tc c' ((W(c := W c - {t})) c') x" if "tc_calls tc c' = Some x" for c' x
    using tc_okD(2)[OF assms(1) that] call_ok_leave_done[OF _ assms(3)] assms(2) that by auto
qed (use tc_okD[OF assms(1)] in \<open>auto split: if_splits\<close>)

lemma tc_ok_release:
  assumes ok: "tc_ok p now W tc" and c: "tc_calls tc c = Some call" "ic_key call = key" and t: "t \<in> W c"
  shows "tc_ok p now (W(c := W c - {t})) (releaseWaiter key c tc)"
proof (cases "open_call call")
  case False
  then have "releaseWaiter key c tc = tc" using c by (simp add: releaseWaiter_def open_call_def)
  then show ?thesis using tc_ok_leave_done[OF ok c(1) False] by simp
next
  case True
  then have opn: "\<not> ic_completed call" "\<not> ic_abandoned call" by (simp_all add: open_call_def)
  have cok: "call_ok p now tc c (W c) call" by (rule tc_okD(2)[OF ok c(1)])
  then have W: "finite (W c)" "ic_waiters call = int (card (W c))" "tc_inflight tc key = Some c"
    using True c(2) by (auto simp: call_ok_def)
  have card: "int (card (W c - {t})) = ic_waiters call - 1"
  proof -
    have "0 < card (W c)" using W(1) t by (auto simp: card_gt_0_iff)
    then show ?thesis using W(2) t by (simp add: card_Diff_singleton)
  qed
  let ?call = "call\<lparr>ic_waiters := ic_waiters call - 1\<rparr>"
  show ?thesis
  proof (cases "ic_waiters call - 1 > 0")
    case pos: True
    then have rel: "releaseWaiter key c tc = tc\<lparr>tc_calls := (tc_calls tc)(c \<mapsto> ?call)\<rparr>"
      using c W opn by (simp add: releaseWaiter_def Let_def)
    have "card (W c - {t}) \<noteq> 0" using card pos by linarith
    then have "W c - {t} \<noteq> {}" by (metis card.empty)
    then have "call_ok p now (tc\<lparr>tc_inflight := tc_inflight tc\<rparr>) c (W c - {t}) ?call"
      using cok card True by (simp add: call_ok_def open_call_def)
    then have "tc_ok p now (W(c := W c - {t}))
        (tc\<lparr>tc_calls := (tc_calls tc)(c \<mapsto> ?call), tc_inflight := tc_inflight tc\<rparr>)"
      using True by (intro tc_ok_update[OF ok c(1) opn(1)]) (simp_all add: open_call_def)
    then show ?thesis by (simp add: rel)
  next
    case last: False
    let ?gone = "?call\<lparr>ic_abandoned := True, ic_cancelled := True\<rparr>"
    let ?fl = "(tc_inflight tc)(key := None)"
    have rel: "releaseWaiter key c tc = tc\<lparr>tc_calls := (tc_calls tc)(c \<mapsto> ?gone), tc_inflight := ?fl\<rparr>"
      using c W opn last by (simp add: releaseWaiter_def Let_def)
    have "W c - {t} = {}" using card last W(1) by (metis card_0_eq finite_Diff of_nat_le_0_iff not_less)
    then have "call_ok p now (tc\<lparr>tc_inflight := ?fl\<rparr>) c (W c - {t}) ?gone"
      using cok opn by (simp add: call_ok_def open_call_def)
    then have "tc_ok p now (W(c := W c - {t}))
        (tc\<lparr>tc_calls := (tc_calls tc)(c \<mapsto> ?gone), tc_inflight := ?fl\<rparr>)"
      using W(3) c(2) by (intro tc_ok_update[OF ok c(1) opn(1)]) (auto simp: open_call_def)
    then show ?thesis by (simp add: rel)
  qed
qed

subsection \<open>The callers\<close>

fun waits_on :: "('e, 'x) tpc \<Rightarrow> nat option" where
  "waits_on (TWaiting key c) = Some c"
| "waits_on (TLeaving key c x) = Some c"
| "waits_on _ = None"

definition waiters_at :: "(nat \<Rightarrow> ('e, 'x) tpc) \<Rightarrow> nat \<Rightarrow> nat set" where
  "waiters_at pcs c = {t. waits_on (pcs t) = Some c}"

definition caller_ok :: "'e token_request_error token_cache \<Rightarrow> ('e, 'x) tpc \<Rightarrow> bool" where
  "caller_ok tc pc \<longleftrightarrow>
     (case pc of
        TMissed key audience scopes \<Rightarrow> key = cacheKey audience scopes \<and> TrimSpace audience = audience \<and>
          NormalizeScopes scopes = scopes
      | TWaiting key c \<Rightarrow> \<exists>call. tc_calls tc c = Some call \<and> ic_key call = key
      | TLeaving key c x \<Rightarrow> \<exists>call. tc_calls tc c = Some call \<and> ic_key call = key
      | TDone key (Inr resp) \<Rightarrow> \<exists>token. delivered tc key token \<and> ct_response token = resp
      | _ \<Rightarrow> True)"

definition ts_ok :: "('h, 'e) token_provider \<Rightarrow> ('e, 'x) token_system \<Rightarrow> bool" where
  "ts_ok p s \<longleftrightarrow> tc_ok p (ts_now s) (waiters_at (ts_pc s)) (ts_tc s) \<and>
     (\<forall>t. caller_ok (ts_tc s) (ts_pc s t)) \<and> tc_skew (ts_tc s) = tp_refreshSkew p"

text \<open>What an operation may do to the store of calls: a call keeps its key, a completed one its answer.\<close>

definition calls_le :: "'r token_cache \<Rightarrow> 'r token_cache \<Rightarrow> bool" where
  "calls_le tc tc' \<longleftrightarrow> (\<forall>c call. tc_calls tc c = Some call \<longrightarrow> (\<exists>call'. tc_calls tc' c = Some call' \<and>
     ic_key call' = ic_key call \<and> (ic_completed call \<longrightarrow> ic_completed call' \<and>
       ic_err call' = ic_err call \<and> ic_token call' = ic_token call)))"

lemma calls_le_refl: "tc_calls tc' = tc_calls tc \<Longrightarrow> calls_le tc tc'"
  by (simp add: calls_le_def)

lemma calls_le_upd:
  assumes "tc_calls tc' = (tc_calls tc)(c := Some call')"
    and "\<And>call. tc_calls tc c = Some call \<Longrightarrow> \<not> ic_completed call \<and> ic_key call' = ic_key call"
  shows "calls_le tc tc'"
  using assms by (auto simp: calls_le_def)

lemma calls_le_delivered: "calls_le tc tc' \<Longrightarrow> delivered tc key token \<Longrightarrow> delivered tc' key token"
  unfolding calls_le_def delivered_def by metis

lemma calls_le_call:
  "calls_le tc tc' \<Longrightarrow> \<exists>call. tc_calls tc c = Some call \<and> ic_key call = key \<Longrightarrow>
     \<exists>call. tc_calls tc' c = Some call \<and> ic_key call = key"
  unfolding calls_le_def by metis

lemma caller_ok_mono: "calls_le tc tc' \<Longrightarrow> caller_ok tc pc \<Longrightarrow> caller_ok tc' pc"
  using calls_le_delivered[of tc tc'] calls_le_call[of tc tc']
  by (auto simp: caller_ok_def split: tpc.splits sum.splits)

text \<open>Moving one caller.\<close>

lemma ts_ok_move:
  assumes ok: "ts_ok p s" and le: "calls_le (ts_tc s) (fst r)" and pc: "caller_ok (fst r) (snd r)"
    and tc: "tc_ok p (ts_now s) (waiters_at ((ts_pc s)(t := snd r))) (fst r)"
    and skew: "tc_skew (fst r) = tc_skew (ts_tc s)"
  shows "ts_ok p (move s t r)"
  using ok pc tc skew caller_ok_mono[OF le] by (auto simp: ts_ok_def)

lemma waiters_at_same: "waits_on (pcs t) = waits_on pc \<Longrightarrow> waiters_at (pcs(t := pc)) = waiters_at pcs"
  by (auto simp: waiters_at_def fun_eq_iff)

lemma waiters_at_to:
  "waits_on (pcs t) = None \<Longrightarrow> waits_on pc = Some c \<Longrightarrow>
     waiters_at (pcs(t := pc)) = (waiters_at pcs)(c := insert t (waiters_at pcs c))"
  by (auto simp: waiters_at_def fun_eq_iff)

lemma waiters_at_from:
  "waits_on (pcs t) = Some c \<Longrightarrow> waits_on pc = None \<Longrightarrow>
     waiters_at (pcs(t := pc)) = (waiters_at pcs)(c := waiters_at pcs c - {t})"
  by (auto simp: waiters_at_def fun_eq_iff)

lemma cached_simps:
  "cached now key tc = (purgeStale now tc, tc_cache (purgeStale now tc) key)"
  by (simp add: cached_def Let_def)

lemma ts_ok_begin:
  assumes ok: "ts_ok p s" and pc: "ts_pc s t = TIdle"
  shows "ts_ok p (move s t (call_begin p (ts_now s) audience scopes (ts_tc s)))" (is "ts_ok p (move s t ?r)")
proof -
  have tc: "tc_ok p (ts_now s) (waiters_at (ts_pc s)) (ts_tc s)" using ok by (simp add: ts_ok_def)
  show ?thesis
  proof (cases "target p audience scopes")
    case None
    then have r: "?r = (ts_tc s, TRefused AudienceRequired)" by (simp add: call_begin_def)
    show ?thesis unfolding r
      by (rule ts_ok_move[OF ok])
        (simp_all add: calls_le_refl caller_ok_def waiters_at_same pc tc)
  next
    case (Some a)
    obtain aud ss where a: "a = (aud, ss)" by (cases a)
    define tc1 where "tc1 = purgeStale (ts_now s) (ts_tc s)"
    define pc1 :: "('b, 'c) tpc" where "pc1 = (case tc_cache tc1 (cacheKey aud ss) of
        Some token \<Rightarrow> TDone (cacheKey aud ss) (Inr (ct_response token))
      | None \<Rightarrow> TMissed (cacheKey aud ss) aud ss)"
    have r: "?r = (tc1, pc1)"
      by (simp add: call_begin_def Some a cached_simps tc1_def pc1_def split: option.split)
    have tc1: "tc_ok p (ts_now s) (waiters_at (ts_pc s)) tc1" unfolding tc1_def by (rule tc_ok_purge[OF tc])
    have "caller_ok tc1 pc1"
      using target_Some[OF Some[unfolded a]] tc_okD(5)[OF tc1, of "cacheKey aud ss"]
      by (auto simp: pc1_def caller_ok_def split: option.split)
    moreover have "waits_on pc1 = None" by (simp add: pc1_def split: option.split)
    moreover have "calls_le (ts_tc s) tc1" "tc_skew tc1 = tc_skew (ts_tc s)"
      by (simp_all add: tc1_def calls_le_refl)
    ultimately show ?thesis unfolding r
      by (intro ts_ok_move[OF ok]) (simp_all add: waiters_at_same pc tc1)
  qed
qed

lemma ts_okD:
  assumes "ts_ok p s"
  shows "tc_ok p (ts_now s) (waiters_at (ts_pc s)) (ts_tc s)" "caller_ok (ts_tc s) (ts_pc s t)"
  using assms by (simp_all add: ts_ok_def)

text \<open>A caller that only reads the calls, and does not wait afterwards iff it did not before.\<close>

lemma ts_ok_read:
  assumes ok: "ts_ok p s" and pc: "caller_ok (ts_tc s) pc"
    and w: "waits_on (ts_pc s t) = waits_on pc"
  shows "ts_ok p (move s t (ts_tc s, pc))"
  using ts_okD(1)[OF ok] pc by (intro ts_ok_move[OF ok]) (simp_all add: calls_le_refl waiters_at_same w)

lemma ts_ok_join:
  assumes ok: "ts_ok p s" and pc: "ts_pc s t = TMissed key audience scopes"
  shows "ts_ok p (move s t (call_join (ts_now s) key audience scopes (ts_tc s)))" (is "ts_ok p (move s t ?r)")
proof -
  define tc1 where "tc1 = purgeStale (ts_now s) (ts_tc s)"
  have key: "key = cacheKey audience scopes" "TrimSpace audience = audience" "NormalizeScopes scopes = scopes"
    using ts_okD(2)[OF ok, of t] by (simp_all add: pc caller_ok_def)
  have tc1: "tc_ok p (ts_now s) (waiters_at (ts_pc s)) tc1"
    unfolding tc1_def by (rule tc_ok_purge[OF ts_okD(1)[OF ok]])
  have skew: "tc_skew tc1 = tc_skew (ts_tc s)" and calls: "tc_calls tc1 = tc_calls (ts_tc s)"
    by (simp_all add: tc1_def)
  have t: "t \<notin> waiters_at (ts_pc s) c" for c by (simp add: waiters_at_def pc)
  show ?thesis
  proof (cases "tc_cache tc1 key")
    case (Some token)
    then have r: "?r = (tc1, TDone key (Inr (ct_response token)))"
      by (simp add: call_join_def joinOrStartCall_def Let_def flip: tc1_def)
    show ?thesis unfolding r
      using tc_okD(5)[OF tc1 Some] tc1
      by (intro ts_ok_move[OF ok]) (auto simp: calls_le_refl calls skew waiters_at_same pc caller_ok_def)
  next
    case miss: None
    show ?thesis
    proof (cases "tc_inflight tc1 key")
      case (Some c)
      obtain call where c: "tc_calls tc1 c = Some call" "ic_key call = key" "open_call call"
        using tc_okD(1)[OF tc1 Some] by blast
      let ?tc = "tc1\<lparr>tc_calls := (tc_calls tc1)(c := map_option
          (\<lambda>call. call\<lparr>ic_waiters := ic_waiters call + 1\<rparr>) (tc_calls tc1 c))\<rparr>"
      have r: "?r = (?tc, TWaiting key c)"
        using miss Some by (simp add: call_join_def joinOrStartCall_def Let_def flip: tc1_def)
      have le: "calls_le (ts_tc s) ?tc"
        using c calls
        by (intro calls_le_upd[where c = c and call' = "call\<lparr>ic_waiters := ic_waiters call + 1\<rparr>"])
          (auto simp: open_call_def)
      have "tc_ok p (ts_now s) (waiters_at ((ts_pc s)(t := TWaiting key c))) ?tc"
        using tc_ok_join_call[OF tc1 Some t] by (simp add: waiters_at_to pc)
      moreover have "caller_ok ?tc (TWaiting key c)" using c by (simp add: caller_ok_def)
      ultimately show ?thesis unfolding r
        using le by (intro ts_ok_move[OF ok]) (simp_all only: fst_conv snd_conv skew, simp add: skew)
    next
      case None
      let ?c = "tc_next tc1"
      let ?call = "\<lparr>ic_key = key, ic_audience = audience, ic_scopes = scopes, ic_waiters = 1,
         ic_token = None, ic_err = None, ic_completed = False, ic_abandoned = False,
         ic_cancelled = False, ic_done = False\<rparr>"
      let ?tc = "tc1\<lparr>tc_inflight := (tc_inflight tc1)(key \<mapsto> ?c),
          tc_calls := (tc_calls tc1)(?c \<mapsto> ?call), tc_next := ?c + 1\<rparr>"
      have r: "?r = (?tc, TWaiting key ?c)"
        using miss None by (simp add: call_join_def joinOrStartCall_def Let_def flip: tc1_def)
      have "tc_calls tc1 ?c = None" by (rule tc_okD(4)[OF tc1]) simp
      then have le: "calls_le (ts_tc s) ?tc"
        using calls by (intro calls_le_upd[of _ _ ?c]) auto
      have "tc_ok p (ts_now s) (waiters_at ((ts_pc s)(t := TWaiting key ?c))) ?tc"
        using tc_ok_start_call[OF tc1 None[unfolded key(1)] t key(2,3)]
        by (simp add: waiters_at_to pc key(1))
      moreover have "caller_ok ?tc (TWaiting key ?c)" by (simp add: caller_ok_def)
      ultimately show ?thesis unfolding r
        using le by (intro ts_ok_move[OF ok]) (simp_all only: fst_conv snd_conv skew, simp add: skew)
    qed
  qed
qed

lemma releaseWaiter_calls:
  "calls_le tc (releaseWaiter key c tc)" "tc_skew (releaseWaiter key c tc) = tc_skew tc"
  by (auto simp: releaseWaiter_def calls_le_def Let_def split: option.split)

lemma ts_ok_leave:
  assumes ok: "ts_ok p s" and pc: "ts_pc s t = TLeaving key c x"
  shows "ts_ok p (move s t (releaseWaiter key c (ts_tc s), TDone key (Inl (CallContextEnded x))))"
proof -
  obtain call where c: "tc_calls (ts_tc s) c = Some call" "ic_key call = key"
    using ts_okD(2)[OF ok, of t] by (auto simp: pc caller_ok_def)
  have t: "t \<in> waiters_at (ts_pc s) c" by (simp add: waiters_at_def pc)
  show ?thesis
    using tc_ok_release[OF ts_okD(1)[OF ok] c t]
    by (intro ts_ok_move[OF ok]) (simp_all add: releaseWaiter_calls caller_ok_def waiters_at_from pc)
qed

lemma runCall_finish_calls:
  assumes "tc_calls tc c = Some call" "\<not> ic_completed call"
  shows "calls_le tc (runCall_finish c result tc)" "tc_skew (runCall_finish c result tc) = tc_skew tc"
  using assms by (auto simp: runCall_finish_def calls_le_def Let_def)

lemma ts_ok_complete:
  assumes ok: "ts_ok p s" and c: "tc_calls (ts_tc s) c = Some call" "\<not> ic_completed call"
    and t0: "t0 \<le> ts_now s" and result: "requestToken net p t0 (ic_audience call) (ic_scopes call) = result"
  shows "ts_ok p (s\<lparr>ts_tc := runCall_finish c result (ts_tc s)\<rparr>)"
proof -
  have tc: "tc_ok p (ts_now s) (waiters_at (ts_pc s)) (ts_tc s)" by (rule ts_okD(1)[OF ok])
  have cok: "call_ok p (ts_now s) (ts_tc s) c (waiters_at (ts_pc s) c) call" by (rule tc_okD(2)[OF tc c(1)])
  have "good_token p (ts_now s) (ic_key call) token" if "result = Inr token" for token
    unfolding good_token_def using cok t0 result that unfolding call_ok_def by blast
  then have "tc_ok p (ts_now s) (waiters_at (ts_pc s)) (runCall_finish c result (ts_tc s))"
    by (rule tc_ok_finish[OF tc c])
  moreover have "caller_ok (runCall_finish c result (ts_tc s)) (ts_pc s t)" for t
    by (rule caller_ok_mono[OF runCall_finish_calls(1)[OF c] ts_okD(2)[OF ok]])
  ultimately show ?thesis using ok runCall_finish_calls(2)[OF c] by (simp add: ts_ok_def)
qed

lemma call_answer_ok:
  assumes ok: "ts_ok p s" and pc: "ts_pc s t = TWaiting key c"
    and c: "tc_calls (ts_tc s) c = Some call" "ic_done call"
  shows "caller_ok (ts_tc s) (TDone key (call_answer call) :: ('e, 'x) tpc)"
proof -
  have cok: "call_ok p (ts_now s) (ts_tc s) c (waiters_at (ts_pc s) c) call"
    by (rule tc_okD(2)[OF ts_okD(1)[OF ok] c(1)])
  have key: "ic_key call = key" using ts_okD(2)[OF ok, of t] c by (simp add: pc caller_ok_def)
  show ?thesis
  proof (cases "ic_err call")
    case None
    then obtain token where token: "ic_token call = Some token" using cok c(2) by (auto simp: call_ok_def)
    have "ic_completed call" using cok c(2) by (simp add: call_ok_def)
    then have "delivered (ts_tc s) key token"
      using c(1) key None token unfolding delivered_def by blast
    then show ?thesis by (auto simp: caller_ok_def call_answer_def None token)
  qed (simp add: caller_ok_def call_answer_def)
qed

lemma ts_ok_step: "tstep p s s' \<Longrightarrow> ts_ok p s \<Longrightarrow> ts_ok p s'"
proof (induction rule: tstep.induct)
  case (tick d s)
  then show ?case using tc_ok_time[of p "ts_now s"] by (simp add: ts_ok_def)
next
  case (ctx_end s t x)
  then show ?case by (simp add: ts_ok_def)
next
  case (begin_call s t audience scopes)
  then show ?case by (intro ts_ok_begin)
next
  case (nil_ctx s t key audience scopes)
  then show ?case using ts_ok_read[of p s "TRefused NilCallContext" t] by (simp add: caller_ok_def)
next
  case (ctx_ended s t key audience scopes x)
  then show ?case using ts_ok_read[of p s "TRefused (CallContextEnded x)" t] by (simp add: caller_ok_def)
next
  case (join s t key audience scopes)
  then show ?case by (intro ts_ok_join)
next
  case (call_done s t key c call)
  have cok: "call_ok p (ts_now s) (ts_tc s) c (waiters_at (ts_pc s) c) call"
    by (rule tc_okD(2)[OF ts_okD(1)[OF call_done.prems] call_done.hyps(2)])
  have t: "t \<in> waiters_at (ts_pc s) c" by (simp add: waiters_at_def call_done.hyps(1))
  have "\<not> open_call call" using cok call_done.hyps(3) by (simp add: call_ok_def open_call_def)
  then show ?case
    using tc_ok_leave_done[OF ts_okD(1)[OF call_done.prems] call_done.hyps(2), of t]
      call_answer_ok[OF call_done.prems call_done.hyps]
    by (intro ts_ok_move[OF call_done.prems])
      (simp_all add: calls_le_refl waiters_at_from call_done.hyps(1))
next
  case (ctx_done s t key c x)
  then show ?case
    using ts_okD(2)[OF ctx_done.prems, of t] by (intro ts_ok_read) (simp_all add: caller_ok_def)
next
  case (release s t key c x)
  then show ?case by (intro ts_ok_leave)
next
  case (complete s c call t0 net result)
  then show ?case by (intro ts_ok_complete)
qed

lemma ts_ok_initial: "ts_ok p (initial_tokens p now ctxs)"
  by (simp add: ts_ok_def initial_tokens_def new_token_cache_def tc_ok_def caller_ok_def waiters_at_def)

lemma treachable_ok: "treachable p s \<Longrightarrow> ts_ok p s"
  by (induction rule: treachable.induct) (auto intro: ts_ok_initial ts_ok_step)

subsection \<open>What callers get\<close>

lemma cacheKey_inj:
  assumes "cacheKey a ss = cacheKey a' ss'" "TrimSpace a = a" "TrimSpace a' = a'"
    and "NormalizeScopes ss = ss" "NormalizeScopes ss' = ss'"
  shows "a = a' \<and> ss = ss'"
proof -
  have k: "TrimSpace a = TrimSpace a'" "ScopeString ss = ScopeString ss'"
    using assms(1) by (simp_all add: cacheKey_def)
  then have "NormalizeScopes ss = NormalizeScopes ss'" by (metis ScopeString_Fields)
  with k(1) show ?thesis by (simp only: assms(2-5))
qed

lemma delivered_good:
  assumes "tc_ok p now W tc" "delivered tc key token"
  shows "good_token p now key token"
  using assms tc_okD(2)[OF assms(1)] unfolding delivered_def call_ok_def by fastforce



text \<open>C21: In every reachable state at most one open request is under way for a key, so callers that
  ask for the same token at once share one request.\<close>

theorem single_token_request:
  assumes "treachable p s" "tc_calls (ts_tc s) c = Some call" "tc_calls (ts_tc s) c' = Some call'"
    and "open_call call" "open_call call'" "ic_key call = ic_key call'"
  shows "c = c'"
proof -
  note tc = ts_okD(1)[OF treachable_ok[OF assms(1)]]
  show ?thesis
    using tc_okD(2)[OF tc assms(2)] tc_okD(2)[OF tc assms(3)] assms(4-6) by (simp add: call_ok_def)
qed

text \<open>C17: In every reachable state a shared token request is cancelled exactly when it has completed or
  no caller waits for it any more; until then it is the request that new callers of its key join, and
  its counter is the number of callers that wait.\<close>

theorem token_request_cancelled_iff_unwanted:
  assumes "treachable p s" "tc_calls (ts_tc s) c = Some call"
  shows "(ic_cancelled call \<longleftrightarrow> ic_completed call \<or> waiters_at (ts_pc s) c = {}) \<and>
    (ic_cancelled call \<or> tc_inflight (ts_tc s) (ic_key call) = Some c \<and>
       ic_waiters call = int (card (waiters_at (ts_pc s) c)))"
  using tc_okD(2)[OF ts_okD(1)[OF treachable_ok[OF assms(1)]] assms(2)]
  by (auto simp: call_ok_def open_call_def)

text \<open>One caller, whose request succeeds.\<close>

definition demo_tp :: "(unit, string) token_provider" where
  "demo_tp = \<lparr>tp_tokenURL = ''u'', tp_audience = ''api'', tp_scopes = [], tp_httpClient = (),
     tp_authenticator = Inr, tp_refreshSkew = defaultRefreshSkew\<rparr>"

definition demo_net :: "string token_net" where
  "demo_net = \<lparr>nt_new_request = (\<lambda>verb url body. Inr \<lparr>tq_method = verb, tq_url = url,
       tq_header = Map.empty, tq_body = body\<rparr>),
     nt_do = (\<lambda>_. Inr (200, Some \<lparr>bd_bytes = ''{}'', bd_err = None\<rparr>)),
     nt_json = \<lparr>jd_value = (\<lambda>_. Inr (\<lparr>tr_AccessToken = ''t'', tr_TokenType = ''Bearer'',
          tr_ExpiresIn = 900, tr_Scope = []\<rparr>, [])), jd_extra = (\<lambda>_. ExtraEOF)\<rparr>,
     nt_oauth_error = (\<lambda>_. None)\<rparr>"

definition demo_token :: cached_token where
  "demo_token = \<lparr>ct_response = \<lparr>tr_AccessToken = ''t'', tr_TokenType = ''Bearer'', tr_ExpiresIn = 900,
     tr_Scope = []\<rparr>, ct_expiresAt = 900000000000\<rparr>"

lemma demo_requestToken: "requestToken demo_net demo_tp 0 audience scopes = Inr demo_token"
  by (simp add: requestToken_def demo_net_def demo_tp_def demo_token_def json_Decode_def json_Read_def
      maxTokenResponseBody_def TokenTypeBearer_def Let_def time_add_def second_def wrap64_def)

lemma demo_target: "target demo_tp [] [] = Some (''api'', [])"
proof -
  have "TrimSpace ''api'' = ''api''" "TrimSpace [] = []" "NormalizeScopes [] = []" by code_simp+
  then show ?thesis by (simp add: target_def demo_tp_def)
qed

definition demo_call :: "bool \<Rightarrow> string token_request_error inflight_call" where
  "demo_call fin = \<lparr>ic_key = cacheKey ''api'' [], ic_audience = ''api'', ic_scopes = [], ic_waiters = 1,
     ic_token = (if fin then Some demo_token else None), ic_err = None, ic_completed = fin,
     ic_abandoned = False, ic_cancelled = fin, ic_done = fin\<rparr>"

definition demo_tokens ::
  "bool \<Rightarrow> (string, unit) tpc \<Rightarrow> (string, unit) token_system" where
  "demo_tokens fin pc = \<lparr>ts_tc = \<lparr>tc_skew = defaultRefreshSkew,
       tc_cache = (if fin then [cacheKey ''api'' [] \<mapsto> demo_token] else Map.empty),
       tc_inflight = (if fin then Map.empty else [cacheKey ''api'' [] \<mapsto> 0]),
       tc_calls = [0 \<mapsto> demo_call fin], tc_next = 1\<rparr>,
     ts_now = 0, ts_ctx = (\<lambda>_. LiveCtx), ts_pc = (\<lambda>_. TIdle)(0 := pc)\<rparr>"

lemma demo_waits: "treachable demo_tp (demo_tokens False (TWaiting (cacheKey ''api'' []) 0))"
proof -
  let ?s0 = "initial_tokens demo_tp 0 (\<lambda>_. LiveCtx) :: (string, unit) token_system"
  let ?k = "cacheKey ''api'' []"
  let ?s1 = "move ?s0 0 (ts_tc ?s0, TMissed ?k ''api'' [])"
  have skew: "purgeStale 0 (new_token_cache x) = (new_token_cache x :: string token_request_error token_cache)" for x
    by (simp add: purgeStale_def new_token_cache_def)
  have "call_begin demo_tp 0 [] [] (ts_tc ?s0) = (ts_tc ?s0, TMissed ?k ''api'' [] :: (string, unit) tpc)"
    using skew by (simp add: call_begin_def demo_target cached_simps initial_tokens_def)
      (simp add: new_token_cache_def)
  then have "tstep demo_tp ?s0 ?s1"
    using tstep.begin_call[of ?s0 0 demo_tp "[]" "[]"] by (simp add: initial_tokens_def)
  note r1 = tnext[OF tstart this]
  have "call_join 0 ?k ''api'' [] (ts_tc ?s0) =
      (ts_tc (demo_tokens False TIdle), TWaiting ?k 0 :: (string, unit) tpc)"
    using skew by (simp add: call_join_def joinOrStartCall_def initial_tokens_def Let_def)
      (simp add: new_token_cache_def demo_tokens_def demo_call_def demo_tp_def)
  then have "tstep demo_tp ?s1 (demo_tokens False (TWaiting ?k 0))"
    using tstep.join[of ?s1 0 ?k "''api''" "[]" demo_tp] by (simp add: initial_tokens_def demo_tokens_def)
  from tnext[OF r1 this] show ?thesis .
qed

lemma demo_served: "treachable demo_tp
  (demo_tokens True (TDone (cacheKey ''api'' []) (Inr (ct_response demo_token))))"
proof -
  let ?w = "TWaiting (cacheKey ''api'' []) 0 :: (string, unit) tpc"
  have "tstep demo_tp (demo_tokens False ?w) (demo_tokens True ?w)"
    using tstep.complete[of "demo_tokens False ?w" 0 "demo_call False" 0 demo_net demo_tp "Inr demo_token"]
    by (simp add: demo_tokens_def demo_requestToken runCall_finish_def Let_def demo_call_def)
  note r = tnext[OF demo_waits this]
  have "tstep demo_tp (demo_tokens True ?w)
      (demo_tokens True (TDone (cacheKey ''api'' []) (Inr (ct_response demo_token))))"
    using tstep.call_done[of "demo_tokens True ?w" 0 "cacheKey ''api'' []" 0 "demo_call True" demo_tp]
    by (simp add: demo_tokens_def demo_call_def call_answer_def)
  from tnext[OF r this] show ?thesis .
qed


lemma demo_cached: "cached 0 (cacheKey ''api'' [])
    (ts_tc (demo_tokens True (TDone (cacheKey ''api'' []) (Inr (ct_response demo_token))))) =
  (purgeStale 0 (ts_tc (demo_tokens True TIdle)), Some demo_token)"
  by (simp add: cached_simps purgeStale_def demo_tokens_def freshAt_def demo_token_def
      defaultRefreshSkew_def second_def wrap64_def time_sub_def max_int64_def min_int64_def Let_def)


theorem single_token_request_witness:
  "\<exists>!c. \<exists>call. tc_calls (ts_tc (demo_tokens False (TWaiting (cacheKey ''api'' []) 0))) c = Some call \<and>
     open_call call \<and> ic_key call = cacheKey ''api'' []"
proof (rule ex1I)
  let ?s = "demo_tokens False (TWaiting (cacheKey ''api'' []) 0)"
  have c: "tc_calls (ts_tc ?s) 0 = Some (demo_call False)" by (simp add: demo_tokens_def)
  have opn: "open_call (demo_call False)" and key: "ic_key (demo_call False) = cacheKey ''api'' []"
    by (simp_all add: demo_call_def open_call_def)
  show "\<exists>call. tc_calls (ts_tc ?s) 0 = Some call \<and> open_call call \<and> ic_key call = cacheKey ''api'' []"
    using c opn key by blast
  show "c = 0" if "\<exists>call. tc_calls (ts_tc ?s) c = Some call \<and> open_call call \<and> ic_key call = cacheKey ''api'' []" for c
    using that single_token_request[OF demo_waits _ c _ opn] key by metis
qed

theorem token_request_cancelled_iff_unwanted_witness:
  "ic_waiters (demo_call False) = int (card (waiters_at
     (ts_pc (demo_tokens False (TWaiting (cacheKey ''api'' []) 0))) 0))"
proof -
  have c: "tc_calls (ts_tc (demo_tokens False (TWaiting (cacheKey ''api'' []) 0))) 0 = Some (demo_call False)"
    by (simp add: demo_tokens_def)
  from token_request_cancelled_iff_unwanted[OF demo_waits c] show ?thesis
    by (simp add: demo_call_def)
qed

subsection \<open>Calls end\<close>

fun moves_left :: "('e, 'x) tpc \<Rightarrow> nat" where
  "moves_left (TMissed key audience scopes) = 3"
| "moves_left (TWaiting key c) = 2"
| "moves_left (TLeaving key c x) = 1"
| "moves_left _ = 0"

lemma moves_left_begin: "moves_left (snd (call_begin p now audience scopes tc)) \<le> 3"
  by (auto simp: call_begin_def Let_def split: option.splits prod.splits)

lemma moves_left_join: "moves_left (snd (call_join now key audience scopes tc)) < 3"
  by (auto simp: call_join_def split: prod.splits joined.splits)

lemma tstep_ranks:
  fixes s :: "('e, 'x) token_system"
  assumes "tstep p s s'"
  shows "\<exists>t x. ts_pc s' = (ts_pc s)(t := x) \<and> (x = ts_pc s t \<or> ts_pc s t = TIdle \<and> moves_left x \<le> 3 \<or>
    ts_pc s t \<noteq> TIdle \<and> moves_left x < moves_left (ts_pc s t))"
  using assms
proof cases
  case (tick d)
  then show ?thesis by (intro exI[of _ 0] exI[of _ "ts_pc s 0"]) simp
next
  case (ctx_end t x)
  then show ?thesis by (intro exI[of _ t] exI[of _ "ts_pc s t"]) simp
next
  case (begin_call t audience scopes)
  then show ?thesis
    by (intro exI[of _ t] exI[of _ "snd (call_begin p (ts_now s) audience scopes (ts_tc s))"])
      (simp add: moves_left_begin)
next
  case (nil_ctx t key audience scopes)
  then show ?thesis by (intro exI[of _ t] exI[of _ "TRefused NilCallContext"]) simp
next
  case (ctx_ended t key audience scopes x)
  then show ?thesis by (intro exI[of _ t] exI[of _ "TRefused (CallContextEnded x)"]) simp
next
  case (join t key audience scopes)
  moreover have "moves_left (snd (call_join (ts_now s) key audience scopes (ts_tc s)) :: ('e, 'x) tpc) < 3"
    by (rule moves_left_join)
  ultimately show ?thesis
    by (intro exI[of _ t] exI[of _ "snd (call_join (ts_now s) key audience scopes (ts_tc s))"]) simp
next
  case (call_done t key c call)
  then show ?thesis by (intro exI[of _ t] exI[of _ "TDone key (call_answer call)"]) simp
next
  case (ctx_done t key c x)
  then show ?thesis by (intro exI[of _ t] exI[of _ "TLeaving key c x"]) simp
next
  case (release t key c x)
  then show ?thesis by (intro exI[of _ t] exI[of _ "TDone key (Inl (CallContextEnded x))"]) simp
next
  case (complete c call t0 net result)
  then show ?thesis by (intro exI[of _ 0] exI[of _ "ts_pc s 0"]) simp
qed

interpretation token_calls: ranked_calls "tstep p" ts_pc TIdle moves_left 3 for p
  by unfold_locales (simp, rule tstep_ranks)

text \<open>A waiting caller is answered once the request it waits for returns.\<close>

lemma waiting_caller_answered:
  assumes "treachable p s" "ts_pc s t = TWaiting key c"
  shows "\<exists>s'. (tstep p)\<^sup>*\<^sup>* s s' \<and> moves_left (ts_pc s' t) = 0"
proof -
  note ok = treachable_ok[OF assms(1)]
  obtain call where call: "tc_calls (ts_tc s) c = Some call"
    using ts_okD(2)[OF ok, of t] by (auto simp: assms(2) caller_ok_def)
  have answered: "\<exists>s'. tstep p s s' \<and> moves_left (ts_pc s' t) = 0"
    if "ts_pc s t = TWaiting key c" "tc_calls (ts_tc s) c = Some call" "ic_done call" for s call
    using tstep.call_done[of s t key c call p, OF that]
    by (intro exI[of _ "move s t (ts_tc s, TDone key (call_answer call))"]) simp
  show ?thesis
  proof (cases "ic_completed call")
    case True
    then have "ic_done call" using tc_okD(2)[OF ts_okD(1)[OF ok] call] by (simp add: call_ok_def)
    from answered[OF assms(2) call this] show ?thesis by (meson r_into_rtranclp)
  next
    case False
    let ?r = "requestToken undefined p (ts_now s) (ic_audience call) (ic_scopes call)"
    let ?s1 = "s\<lparr>ts_tc := runCall_finish c ?r (ts_tc s)\<rparr>"
    have 1: "tstep p s ?s1" by (rule tstep.complete[OF call False order_refl refl])
    have "\<exists>call'. tc_calls (ts_tc ?s1) c = Some call' \<and> ic_done call'"
      by (simp add: runCall_finish_def call Let_def)
    with answered[of ?s1] assms(2) obtain s' where "tstep p ?s1 s'" "moves_left (ts_pc s' t) = 0" by auto
    with 1 show ?thesis by (meson converse_rtranclp_into_rtranclp r_into_rtranclp)
  qed
qed

lemma begun_call_finishes:
  fixes s :: "('e, 'x) token_system"
  assumes "treachable p s"
  shows "\<exists>s'. (tstep p)\<^sup>*\<^sup>* s s' \<and> moves_left (ts_pc s' t) = 0"
proof (cases "ts_pc s t")
  case (TMissed key audience scopes)
  show ?thesis
  proof (cases "ts_ctx s t = NilCallerCtx")
    case True
    from tstep.nil_ctx[OF TMissed this, of p] show ?thesis
      by (intro exI[of _ "move s t (ts_tc s, TRefused NilCallContext)"]) (auto intro: r_into_rtranclp)
  next
    case False
    let ?r = "call_join (ts_now s) key audience scopes (ts_tc s) ::
        'e token_request_error token_cache \<times> ('e, 'x) tpc"
    have 1: "tstep p s (move s t ?r)" by (rule tstep.join[OF TMissed False])
    then have reach: "treachable p (move s t ?r)" by (rule tnext[OF assms])
    show ?thesis
    proof (cases "snd ?r")
      case (TWaiting k c)
      then have "ts_pc (move s t ?r) t = TWaiting k c" by simp
      from waiting_caller_answered[OF reach this] 1 show ?thesis
        by (meson converse_rtranclp_into_rtranclp)
    next
      case (TDone k r)
      with 1 show ?thesis by (intro exI[of _ "move s t ?r"]) (auto intro: r_into_rtranclp)
    qed (auto simp: call_join_def split: prod.splits joined.splits)
  qed
next
  case (TWaiting key c)
  from waiting_caller_answered[OF assms this] show ?thesis .
next
  case (TLeaving key c x)
  from tstep.release[OF this, of p] show ?thesis
    by (intro exI[of _ "move s t (releaseWaiter key c (ts_tc s), TDone key (Inl (CallContextEnded x)))"])
      (auto intro: r_into_rtranclp)
qed (auto intro: exI[of _ s])

lemma counted_run_reachable:
  assumes "counted_run (tstep p) ts_pc TIdle (initial_tokens p now ctxs) n k s"
  shows "treachable p s"
  using assms by induction (auto intro: tstart tnext)

text \<open>C25: calls for a token end: whatever the interleaving of callers, cancellations and answers, a call
  takes at most three steps of its own after it began, so in any run the steps that go on with calls are
  at most three times the calls begun; and from every state of a run each begun call can still finish:
  none is stuck waiting for a request that is gone.\<close>

theorem token_calls_terminate:
  assumes "counted_run (tstep p) ts_pc TIdle (initial_tokens p now ctxs) n k s"
  shows "n \<le> 3 * k \<and> (\<exists>s'. (tstep p)\<^sup>*\<^sup>* s s' \<and> moves_left (ts_pc s' t) = 0)"
proof
  show "n \<le> 3 * k" by (rule token_calls.calls_terminate[OF assms]) (simp add: initial_tokens_def)
  show "\<exists>s'. (tstep p)\<^sup>*\<^sup>* s s' \<and> moves_left (ts_pc s' t) = 0"
    by (rule begun_call_finishes[OF counted_run_reachable[OF assms]])
qed

theorem token_calls_terminate_witness:
  "\<exists>s. counted_run (tstep demo_tp) ts_pc TIdle
      (initial_tokens demo_tp 0 (\<lambda>_. NilCallerCtx) :: (string, unit) token_system) 1 1 s \<and> (1::nat) \<le> 3 * 1"
proof -
  let ?s0 = "initial_tokens demo_tp 0 (\<lambda>_. NilCallerCtx) :: (string, unit) token_system"
  let ?k = "cacheKey ''api'' []"
  let ?s1 = "move ?s0 0 (ts_tc ?s0, TMissed ?k ''api'' [])"
  let ?s2 = "move ?s1 0 (ts_tc ?s1, TRefused NilCallContext)"
  have skew: "purgeStale 0 (new_token_cache x) = (new_token_cache x :: string token_request_error token_cache)" for x
    by (simp add: purgeStale_def new_token_cache_def)
  have "call_begin demo_tp 0 [] [] (ts_tc ?s0) = (ts_tc ?s0, TMissed ?k ''api'' [] :: (string, unit) tpc)"
    using skew by (simp add: call_begin_def demo_target cached_simps initial_tokens_def)
      (simp add: new_token_cache_def)
  then have 1: "tstep demo_tp ?s0 ?s1"
    using tstep.begin_call[of ?s0 0 demo_tp "[]" "[]"] by (simp add: initial_tokens_def)
  have 2: "tstep demo_tp ?s1 ?s2" by (rule tstep.nil_ctx) (simp_all add: initial_tokens_def)
  have r1: "counted_run (tstep demo_tp) ts_pc TIdle ?s0 0 (Suc 0) ?s1"
    by (rule run_begins[where s = ?s0 and t = 0 and x = "TMissed ?k ''api'' []"], rule counted_run.here, rule 1)
      (simp_all add: initial_tokens_def)
  have "counted_run (tstep demo_tp) ts_pc TIdle ?s0 (Suc 0) (Suc 0) ?s2"
    by (rule run_goes_on[where s = ?s1 and t = 0 and x = "TRefused NilCallContext"], rule r1, rule 2)
      simp_all
  then have run: "counted_run (tstep demo_tp) ts_pc TIdle ?s0 1 1 ?s2" by (simp only: One_nat_def)
  from token_calls_terminate[OF run] run show ?thesis by blast
qed

end
