(* ===== verification/Client_Server.thy ===== *)
theory Client_Server
  imports Token_Client Server_Http
begin

text \<open>
  The token client talking to the token endpoint: \<open>client/token_http.go\<close> and \<open>client/authenticator.go\<close> on
  one side, \<open>server/http.go\<close> on the other, and between them what \<open>net/http\<close> makes of the client's
  request: \<open>ParseForm\<close> under the limit of \<open>MaxBytesReader\<close>, and \<open>BasicAuth\<close>.

  The wire has as parameters the construction of requests, \<open>mime.ParseMediaType\<close> (the media type and
  whether there was an error) and JSON: the bytes of a response value and the client's two decoders.
\<close>

text \<open>The query of a URL: behind its first question mark, without the fragment.\<close>

definition RawQuery :: "string \<Rightarrow> string" where
  "RawQuery url = fst (snd (Cut (fst (Cut url CHR ''#'')) CHR ''?''))"

definition parsePostForm ::
  "(string \<Rightarrow> string \<times> bool) \<Rightarrow> token_http_request \<Rightarrow> int \<Rightarrow> form \<times> bool" where
  "parsePostForm media r limit =
     (let ct = (case tq_header r ''Content-Type'' of
                  None \<Rightarrow> ''application/octet-stream''
                | Some t \<Rightarrow> if t = [] then ''application/octet-stream'' else t);
          (kind, bad) = media ct in
      if kind = ''application/x-www-form-urlencoded'' then
        if limit < int (length (tq_body r)) then ([], True)
        else (let (fields, failed) = ParseQuery (tq_body r) in (fields, bad \<or> failed))
      else ([], bad))"

definition ParseForm ::
  "(string \<Rightarrow> string \<times> bool) \<Rightarrow> token_http_request \<Rightarrow> int \<Rightarrow> (vals \<times> vals) option" where
  "ParseForm media r limit =
     (let (post, bad) = (if tq_method r \<in> {''POST'', ''PUT'', ''PATCH''}
                         then parsePostForm media r limit else ([], False));
          (query, failed) = ParseQuery (RawQuery (tq_url r)) in
      if bad \<or> failed then None else Some (form_values (post @ query), form_values post))"

definition http_of :: "(string \<Rightarrow> string \<times> bool) \<Rightarrow> token_http_request \<Rightarrow> http_request" where
  "http_of media r =
     \<lparr>hr_Method = tq_method r, hr_ParseForm = ParseForm media r, hr_BasicAuth = BasicAuth (tq_header r)\<rparr>"

record 'e http_wire =
  hw_new_request :: "string \<Rightarrow> string \<Rightarrow> string \<Rightarrow> 'e + token_http_request"
  hw_media :: "string \<Rightarrow> string \<times> bool"
  hw_json_of :: "payload \<Rightarrow> string"
  hw_json :: "('e, token_response) json_decoder"
  hw_oauth_error :: "string \<Rightarrow> (string \<times> string) option"

text \<open>The client's network when its requests reach a handler and the answers come back unharmed.\<close>

definition served_net :: "'e http_wire \<Rightarrow> (http_request \<Rightarrow> http_response) \<Rightarrow> 'e token_net" where
  "served_net W handler =
     \<lparr>nt_new_request = hw_new_request W,
      nt_do = (\<lambda>req. let resp = handler (http_of (hw_media W) req) in
                 Inr (ht_status resp, Some \<lparr>bd_bytes = hw_json_of W (ht_body resp), bd_err = None\<rparr>)),
      nt_json = hw_json W, nt_oauth_error = hw_oauth_error W\<rparr>"

definition wire_response :: "token_response \<Rightarrow> bool" where
  "wire_response resp \<longleftrightarrow> ascii (tr_AccessToken resp) \<and> ascii (tr_TokenType resp) \<and>
     ascii (tr_Scope resp) \<and> min_int64 \<le> tr_ExpiresIn resp \<and> tr_ExpiresIn resp \<le> max_int64"

text \<open>What the libraries document: a request that can be built has the parts it was built of, a plain
  media type is read as itself, and JSON documents of ASCII text are read as the value they encode.\<close>

definition wire_laws :: "'e http_wire \<Rightarrow> bool" where
  "wire_laws W \<longleftrightarrow>
     (\<forall>verb url body req. hw_new_request W verb url body = Inr req \<longrightarrow>
        req = \<lparr>tq_method = verb, tq_url = url, tq_header = Map.empty, tq_body = body\<rparr>) \<and>
     hw_media W ''application/x-www-form-urlencoded'' = (''application/x-www-form-urlencoded'', False) \<and>
     (\<forall>resp. wire_response resp \<longrightarrow>
        (\<exists>rest. jd_value (hw_json W) (hw_json_of W (TokenBody resp)) = Inr (resp, rest) \<and>
           jd_extra (hw_json W) rest = ExtraEOF)) \<and>
     (\<forall>code description. ascii code \<and> ascii description \<longrightarrow>
        hw_oauth_error W (hw_json_of W (OAuthErrorBody code description)) = Some (code, description))"

definition fits :: "'e http_wire \<Rightarrow> payload \<Rightarrow> bool" where
  "fits W payload \<longleftrightarrow> int (length (hw_json_of W payload)) \<le> maxTokenResponseBody"

subsection \<open>The request on its way\<close>

text \<open>What the client sends.\<close>

definition client_request :: "string \<Rightarrow> string \<Rightarrow> string \<Rightarrow> string \<Rightarrow> string list \<Rightarrow> token_http_request" where
  "client_request url cid secret audience scopes =
     \<lparr>tq_method = ''POST'', tq_url = url,
      tq_header = SetBasicAuth cid secret
        [''Content-Type'' \<mapsto> ''application/x-www-form-urlencoded'', ''Accept'' \<mapsto> ''application/json''],
      tq_body = Encode (token_form audience scopes)\<rparr>"

text \<open>What it asks the service for, in the terms of the service.\<close>

definition asked :: "string \<Rightarrow> string \<Rightarrow> string \<Rightarrow> string list \<Rightarrow> token_request" where
  "asked cid secret audience scopes =
     \<lparr>rq_grantType = ''client_credentials'', rq_clientID = cid, rq_clientSecret = secret,
      rq_audience = audience, rq_scopes = scopes\<rparr>"

lemma SetBasicAuth_other [simp]: "k \<noteq> ''Authorization'' \<Longrightarrow> SetBasicAuth u pw h k = h k"
  by (simp add: SetBasicAuth_def)

lemma client_request_simps [simp]:
  "tq_method (client_request url cid secret audience scopes) = ''POST''"
  "tq_url (client_request url cid secret audience scopes) = url"
  "tq_body (client_request url cid secret audience scopes) = Encode (token_form audience scopes)"
  "tq_header (client_request url cid secret audience scopes) ''Content-Type'' =
     Some ''application/x-www-form-urlencoded''"
  by (simp_all add: client_request_def)

lemma ParseForm_client_request:
  assumes "wire_laws W" "RawQuery url = []" "int (length (Encode (token_form audience scopes))) \<le> limit"
  shows "ParseForm (hw_media W) (client_request url cid secret audience scopes) limit =
    Some (form_values (token_form audience scopes), form_values (token_form audience scopes))"
proof -
  have "form_values (sort_key fst f) = form_values f" for f by (rule ext) simp
  then show ?thesis
    using assms
    by (simp add: ParseForm_def parsePostForm_def wire_laws_def ParseQuery_Encode Let_def)
qed

lemma Get_token_form:
  "Get (form_values (token_form audience scopes)) ''grant_type'' = ''client_credentials''"
  "Get (form_values (token_form audience scopes)) ''audience'' = audience"
  "Get (form_values (token_form audience scopes)) ''scope'' = ScopeString scopes"
  by (simp_all add: token_form_def form_values_def Get_def Let_def)

text \<open>The server reads the request back as what was asked - of the client whose id is the part of the
  client's id before its first colon.\<close>

lemma token_request_read:
  assumes "TrimSpace audience = audience" "audience \<noteq> []" "NormalizeScopes scopes = scopes"
  shows "token_request_of (Some (u, pw)) (form_values (token_form audience scopes)) post =
    asked (TrimSpace u) pw audience scopes"
  using assms
  by (simp add: token_request_of_def asked_def Get_token_form ScopeString_roundtrip)

subsection \<open>The exchange\<close>

text \<open>What the service answers a client, and what the client makes of the answer.\<close>

lemma issue_oauth_error:
  assumes "issue sha256 numeric_date find_client s now random request = Inl (OAuthError status code description)"
  shows "status \<noteq> 200 \<and> code \<noteq> [] \<and> ascii code \<and> ascii description"
  using assms
  by (auto simp: issue_def newOAuthError_def issueAccessToken_def StatusBadRequest_def StatusUnauthorized_def
      StatusForbidden_def Let_def split: if_splits sum.splits option.splits)

definition client_outcome ::
  "time \<Rightarrow> 'x issue_error + token_response \<Rightarrow> 'e token_request_error + cached_token" where
  "client_outcome now answer =
     (case answer of
        Inl (OAuthError status code description) \<Rightarrow> Inl (TokenStatus status (Some (code, description)))
      | Inl _ \<Rightarrow> Inl (TokenStatus 500 (Some (''server_error'', ''cannot issue token'')))
      | Inr resp \<Rightarrow>
          if tr_AccessToken resp = [] \<or> tr_ExpiresIn resp \<le> 0 then Inl InvalidTokenResponse
          else Inr \<lparr>ct_response = resp, ct_expiresAt = now + wrap64 (tr_ExpiresIn resp * second)\<rparr>)"

lemma requestToken_served:
  assumes "wire_laws W" "hw_new_request W ''POST'' (tp_tokenURL p) (Encode (token_form audience scopes)) = Inr req0"
    and "tp_authenticator p = ClientSecretBasic missing cid secret" "TrimSpace cid \<noteq> []" "secret \<noteq> []"
    and "handler (http_of (hw_media W) (client_request (tp_tokenURL p) cid secret audience scopes)) = resp"
  shows "requestToken (served_net W handler) p now audience scopes =
    (if ht_status resp \<noteq> 200
     then Inl (tokenResponseError (hw_oauth_error W) (ht_status resp)
            (Some \<lparr>bd_bytes = hw_json_of W (ht_body resp), bd_err = None\<rparr>))
     else
       (case json_Decode (hw_json W) (Some \<lparr>bd_bytes = hw_json_of W (ht_body resp), bd_err = None\<rparr>)
              maxTokenResponseBody of
          Inl err \<Rightarrow> Inl (TokenDecode err)
        | Inr response \<Rightarrow>
            if tr_AccessToken response = [] \<or> \<not> EqualFold (tr_TokenType response) TokenTypeBearer \<or>
               tr_ExpiresIn response \<le> 0
            then Inl InvalidTokenResponse
            else Inr \<lparr>ct_response = response,
              ct_expiresAt = now + wrap64 (tr_ExpiresIn response * second)\<rparr>))"
proof -
  have req: "req0 = \<lparr>tq_method = ''POST'', tq_url = tp_tokenURL p, tq_header = Map.empty,
      tq_body = Encode (token_form audience scopes)\<rparr>"
    using assms(1,2) unfolding wire_laws_def by blast
  show ?thesis
    using assms(3-6)
    by (simp add: requestToken_def served_net_def assms(2) req ClientSecretBasic_def client_request_def
        time_add_def Let_def split: sum.split)
qed

lemma fits_body:
  "fits W payload \<Longrightarrow>
   json_Read (Some \<lparr>bd_bytes = hw_json_of W payload, bd_err = None\<rparr>) maxTokenResponseBody =
     Inr (hw_json_of W payload)"
  by (simp add: json_Read_def fits_def maxTokenResponseBody_def Let_def)

lemma read_oauth_error:
  assumes "wire_laws W" "fits W (OAuthErrorBody code description)" "code \<noteq> []" "ascii code" "ascii description"
  shows "tokenResponseError (hw_oauth_error W) status
      (Some \<lparr>bd_bytes = hw_json_of W (OAuthErrorBody code description), bd_err = None\<rparr>) =
    TokenStatus status (Some (code, description))"
  using assms by (simp add: tokenResponseError_def fits_body wire_laws_def)

lemma read_token:
  assumes "wire_laws W" "fits W (TokenBody resp)" "wire_response resp"
  shows "json_Decode (hw_json W) (Some \<lparr>bd_bytes = hw_json_of W (TokenBody resp), bd_err = None\<rparr>)
    maxTokenResponseBody = Inr resp"
proof -
  from assms(1,3) obtain rest where "jd_value (hw_json W) (hw_json_of W (TokenBody resp)) = Inr (resp, rest)"
    "jd_extra (hw_json W) rest = ExtraEOF"
    unfolding wire_laws_def by blast
  then show ?thesis using assms(2) by (simp add: json_Decode_def fits_body)
qed

text \<open>The token endpoint on a client's request: the service, wrapped into a response.\<close>

lemma http_of_simps [simp]:
  "hr_Method (http_of media r) = tq_method r" "hr_ParseForm (http_of media r) = ParseForm media r"
  "hr_BasicAuth (http_of media r) = BasicAuth (tq_header r)"
  by (simp_all add: http_of_def)

lemma BasicAuth_client_request:
  "CHR '':'' \<notin> set cid \<Longrightarrow>
   BasicAuth (tq_header (client_request url cid secret audience scopes)) = Some (cid, secret)"
  by (simp add: client_request_def BasicAuth_roundtrip)

lemma TokenHTTP_client_request:
  assumes "wire_laws W" "RawQuery url = []"
    and "int (length (Encode (token_form audience scopes))) \<le> sv_maxTokenRequestBody sv"
    and "TrimSpace audience = audience" "audience \<noteq> []" "NormalizeScopes scopes = scopes"
    and "BasicAuth (tq_header (client_request url cid secret audience scopes)) = Some (u, pw)"
  shows "TokenHTTP sha256 numeric_date fc sv now random
      (http_of (hw_media W) (client_request url cid secret audience scopes)) =
    (case issue sha256 numeric_date (find_any fc) (sv_tokens sv) now random
            (asked (TrimSpace u) pw audience scopes) of
       Inl (OAuthError status code description) \<Rightarrow>
         writeOAuthError (if code = ''invalid_client'' then [''WWW-Authenticate'' \<mapsto> ''Basic realm=\"orionis\"'']
           else Map.empty) status code description
     | Inl _ \<Rightarrow> writeOAuthError Map.empty StatusInternalServerError ''server_error'' ''cannot issue token''
     | Inr response \<Rightarrow>
         writeJSON [''Cache-Control'' \<mapsto> ''no-store'', ''Pragma'' \<mapsto> ''no-cache''] StatusOK (TokenBody response))"
  using ParseForm_client_request[OF assms(1-3)] token_request_read[OF assms(4-6)]
  by (simp add: TokenHTTP_def MethodPost_def assms(7) Let_def split: sum.split issue_error.split)

text \<open>Whatever the service decides reaches the client as it is.\<close>

lemma exchange_outcome:
  assumes "wire_laws W" "hw_new_request W ''POST'' (tp_tokenURL p) (Encode (token_form audience scopes)) = Inr req0"
    and "RawQuery (tp_tokenURL p) = []"
    and "int (length (Encode (token_form audience scopes))) \<le> sv_maxTokenRequestBody sv"
    and "TrimSpace audience = audience" "audience \<noteq> []" "NormalizeScopes scopes = scopes"
    and "tp_authenticator p = ClientSecretBasic missing cid secret" "TrimSpace cid \<noteq> []" "secret \<noteq> []"
    and "BasicAuth (tq_header (client_request (tp_tokenURL p) cid secret audience scopes)) = Some (u, pw)"
    and "issue sha256 numeric_date (find_any fc) (sv_tokens sv) t0 random
      (asked (TrimSpace u) pw audience scopes) = answer"
    and "\<And>resp. answer = Inr resp \<Longrightarrow> wire_response resp \<and> tr_TokenType resp = TokenTypeBearer"
    and "fits W (ht_body (TokenHTTP sha256 numeric_date fc sv t0 random
      (http_of (hw_media W) (client_request (tp_tokenURL p) cid secret audience scopes))))"
  shows "requestToken (served_net W (TokenHTTP sha256 numeric_date fc sv t0 random)) p t1 audience scopes =
    client_outcome t1 answer"
proof -
  note http = TokenHTTP_client_request[OF assms(1,3-7,11), of sha256 numeric_date fc t0 random, unfolded assms(12)]
  note sent = requestToken_served[where handler = "TokenHTTP sha256 numeric_date fc sv t0 random", OF assms(1,2,8-10) http, of t1]
  show ?thesis
  proof (cases answer)
    case (Inr resp)
    from assms(13)[OF Inr] assms(14)[unfolded http Inr] show ?thesis
      using read_token[OF assms(1), of resp] by (simp add: sent Inr StatusOK_def client_outcome_def)
  next
    case err: (Inl e)
    show ?thesis
    proof (cases e)
      case (OAuthError status code description)
      with assms(12) err issue_oauth_error have code: "status \<noteq> 200" "code \<noteq> []" "ascii code" "ascii description"
        by blast+
      then show ?thesis
        using assms(14)[unfolded http err] read_oauth_error[OF assms(1) _ code(2-4)]
        by (simp add: sent err OAuthError writeOAuthError_def client_outcome_def)
    qed (use assms(14)[unfolded http err] read_oauth_error[OF assms(1), of "''server_error''" "''cannot issue token''" 500] in
        \<open>simp_all add: sent err writeOAuthError_def client_outcome_def StatusInternalServerError_def\<close>)
  qed
qed

subsection \<open>Properties\<close>

lemma buildProvider_secret:
  assumes "buildProvider hc missing cfg = Inr p" "cc_Authenticator cfg = None"
  shows "tp_authenticator p = ClientSecretBasic missing (TrimSpace (cc_ClientID cfg)) (cc_ClientSecret cfg)"
  using assms by (auto simp: buildProvider_def client_normalizeConfig_def Let_def split: if_splits)

text \<open>A client that is ready to ask a server: built with a secret, for a target, with a token URL that
  requests can be built for and that has no query of its own, and a form within the server's limit.\<close>

definition client_ready ::
  "'e http_wire \<Rightarrow> ('s, 'x, 'c) server \<Rightarrow> ('h, 'e) client_config \<Rightarrow> ('h, 'e) token_provider \<Rightarrow>
     string \<Rightarrow> string list \<Rightarrow> bool" where
  "client_ready W sv cfg p audience scopes \<longleftrightarrow>
     wire_laws W \<and> (\<exists>hc missing. buildProvider hc missing cfg = Inr p) \<and> cc_Authenticator cfg = None \<and>
     cc_ClientSecret cfg \<noteq> [] \<and> (\<exists>audience0 scopes0. target p audience0 scopes0 = Some (audience, scopes)) \<and>
     (\<exists>req. hw_new_request W ''POST'' (tp_tokenURL p) (Encode (token_form audience scopes)) = Inr req) \<and>
     RawQuery (tp_tokenURL p) = [] \<and>
     int (length (Encode (token_form audience scopes))) \<le> sv_maxTokenRequestBody sv"

text \<open>Such a client asks with credentials of its own.\<close>

lemma client_readyE:
  assumes "client_ready W sv cfg p audience scopes" "TrimSpace (cc_ClientID cfg) = cid" "cid \<noteq> []"
  obtains missing req where "wire_laws W" "RawQuery (tp_tokenURL p) = []" "cc_ClientSecret cfg \<noteq> []"
    "hw_new_request W ''POST'' (tp_tokenURL p) (Encode (token_form audience scopes)) = Inr req"
    "int (length (Encode (token_form audience scopes))) \<le> sv_maxTokenRequestBody sv"
    "TrimSpace audience = audience" "audience \<noteq> []" "NormalizeScopes scopes = scopes"
    "tp_authenticator p = ClientSecretBasic missing cid (cc_ClientSecret cfg)"
    "TrimSpace cid = cid" "TrimSpace cid \<noteq> []"
proof -
  from assms(1) obtain hc missing req audience0 scopes0 where ready: "wire_laws W" "RawQuery (tp_tokenURL p) = []"
    "cc_ClientSecret cfg \<noteq> []"
    "hw_new_request W ''POST'' (tp_tokenURL p) (Encode (token_form audience scopes)) = Inr req"
    "int (length (Encode (token_form audience scopes))) \<le> sv_maxTokenRequestBody sv"
    and build: "buildProvider hc missing cfg = Inr p" "cc_Authenticator cfg = None"
    and aim: "target p audience0 scopes0 = Some (audience, scopes)"
    unfolding client_ready_def by blast
  have "TrimSpace cid = cid" "TrimSpace cid \<noteq> []" using assms(2,3) by (auto simp flip: assms(2))
  then show ?thesis
    using that[OF ready, of missing] target_Some[OF aim] buildProvider_secret[OF build] assms(2) by simp
qed

lemma exchange_of_ready_client:
  fixes fc :: "'s \<Rightarrow> string \<Rightarrow> 'x store_error + client"
  assumes "client_ready W sv cfg p audience scopes"
    and "cid = TrimSpace (cc_ClientID cfg)" "cid \<noteq> []" "CHR '':'' \<notin> set cid"
    and "issue sha256 numeric_date (find_any fc) (sv_tokens sv) t0 random
      (asked cid (cc_ClientSecret cfg) audience scopes) = answer"
    and "\<And>resp. answer = Inr resp \<Longrightarrow> wire_response resp"
    and "fits W (ht_body (TokenHTTP sha256 numeric_date fc sv t0 random (http_of (hw_media W)
      (client_request (tp_tokenURL p) cid (cc_ClientSecret cfg) audience scopes))))"
  shows "requestToken (served_net W (TokenHTTP sha256 numeric_date fc sv t0 random)) p t1 audience scopes =
    client_outcome t1 answer"
proof -
  from client_readyE[OF assms(1) assms(2)[symmetric] assms(3)] obtain missing req where ready:
    "wire_laws W" "RawQuery (tp_tokenURL p) = []" "cc_ClientSecret cfg \<noteq> []"
    "hw_new_request W ''POST'' (tp_tokenURL p) (Encode (token_form audience scopes)) = Inr req"
    "int (length (Encode (token_form audience scopes))) \<le> sv_maxTokenRequestBody sv"
    "TrimSpace audience = audience" "audience \<noteq> []" "NormalizeScopes scopes = scopes"
    "tp_authenticator p = ClientSecretBasic missing cid (cc_ClientSecret cfg)"
    "TrimSpace cid = cid" "TrimSpace cid \<noteq> []" by blast
  have answer: "issue sha256 numeric_date (find_any fc) (sv_tokens sv) t0 random
      (asked (TrimSpace cid) (cc_ClientSecret cfg) audience scopes) = answer"
    using assms(5) ready(10) by simp
  have bearer: "wire_response resp \<and> tr_TokenType resp = TokenTypeBearer" if "answer = Inr resp" for resp
    using assms(6)[OF that] assms(5)[unfolded that] by (auto simp: issue_Inr issueAccessToken_Inr)
  show ?thesis
    by (rule exchange_outcome[OF ready(1,4,2,5-9,11,3) BasicAuth_client_request[OF assms(4)]
          answer bearer assms(7)])
qed

text \<open>C12: the wire between client and server is transparent: over HTTP, a client that was built with an
  id and a secret gets from the token endpoint exactly what the service answers to a request for that id,
  secret, audience and scopes - the token and its lifetime, or the OAuth error with its status, code and
  description. Escaping of the form, of the credentials and of the answer loses nothing, as long as the
  client's id has no colon, the form fits the server's limit and the answer the client's.\<close>

theorem token_exchange_transparent:
  fixes fc :: "'s \<Rightarrow> string \<Rightarrow> 'x store_error + client"
  assumes "client_ready W sv cfg p audience scopes"
    and "cid = TrimSpace (cc_ClientID cfg)" "cid \<noteq> []" "CHR '':'' \<notin> set cid"
    and "issue sha256 numeric_date (find_any fc) (sv_tokens sv) t0 random
      (asked cid (cc_ClientSecret cfg) audience scopes) = answer"
    and "\<And>resp. answer = Inr resp \<Longrightarrow> wire_response resp"
    and "fits W (ht_body (TokenHTTP sha256 numeric_date fc sv t0 random (http_of (hw_media W)
      (client_request (tp_tokenURL p) cid (cc_ClientSecret cfg) audience scopes))))"
  shows "requestToken (served_net W (TokenHTTP sha256 numeric_date fc sv t0 random)) p t1 audience scopes =
    client_outcome t1 answer"
  using assms by (rule exchange_of_ready_client)

text \<open>C37: a client whose id holds a colon can never log in with the client library, whatever its secret and
  although the server accepts such an id: basic credentials are read up to their first colon, so the
  server looks for a client with the part of the id before it, and refuses when there is none.\<close>

theorem colon_in_client_id_locks_out:
  fixes fc :: "'s \<Rightarrow> string \<Rightarrow> 'x store_error + client"
  assumes "client_ready W sv cfg p audience scopes"
    and "TrimSpace (cc_ClientID cfg) = a @ '':'' @ b" "CHR '':'' \<notin> set a"
    and "find_any fc (ts_store (sv_tokens sv)) (TrimSpace a) = Inl ErrClientNotFound"
    and "fits W (OAuthErrorBody ''invalid_client'' ''invalid client credentials'')"
  shows "requestToken (served_net W (TokenHTTP sha256 numeric_date fc sv t0 random)) p t1 audience scopes =
    Inl (TokenStatus 401 (Some (''invalid_client'', ''invalid client credentials'')))"
proof -
  let ?cid = "a @ '':'' @ b"
  let ?secret = "cc_ClientSecret cfg"
  have "?cid \<noteq> []" by simp
  from client_readyE[OF assms(1,2) this] obtain missing req where ready:
    "wire_laws W" "RawQuery (tp_tokenURL p) = []" "?secret \<noteq> []"
    "hw_new_request W ''POST'' (tp_tokenURL p) (Encode (token_form audience scopes)) = Inr req"
    "int (length (Encode (token_form audience scopes))) \<le> sv_maxTokenRequestBody sv"
    and aim: "TrimSpace audience = audience" "audience \<noteq> []" "NormalizeScopes scopes = scopes"
    and auth: "tp_authenticator p = ClientSecretBasic missing ?cid ?secret" "TrimSpace ?cid \<noteq> []"
    by blast
  have basic: "BasicAuth (tq_header (client_request (tp_tokenURL p) ?cid ?secret audience scopes)) =
      Some (a, b @ '':'' @ ?secret)"
    unfolding client_request_def by (simp only: token_http_request.simps BasicAuth_colon[OF assms(3)])
  have refused: "issue sha256 numeric_date (find_any fc) (sv_tokens sv) t0 random
      (asked (TrimSpace a) (b @ '':'' @ ?secret) audience scopes) =
      Inl (OAuthError 401 ''invalid_client'' ''invalid client credentials'')"
    using assms(4) by (simp add: issue_def asked_def authenticate_def newOAuthError_def StatusUnauthorized_def)
  note http = TokenHTTP_client_request[OF ready(1,2,5) aim basic, of sha256 numeric_date fc t0 random,
      unfolded refused]
  have small: "fits W (ht_body (TokenHTTP sha256 numeric_date fc sv t0 random (http_of (hw_media W)
      (client_request (tp_tokenURL p) ?cid ?secret audience scopes))))"
    unfolding http using assms(5) by (simp add: writeOAuthError_def)
  show ?thesis
    using exchange_outcome[OF ready(1,4,2,5) aim auth ready(3) basic refused _ small, of t1]
    by (simp add: client_outcome_def)
qed

subsection \<open>The hypotheses hold of a concrete wire\<close>

text \<open>A wire that writes documents as fields joined by ampersands, the lifetime in unary.\<close>

definition unary :: "int \<Rightarrow> string" where
  "unary i = (if i < 0 then ''-'' else []) @ replicate (nat \<bar>i\<bar>) CHR ''1''"

definition read_unary :: "string \<Rightarrow> int" where
  "read_unary n = (if n \<noteq> [] \<and> hd n = CHR ''-'' then 1 - int (length n) else int (length n))"

definition demo_json_of :: "payload \<Rightarrow> string" where
  "demo_json_of payload =
     (case payload of
        TokenBody r \<Rightarrow>
          QueryEscape (tr_AccessToken r) @ ''&'' @ QueryEscape (tr_TokenType r) @ ''&'' @
          QueryEscape (tr_Scope r) @ ''&'' @ unary (tr_ExpiresIn r)
      | OAuthErrorBody code description \<Rightarrow> QueryEscape code @ ''&'' @ QueryEscape description
      | _ \<Rightarrow> [])"

definition demo_read_token :: "string \<Rightarrow> unit + token_response \<times> string" where
  "demo_read_token s =
     (case Split CHR ''&'' s of
        [a, b, c, n] \<Rightarrow>
          (case (QueryUnescape a, QueryUnescape b, QueryUnescape c) of
             (Some token, Some kind, Some scope) \<Rightarrow>
               Inr (\<lparr>tr_AccessToken = token, tr_TokenType = kind, tr_ExpiresIn = read_unary n,
                 tr_Scope = scope\<rparr>, [])
           | _ \<Rightarrow> Inl ())
      | _ \<Rightarrow> Inl ())"

definition demo_read_error :: "string \<Rightarrow> (string \<times> string) option" where
  "demo_read_error s =
     (case Split CHR ''&'' s of
        [a, b] \<Rightarrow>
          (case (QueryUnescape a, QueryUnescape b) of
             (Some code, Some description) \<Rightarrow> Some (code, description)
           | _ \<Rightarrow> None)
      | _ \<Rightarrow> None)"

definition demo_http_wire :: "unit http_wire" where
  "demo_http_wire = \<lparr>hw_new_request = (\<lambda>verb url body.
       Inr \<lparr>tq_method = verb, tq_url = url, tq_header = Map.empty, tq_body = body\<rparr>),
     hw_media = (\<lambda>kind. (kind, False)), hw_json_of = demo_json_of,
     hw_json = \<lparr>jd_value = demo_read_token, jd_extra = (\<lambda>_. ExtraEOF)\<rparr>, hw_oauth_error = demo_read_error\<rparr>"

lemma Split_escaped:
  "Split CHR ''&'' (QueryEscape s @ CHR ''&'' # t) = QueryEscape s # Split CHR ''&'' t"
  "Split CHR ''&'' (QueryEscape s) = [QueryEscape s]"
  using QueryEscape_chars(1) by (auto intro!: Split_append Split_free)

lemma read_unary [simp]: "read_unary (unary i) = i"
proof -
  consider "i < 0" | "i = 0" | k where "nat i = Suc k" by (cases "nat i") force+
  then show ?thesis
  proof cases
    case 3
    then have "0 < i" "int (nat i) = i" by simp_all
    then show ?thesis by (simp add: read_unary_def unary_def 3)
  qed (simp_all add: read_unary_def unary_def)
qed

lemma demo_read_token: "demo_read_token (demo_json_of (TokenBody r)) = Inr (r, [])"
proof -
  have "Split CHR ''&'' (unary i) = [unary i]" for i by (intro Split_free) (auto simp: unary_def)
  then show ?thesis
    by (simp add: demo_read_token_def demo_json_of_def Split_escaped QueryUnescape_roundtrip)
qed

lemma demo_read_error: "demo_read_error (demo_json_of (OAuthErrorBody code description)) = Some (code, description)"
  by (simp add: demo_read_error_def demo_json_of_def Split_escaped QueryUnescape_roundtrip)

lemma demo_http_wire_laws: "wire_laws demo_http_wire"
  by (auto simp: wire_laws_def demo_http_wire_def demo_read_token demo_read_error)

definition demo_client_config :: "string \<Rightarrow> (unit, unit) client_config" where
  "demo_client_config cid = \<lparr>cc_TokenURL = ''https://auth/oauth/token'', cc_ClientID = cid,
     cc_ClientSecret = ''s3cret'', cc_Audience = ''sms'', cc_Scopes = [''sms.send.otp''],
     cc_HTTPClient = None, cc_Authenticator = None, cc_RefreshSkew = 0\<rparr>"

definition demo_provider_of :: "string \<Rightarrow> (unit, unit) token_provider" where
  "demo_provider_of cid =
     \<lparr>tp_tokenURL = ''https://auth/oauth/token'', tp_audience = ''sms'', tp_scopes = [''sms.send.otp''],
      tp_httpClient = (), tp_authenticator = ClientSecretBasic () (TrimSpace cid) ''s3cret'',
      tp_refreshSkew = defaultRefreshSkew\<rparr>"

lemma demo_provider_build:
  "buildProvider () () (demo_client_config cid) = Inr (demo_provider_of cid)"
proof -
  have "TrimSpace ''https://auth/oauth/token'' = ''https://auth/oauth/token''" "TrimSpace ''sms'' = ''sms''"
    "NormalizeScopes [''sms.send.otp''] = [''sms.send.otp'']" by code_simp+
  then show ?thesis
    by (simp add: buildProvider_def client_normalizeConfig_def demo_client_config_def demo_provider_of_def)
qed

lemma demo_provider_target: "target (demo_provider_of cid) [] [] = Some (''sms'', [''sms.send.otp''])"
proof -
  have "TrimSpace ''sms'' = ''sms''" "NormalizeScopes [''sms.send.otp''] = [''sms.send.otp'']" by code_simp+
  then show ?thesis by (simp add: target_def demo_provider_of_def)
qed

lemma demo_sent:
  "RawQuery (tp_tokenURL (demo_provider_of cid)) = []"
  "int (length (Encode (token_form ''sms'' [''sms.send.otp'']))) \<le> sv_maxTokenRequestBody demo_server"
  "hw_new_request demo_http_wire ''POST'' (tp_tokenURL (demo_provider_of cid)) (Encode (token_form ''sms'' [''sms.send.otp''])) =
     Inr \<lparr>tq_method = ''POST'', tq_url = ''https://auth/oauth/token'', tq_header = Map.empty,
       tq_body = Encode (token_form ''sms'' [''sms.send.otp''])\<rparr>"
proof -
  have "RawQuery ''https://auth/oauth/token'' = []" by code_simp
  then show "RawQuery (tp_tokenURL (demo_provider_of cid)) = []" by (simp add: demo_provider_of_def)
  have "Encode (token_form ''sms'' [''sms.send.otp'']) =
      ''audience=sms&grant_type=client_credentials&scope=sms.send.otp''" by code_simp
  then show "int (length (Encode (token_form ''sms'' [''sms.send.otp'']))) \<le> sv_maxTokenRequestBody demo_server"
    by (simp add: demo_server_def server_of_def demo_config_def zero_config_def normalizeConfig_def
        DefaultMaxTokenRequestBody_def)
qed (simp add: demo_http_wire_def demo_provider_of_def)

lemma demo_client_ready:
  "int (length (Encode (token_form ''sms'' [''sms.send.otp'']))) \<le> sv_maxTokenRequestBody sv \<Longrightarrow>
   client_ready demo_http_wire sv (demo_client_config cid) (demo_provider_of cid) ''sms'' [''sms.send.otp'']"
  unfolding client_ready_def
  using demo_http_wire_laws demo_provider_build[of cid] demo_provider_target[of cid] demo_sent(1,3)[of cid]
  by (auto simp: demo_client_config_def)

lemma demo_asked: "asked ''svc'' ''s3cret'' ''sms'' [''sms.send.otp''] = demo_request"
  by (simp add: asked_def demo_request_def)

lemma demo_server_issues:
  "issue id (\<lambda>t. t - t mod second) (find_any fc) (sv_tokens demo_server) 0 (Inr ''0123456789abcdef'')
     (asked ''svc'' ''s3cret'' ''sms'' [''sms.send.otp'']) = Inr demo_response"
  unfolding demo_asked
  by (rule demo_issue_any[where find_client = "find_any fc", OF demo_find])
    (simp_all add: demo_server_def server_of_def demo_config_def zero_config_def
      normalizeConfig_def defaultAccessTokenTTL_def)

theorem token_exchange_transparent_witness:
  "requestToken (served_net demo_http_wire (TokenHTTP id (\<lambda>t. t - t mod second) (\<lambda>_ _. Inl ErrClientNotFound) demo_server 0
       (Inr ''0123456789abcdef''))) (demo_provider_of '' svc'') (3 * second) ''sms'' [''sms.send.otp''] =
     Inr \<lparr>ct_response = demo_response, ct_expiresAt = 903 * second\<rparr>"
proof -
  have svc: "TrimSpace '' svc'' = ''svc''" by code_simp
  let ?url = "tp_tokenURL (demo_provider_of '' svc'')"
  have ascii: "wire_response demo_response" by (simp add: wire_response_def demo_response_def min_int64_def max_int64_def)
  have aim: "TrimSpace ''sms'' = ''sms''" "''sms'' \<noteq> []" "NormalizeScopes [''sms.send.otp''] = [''sms.send.otp'']"
    by code_simp+
  have basic: "BasicAuth (tq_header (client_request ?url ''svc'' ''s3cret'' ''sms'' [''sms.send.otp''])) =
      Some (''svc'', ''s3cret'')" by (rule BasicAuth_client_request) simp
  note http = TokenHTTP_client_request[OF demo_http_wire_laws demo_sent(1,2) aim basic]
  have svc': "TrimSpace ''svc'' = ''svc''" by code_simp
  have escaped: "QueryEscape ''svc|sms.send.otp'' = ''svc%7Csms.send.otp''" "QueryEscape ''Bearer'' = ''Bearer''"
    "QueryEscape ''sms.send.otp'' = ''sms.send.otp''" by code_simp+
  have fits: "fits demo_http_wire (ht_body (TokenHTTP id (\<lambda>t. t - t mod second) (\<lambda>_ _. Inl ErrClientNotFound) demo_server 0
      (Inr ''0123456789abcdef'') (http_of (hw_media demo_http_wire)
      (client_request ?url ''svc'' ''s3cret'' ''sms'' [''sms.send.otp'']))))"
    unfolding http svc' demo_server_issues
    by (simp add: fits_def demo_http_wire_def demo_json_of_def demo_response_def escaped
        unary_def maxTokenResponseBody_def)
  have "requestToken (served_net demo_http_wire (TokenHTTP id (\<lambda>t. t - t mod second) (\<lambda>_ _. Inl ErrClientNotFound) demo_server 0
       (Inr ''0123456789abcdef''))) (demo_provider_of '' svc'') (3 * second) ''sms'' [''sms.send.otp''] =
     client_outcome (3 * second) (Inr demo_response :: unit issue_error + token_response)"
    by (rule token_exchange_transparent[OF demo_client_ready[of demo_server "'' svc''"]])
      (use demo_sent(2) demo_server_issues fits ascii in \<open>auto simp: demo_client_config_def svc\<close>)
  moreover have "wrap64 (900 * second) = 900 * second"
    by (rule wrap64_id) (simp_all add: second_def min_int64_def max_int64_def)
  ultimately show ?thesis by (simp add: client_outcome_def demo_response_def)
qed

text \<open>A server with one client, of id \<open>team:svc\<close>, which no client library can use.\<close>

definition colon_config :: "(unit, unit, nat) config" where
  "colon_config = demo_config\<lparr>cf_Clients := [demo_client\<lparr>c_ID := ''team:svc''\<rparr>]\<rparr>"

definition colon_server :: "(unit, unit, nat) server" where
  "colon_server = server_of (normalizeConfig 0 colon_config) demo_signer"

lemma colon_build: "buildServer 0 colon_config = Inr colon_server"
proof -
  have "trim_issuer ''https://auth/'' = ''https://auth''" by code_simp
  moreover have "client_Validate (client_Normalize (demo_client\<lparr>c_ID := ''team:svc''\<rparr>)) = None" by code_simp
  then have "client_ok (client_Normalize (demo_client\<lparr>c_ID := ''team:svc''\<rparr>))" by (rule client_Validate_None[THEN iffD1])
  moreover have "TrimSpace ''k1'' = ''k1''" by code_simp
  ultimately have "config_ok (normalizeConfig 0 colon_config) [demo_signer]"
    by (simp add: config_ok_def colon_config_def demo_config_def zero_config_def signer_kid_def demo_signer_def)
  then show ?thesis
    unfolding buildServer_Inr
    by (intro exI conjI)
      (auto simp: colon_server_def active_of_def colon_config_def demo_config_def zero_config_def)
qed

theorem colon_in_client_id_locks_out_witness:
  "buildServer 0 colon_config = Inr colon_server \<and>
   buildProvider () () (demo_client_config ''team:svc'') = Inr (demo_provider_of ''team:svc'') \<and>
   VerifySecret id (client_Normalize demo_client) (cc_ClientSecret (demo_client_config ''team:svc'')) \<and>
   requestToken (served_net demo_http_wire (TokenHTTP id (\<lambda>t. t - t mod second) (\<lambda>_ _. Inl ErrClientNotFound) colon_server 0
       (Inr ''0123456789abcdef''))) (demo_provider_of ''team:svc'') 0 ''sms'' [''sms.send.otp''] =
     Inl (TokenStatus 401 (Some (''invalid_client'', ''invalid client credentials'')))"
proof (intro conjI colon_build demo_provider_build)
  show "VerifySecret id (client_Normalize demo_client) (cc_ClientSecret (demo_client_config ''team:svc''))"
    by code_simp
  have trim: "TrimSpace ''team:svc'' = ''team:svc''" "TrimSpace ''team'' = ''team''" by code_simp+
  have "(FindClient (NewMemoryClientStore [demo_client\<lparr>c_ID := ''team:svc''\<rparr>]) ''team'' :: unit store_error + client) =
      Inl ErrClientNotFound" by code_simp
  then have unknown: "(find_any (\<lambda>_ _. Inl ErrClientNotFound) (ts_store (sv_tokens colon_server)) (TrimSpace ''team'') ::
      unit store_error + client) = Inl ErrClientNotFound"
    by (simp add: colon_server_def server_of_def colon_config_def demo_config_def zero_config_def find_any_def trim
        NewMemoryClientStore_def Upsert_def)
  have escaped: "QueryEscape ''invalid_client'' = ''invalid_client''"
    "QueryEscape ''invalid client credentials'' = ''invalid+client+credentials''" by code_simp+
  have fits: "fits demo_http_wire (OAuthErrorBody ''invalid_client'' ''invalid client credentials'')"
    by (simp add: fits_def demo_http_wire_def demo_json_of_def escaped maxTokenResponseBody_def)
  have limit: "sv_maxTokenRequestBody colon_server = sv_maxTokenRequestBody demo_server"
    by (simp add: colon_server_def demo_server_def server_of_def colon_config_def normalizeConfig_def)
  show "requestToken (served_net demo_http_wire (TokenHTTP id (\<lambda>t. t - t mod second) (\<lambda>_ _. Inl ErrClientNotFound) colon_server 0
       (Inr ''0123456789abcdef''))) (demo_provider_of ''team:svc'') 0 ''sms'' [''sms.send.otp''] =
     Inl (TokenStatus 401 (Some (''invalid_client'', ''invalid client credentials'')))"
    by (rule colon_in_client_id_locks_out[where a = "''team''" and b = "''svc''",
          OF demo_client_ready[of colon_server "''team:svc''"] _ _ unknown fits])
      (use demo_sent(2) in \<open>simp_all add: demo_client_config_def trim limit\<close>)
qed

end
