(* ===== verification/Rate_Limit.thy ===== *)
theory Rate_Limit
  imports Go_Float
begin

text \<open>
  \<open>internal/authapp/ratelimit.go\<close>: the fixed-window rate limiter of the auth application, and the
  handler chain of \<open>internal/authapp/audit.go\<close> that puts it in front of the token and readiness
  endpoints.

  The zero \<open>time.Time\<close> is \<open>None\<close>. The clock reading of a call is an argument; the mutex makes each
  call one transition of the limiter.
\<close>

definition maxLimiterSweepInterval :: duration where "maxLimiterSweepInterval = minute"

record rate_window =
  rw_resetAt :: "time option"
  rw_count :: int

record rate_limiter =
  rl_windows :: "string \<rightharpoonup> rate_window"
  rl_nextSweep :: "time option"

definition newFixedWindowRateLimiter :: rate_limiter where
  "newFixedWindowRateLimiter = \<lparr>rl_windows = Map.empty, rl_nextSweep = None\<rparr>"

text \<open>\<open>now.Before(t)\<close>, for a \<open>t\<close> that may be the zero time.\<close>

definition Before :: "time \<Rightarrow> time option \<Rightarrow> bool" where
  "Before now t = (case t of None \<Rightarrow> False | Some t \<Rightarrow> now < t)"

definition sweepExpired :: "time \<Rightarrow> duration \<Rightarrow> rate_limiter \<Rightarrow> rate_limiter" where
  "sweepExpired now window l =
     (if rl_nextSweep l \<noteq> None \<and> Before now (rl_nextSweep l) then l
      else l\<lparr>rl_windows := (\<lambda>key. case rl_windows l key of
                 None \<Rightarrow> None
               | Some current \<Rightarrow> if \<not> Before now (rw_resetAt current) then None else Some current),
             rl_nextSweep := Some (time_add now (min window maxLimiterSweepInterval))\<rparr>)"

definition allow ::
  "rate_limiter \<Rightarrow> time \<Rightarrow> string \<Rightarrow> int \<Rightarrow> duration \<Rightarrow> rate_limiter \<times> bool \<times> duration" where
  "allow l0 now key limit window =
     (if limit \<le> 0 \<or> window \<le> 0 then (l0, True, 0)
      else
        let l = sweepExpired now window l0;
            current0 = (case rl_windows l key of
              None \<Rightarrow> \<lparr>rw_resetAt = None, rw_count = 0\<rparr> | Some current \<Rightarrow> current);
            current1 = (if rw_resetAt current0 = None \<or> \<not> Before now (rw_resetAt current0)
              then \<lparr>rw_resetAt = Some (time_add now window), rw_count = 0\<rparr> else current0);
            current = current1\<lparr>rw_count := wrap64 (rw_count current1 + 1)\<rparr>;
            l = l\<lparr>rl_windows := (rl_windows l)(key \<mapsto> current)\<rparr> in
        if rw_count current \<le> limit then (l, True, 0)
        else (l, False, time_sub (the (rw_resetAt current)) now))"

definition retryAfterSeconds :: "duration \<Rightarrow> int" where
  "retryAfterSeconds retryAfter =
     (if retryAfter \<le> 0 then 1
      else
        let seconds = \<lceil>Seconds retryAfter\<rceil> in
        if seconds < 1 then 1 else seconds)"

subsection \<open>The handler chain\<close>

record effective_rate_limit =
  el_enabled :: bool
  el_limit :: int
  el_window :: duration

text \<open>What the limiter answers: the next handler runs, or status 429 with \<open>Retry-After\<close>.\<close>

datatype limited = Next | TooManyRequests int

definition rateLimit ::
  "string \<Rightarrow> effective_rate_limit \<Rightarrow> string \<Rightarrow> time \<Rightarrow> rate_limiter \<Rightarrow> rate_limiter \<times> limited" where
  "rateLimit endpoint limit remoteIP now l =
     (let (l, ok, retryAfter) = allow l now (endpoint @ ''|'' @ remoteIP) (el_limit limit) (el_window limit) in
      if ok then (l, Next) else (l, TooManyRequests (retryAfterSeconds retryAfter)))"

text \<open>The handlers in front of an endpoint, in order.\<close>

datatype 'h gin_handler = AuditHandler string | RateLimitHandler string effective_rate_limit | Endpoint 'h

record runtime_security =
  rsec_limiter :: rate_limiter
  rsec_auditEnabled :: bool

definition handlers :: "runtime_security \<Rightarrow> string \<Rightarrow> effective_rate_limit \<Rightarrow> 'h \<Rightarrow> 'h gin_handler list" where
  "handlers s endpoint limit handler =
     (if rsec_auditEnabled s then [AuditHandler endpoint] else []) @
     (if el_enabled limit then [RateLimitHandler endpoint limit] else []) @ [Endpoint handler]"

definition auditOutcome :: "int \<Rightarrow> string" where
  "auditOutcome status =
     (if status = 429 then ''rate_limited''
      else if 200 \<le> status \<and> status < 300 then ''success''
      else if 500 \<le> status then ''error''
      else ''rejected'')"

subsection \<open>A limiter without sweeping\<close>

text \<open>The reference: each key has a window of its own, opened by the first call at or after the end of
  the one before; a call is number \<open>n\<close> of its window.\<close>

fun ref_step :: "duration \<Rightarrow> (time \<times> int) option \<Rightarrow> time \<Rightarrow> (time \<times> int) option" where
  "ref_step window (Some (r, n)) now = (if now < r then Some (r, n + 1) else Some (now + window, 1))"
| "ref_step window None now = Some (now + window, 1)"

definition ref_window :: "duration \<Rightarrow> time list \<Rightarrow> (time \<times> int) option" where
  "ref_window window ts = foldl (ref_step window) None ts"

definition ref_number :: "duration \<Rightarrow> time list \<Rightarrow> int" where
  "ref_number window ts = (case ref_window window ts of None \<Rightarrow> 0 | Some (r, n) \<Rightarrow> n)"

text \<open>A run of the limiter; \<open>cfg\<close> gives limit and window of a key.\<close>

fun limiter_run ::
  "(string \<Rightarrow> int \<times> duration) \<Rightarrow> rate_limiter \<Rightarrow> (time \<times> string) list \<Rightarrow> rate_limiter \<times> bool list" where
  "limiter_run cfg l [] = (l, [])"
| "limiter_run cfg l ((now, key) # calls) =
     (let (l1, ok, _) = allow l now key (fst (cfg key)) (snd (cfg key));
          (l2, oks) = limiter_run cfg l1 calls in (l2, ok # oks))"

definition times_of :: "string \<Rightarrow> (time \<times> string) list \<Rightarrow> time list" where
  "times_of key calls = map fst (filter (\<lambda>c. snd c = key) calls)"

lemma ref_window_snoc: "ref_window W (ts @ [t]) = ref_step W (ref_window W ts) t"
  by (simp add: ref_window_def)

lemma ref_window_Nil [simp]: "ref_window W [] = None"
  by (simp add: ref_window_def)

lemma ref_number_bounds: "0 \<le> ref_number W ts" "ref_number W ts \<le> int (length ts)"
proof (induction ts rule: rev_induct)
  case (snoc t ts)
  { case 1 then show ?case using snoc
      by (cases "ref_window W ts") (auto simp: ref_number_def ref_window_snoc)
  next
    case 2 then show ?case using snoc
      by (cases "ref_window W ts") (auto simp: ref_number_def ref_window_snoc) }
qed (simp_all add: ref_number_def)

lemma times_of_snoc: "times_of key (calls @ [(now, k)]) = times_of key calls @ (if k = key then [now] else [])"
  by (simp add: times_of_def)

lemma times_of_length: "length (times_of key calls) \<le> length calls"
  by (simp add: times_of_def)

text \<open>The limiter and the reference agree on every window that has not ended.\<close>

definition key_agrees :: "time \<Rightarrow> rate_window option \<Rightarrow> (time \<times> int) option \<Rightarrow> bool" where
  "key_agrees now w r \<longleftrightarrow>
     (case w of
        Some w \<Rightarrow> \<exists>t n. r = Some (t, n) \<and> w = \<lparr>rw_resetAt = Some t, rw_count = n\<rparr>
      | None \<Rightarrow> (\<forall>t n. r = Some (t, n) \<longrightarrow> t \<le> now))"

definition agrees ::
  "(string \<Rightarrow> int \<times> duration) \<Rightarrow> time \<Rightarrow> (time \<times> string) list \<Rightarrow> rate_limiter \<Rightarrow> bool" where
  "agrees cfg now hist l \<longleftrightarrow>
     (\<forall>key. 0 < fst (cfg key) \<longrightarrow> 0 < snd (cfg key) \<longrightarrow>
        key_agrees now (rl_windows l key) (ref_window (snd (cfg key)) (times_of key hist)))"

lemma key_agrees_later: "key_agrees now w r \<Longrightarrow> now \<le> now' \<Longrightarrow> key_agrees now' w r"
  by (fastforce simp: key_agrees_def split: option.splits)

lemma sweep_windows:
  "rl_windows (sweepExpired now W l) key = rl_windows l key \<or>
   (\<exists>w. rl_windows l key = Some w \<and> \<not> Before now (rw_resetAt w) \<and> rl_windows (sweepExpired now W l) key = None)"
  by (auto simp: sweepExpired_def split: option.split)

lemma key_agrees_sweep:
  assumes "key_agrees now (rl_windows l key) r"
  shows "key_agrees now (rl_windows (sweepExpired now W l) key) r"
  using sweep_windows[of now W l key] assms
  by (auto simp: key_agrees_def Before_def split: option.splits)

text \<open>What a call does to the window of its key, and its answer.\<close>

lemma allow_key:
  assumes lim: "0 < limit" "0 < W" and ag: "key_agrees now (rl_windows l key) r"
    and n: "\<forall>t n. r = Some (t, n) \<longrightarrow> 0 \<le> n \<and> n < max_int64"
  shows "\<exists>t n. ref_step W r now = Some (t, n) \<and>
    rl_windows (fst (allow l now key limit W)) =
      (rl_windows (sweepExpired now W l))(key \<mapsto> \<lparr>rw_resetAt = Some t, rw_count = n\<rparr>) \<and>
    (fst (snd (allow l now key limit W)) \<longleftrightarrow> n \<le> limit)"
proof -
  let ?l = "sweepExpired now W l"
  have one: "wrap64 1 = 1" by (rule wrap64_id) (simp_all add: min_int64_def max_int64_def)
  have ag': "key_agrees now (rl_windows ?l key) r" by (rule key_agrees_sweep[OF ag])
  show ?thesis
  proof (cases "rl_windows ?l key")
    case None
    then have new: "ref_step W r now = Some (now + W, 1)"
      using ag' by (cases r) (auto simp: key_agrees_def)
    show ?thesis
      using lim None by (simp add: allow_def Let_def one time_add_def new)
  next
    case (Some w)
    then obtain t n where r: "r = Some (t, n)" "w = \<lparr>rw_resetAt = Some t, rw_count = n\<rparr>"
      using ag' by (auto simp: key_agrees_def)
    have w: "wrap64 (n + 1) = n + 1"
      using n r(1) by (intro wrap64_id) (simp_all add: min_int64_def max_int64_def)
    show ?thesis
      using lim Some r by (simp add: allow_def Let_def one w time_add_def Before_def)
  qed
qed

lemma allow_unlimited: "limit \<le> 0 \<or> W \<le> 0 \<Longrightarrow> allow l now key limit W = (l, True, 0)"
  by (auto simp: allow_def)

lemma agrees_step:
  assumes ag: "agrees cfg now hist l" and le: "now \<le> now'" and len: "int (length hist) < max_int64"
  shows "agrees cfg now' (hist @ [(now', key)]) (fst (allow l now' key (fst (cfg key)) (snd (cfg key))))"
    and "fst (snd (allow l now' key (fst (cfg key)) (snd (cfg key)))) \<longleftrightarrow>
      fst (cfg key) \<le> 0 \<or> snd (cfg key) \<le> 0 \<or>
      ref_number (snd (cfg key)) (times_of key (hist @ [(now', key)])) \<le> fst (cfg key)"
proof -
  let ?W = "snd (cfg key)" and ?limit = "fst (cfg key)"
  let ?r = "\<lambda>k. ref_window (snd (cfg k)) (times_of k hist)"
  have kag: "key_agrees now' (rl_windows l k) (?r k)" if "0 < fst (cfg k)" "0 < snd (cfg k)" for k
    using ag that le by (auto simp: agrees_def intro: key_agrees_later)
  have n: "0 \<le> n \<and> n < max_int64" if "?r key = Some (t, n)" for t n
    using ref_number_bounds[of ?W "times_of key hist"] times_of_length[of key hist] that len
    by (simp add: ref_number_def)
  have "agrees cfg now' (hist @ [(now', key)]) (fst (allow l now' key ?limit ?W)) \<and>
    (fst (snd (allow l now' key ?limit ?W)) \<longleftrightarrow> ?limit \<le> 0 \<or> ?W \<le> 0 \<or>
      ref_number ?W (times_of key (hist @ [(now', key)])) \<le> ?limit)"
  proof (cases "?limit \<le> 0 \<or> ?W \<le> 0")
    case True
    then show ?thesis using kag by (auto simp: allow_unlimited agrees_def times_of_snoc)
  next
    case False
    then have lim: "0 < ?limit" "0 < ?W" by auto
    note step = allow_key[OF lim kag[OF lim]]
    obtain t m where a: "ref_step ?W (?r key) now' = Some (t, m)"
      "rl_windows (fst (allow l now' key ?limit ?W)) =
        (rl_windows (sweepExpired now' ?W l))(key \<mapsto> \<lparr>rw_resetAt = Some t, rw_count = m\<rparr>)"
      "fst (snd (allow l now' key ?limit ?W)) \<longleftrightarrow> m \<le> ?limit"
      using step n by blast
    have new: "ref_window ?W (times_of key (hist @ [(now', key)])) = Some (t, m)"
      by (simp add: times_of_snoc ref_window_snoc a(1))
    have "key_agrees now' (rl_windows (fst (allow l now' key ?limit ?W)) k)
        (ref_window (snd (cfg k)) (times_of k (hist @ [(now', key)])))"
      if "0 < fst (cfg k)" "0 < snd (cfg k)" for k
    proof (cases "k = key")
      case True
      show ?thesis unfolding True new a(2) by (simp add: key_agrees_def)
    next
      case other: False
      then have "times_of k (hist @ [(now', key)]) = times_of k hist" by (simp add: times_of_snoc)
      then show ?thesis using key_agrees_sweep[OF kag[OF that]] other by (simp add: a(2))
    qed
    then show ?thesis using lim a(3) new by (simp add: agrees_def ref_number_def)
  qed
  then show "agrees cfg now' (hist @ [(now', key)]) (fst (allow l now' key ?limit ?W))"
    "fst (snd (allow l now' key ?limit ?W)) \<longleftrightarrow> ?limit \<le> 0 \<or> ?W \<le> 0 \<or>
      ref_number ?W (times_of key (hist @ [(now', key)])) \<le> ?limit" by blast+
qed

subsection \<open>What the limiter guarantees\<close>

lemma agrees_new: "agrees cfg now [] newFixedWindowRateLimiter"
  by (simp add: agrees_def key_agrees_def newFixedWindowRateLimiter_def times_of_def)

lemma limiter_run_agrees:
  assumes "agrees cfg now hist l" "sorted (now # map fst calls)"
    and "int (length hist + length calls) \<le> max_int64"
  shows "snd (limiter_run cfg l calls) = map (\<lambda>i. let key = snd (calls ! i) in
      fst (cfg key) \<le> 0 \<or> snd (cfg key) \<le> 0 \<or>
      ref_number (snd (cfg key)) (times_of key (hist @ take (Suc i) calls)) \<le> fst (cfg key)) [0..<length calls]"
  using assms
proof (induction calls arbitrary: now hist l)
  case (Cons call calls)
  obtain now' key where call: "call = (now', key)" by (cases call)
  let ?a = "allow l now' key (fst (cfg key)) (snd (cfg key))"
  have le: "now \<le> now'" "sorted (now' # map fst calls)" using Cons.prems(2) by (auto simp: call)
  have len: "int (length hist) < max_int64" using Cons.prems(3) by simp
  note step = agrees_step[OF Cons.prems(1) le(1) len, of key]
  have "int (length (hist @ [(now', key)]) + length calls) \<le> max_int64" using Cons.prems(3) by simp
  note IH = Cons.IH[OF step(1) le(2) this]
  have run: "snd (limiter_run cfg l (call # calls)) = fst (snd ?a) # snd (limiter_run cfg (fst ?a) calls)"
    by (simp add: call split_beta Let_def)
  show ?case unfolding run IH step(2)
    by (simp add: call Let_def map_upt_Suc del: upt_Suc)
qed simp


text \<open>How many calls of a key the reference admits at times in \<open>[a, a + W)\<close>, after the calls \<open>before\<close>.\<close>

fun admitted :: "int \<Rightarrow> duration \<Rightarrow> time \<Rightarrow> time list \<Rightarrow> time list \<Rightarrow> nat" where
  "admitted limit W a before [] = 0"
| "admitted limit W a before (t # ts) =
     (if a \<le> t \<and> t < a + W \<and> ref_number W (before @ [t]) \<le> limit then 1 else 0) +
     admitted limit W a (before @ [t]) ts"

lemma admitted_append:
  "admitted limit W a before (ts @ us) = admitted limit W a before ts + admitted limit W a (before @ ts) us"
  by (induction ts arbitrary: before) simp_all

lemma admitted_outside: "\<forall>t\<in>set ts. t < a \<or> a + W \<le> t \<Longrightarrow> admitted limit W a before ts = 0"
  by (induction ts arbitrary: before) auto

text \<open>An interval as long as the window meets at most two windows of a key.\<close>

lemma admitted_bound_step:
  assumes "sorted ts" "\<forall>t\<in>set ts. t < a + W" "0 < limit" "0 < W"
  shows "int (admitted limit W a [] ts) \<le> min (ref_number W ts) limit \<or>
    (\<exists>r n. ref_window W ts = Some (r, n) \<and> a + W \<le> r \<and>
       int (admitted limit W a [] ts) \<le> limit + min n limit)"
  using assms(1,2)
proof (induction ts rule: rev_induct)
  case Nil
  then show ?case using assms(3) by (simp add: ref_number_def)
next
  case (snoc t ts)
  have s: "sorted ts" "\<forall>x\<in>set ts. x \<le> t" "\<forall>x\<in>set ts. x < a + W" "t < a + W"
    using snoc.prems by (auto simp: sorted_append)
  let ?A = "int (admitted limit W a [] ts)"
  have A: "int (admitted limit W a [] (ts @ [t])) =
      ?A + (if a \<le> t \<and> ref_number W (ts @ [t]) \<le> limit then 1 else 0)"
    using s(4) by (simp add: admitted_append)
  note IH = snoc.IH[OF s(1,3)]
  show ?case
  proof (cases "t < a")
    case True
    then have "?A = 0" using s(2) admitted_outside[of ts a W limit "[]"] by fastforce
    then show ?thesis using A True ref_number_bounds(1)[of W "ts @ [t]"] assms(3) by simp
  next
    case False
    show ?thesis
    proof (cases "ref_window W ts")
      case None
      then show ?thesis using IH A assms(3) by (auto simp: ref_number_def ref_window_snoc)
    next
      case (Some w)
      obtain r n where w: "w = (r, n)" by (cases w)
      show ?thesis
      proof (cases "t < r")
        case True
        then show ?thesis using IH A assms(3) False
          by (auto simp: ref_number_def ref_window_snoc Some w)
      next
        case new: False
        then have "\<not> a + W \<le> r" using s(4) by simp
        then have "?A \<le> limit" using IH by (auto simp: ref_number_def Some w)
        then show ?thesis using A assms(3) False new by (auto simp: ref_number_def ref_window_snoc Some w)
      qed
    qed
  qed
qed

lemma admitted_bound_early:
  assumes "sorted ts" "\<forall>t\<in>set ts. t < a + W" "0 < limit" "0 < W"
  shows "int (admitted limit W a [] ts) \<le> 2 * limit"
  using admitted_bound_step[OF assms]
proof
  assume "int (admitted limit W a [] ts) \<le> min (ref_number W ts) limit"
  then show ?thesis using assms(3) by linarith
next
  assume "\<exists>r n. ref_window W ts = Some (r, n) \<and> a + W \<le> r \<and>
       int (admitted limit W a [] ts) \<le> limit + min n limit"
  then obtain n where "int (admitted limit W a [] ts) \<le> limit + min n limit" by blast
  then show ?thesis by linarith
qed

lemma sorted_split: "sorted ts \<Longrightarrow> filter (\<lambda>t. t < b) ts @ filter (\<lambda>t. b \<le> t) ts = (ts :: int list)"
proof (induction ts)
  case (Cons t ts)
  then show ?case
  proof (cases "t < b")
    case False
    then have "filter (\<lambda>t. t < b) ts = []" using Cons.prems by (auto simp: filter_empty_conv)
    then show ?thesis using Cons False by simp
  qed simp
qed simp

lemma admitted_bound:
  assumes "sorted ts" "0 < limit" "0 < W"
  shows "int (admitted limit W a [] ts) \<le> 2 * limit"
proof -
  let ?us = "filter (\<lambda>t. t < a + W) ts"
  let ?vs = "filter (\<lambda>t. a + W \<le> t) ts"
  have "admitted limit W a [] (?us @ ?vs) = admitted limit W a [] ?us"
    unfolding admitted_append by (subst (2) admitted_outside) auto
  then have "admitted limit W a [] ts = admitted limit W a [] ?us"
    unfolding sorted_split[OF assms(1)] .
  moreover have "int (admitted limit W a [] ?us) \<le> 2 * limit"
  proof -
    have "sorted ?us" using assms(1) by (rule sorted_wrt_filter)
    moreover have "\<forall>t\<in>set ?us. t < a + W" by simp
    ultimately show ?thesis by (rule admitted_bound_early) (use assms(2,3) in simp_all)
  qed
  ultimately show ?thesis by simp
qed

definition admitted_run ::
  "(string \<Rightarrow> int \<times> duration) \<Rightarrow> rate_limiter \<Rightarrow> (time \<times> string) list \<Rightarrow> string \<Rightarrow> time \<Rightarrow> nat" where
  "admitted_run cfg l calls key a =
     length (filter (\<lambda>(call, ok). ok \<and> snd call = key \<and> a \<le> fst call \<and> fst call < a + snd (cfg key))
       (zip calls (snd (limiter_run cfg l calls))))"

lemma admitted_run_ref:
  assumes "agrees cfg now hist l" "sorted (now # map fst calls)"
    and "int (length hist + length calls) \<le> max_int64" "cfg key = (limit, W)" "0 < limit" "0 < W"
  shows "admitted_run cfg l calls key a = admitted limit W a (times_of key hist) (times_of key calls)"
  using assms
proof (induction calls arbitrary: now hist l)
  case (Cons call calls)
  obtain now' k where call: "call = (now', k)" by (cases call)
  let ?a = "allow l now' k (fst (cfg k)) (snd (cfg k))"
  have le: "now \<le> now'" "sorted (now' # map fst calls)" using Cons.prems(2) by (auto simp: call)
  have len: "int (length hist) < max_int64" using Cons.prems(3) by simp
  note step = agrees_step[OF Cons.prems(1) le(1) len, of k]
  have "int (length (hist @ [(now', k)]) + length calls) \<le> max_int64" using Cons.prems(3) by simp
  note IH = Cons.IH[OF step(1) le(2) this Cons.prems(4-6)]
  have run: "snd (limiter_run cfg l (call # calls)) = fst (snd ?a) # snd (limiter_run cfg (fst ?a) calls)"
    by (simp add: call split_beta Let_def)
  have "admitted_run cfg l (call # calls) key a =
      (if fst (snd ?a) \<and> k = key \<and> a \<le> now' \<and> now' < a + snd (cfg key) then 1 else 0) +
      admitted_run cfg (fst ?a) calls key a"
    unfolding admitted_run_def run by (simp add: call)
  moreover have "times_of key (call # calls) = (if k = key then [now'] else []) @ times_of key calls"
    by (simp add: times_of_def call)
  ultimately show ?case unfolding IH
    using Cons.prems(4-6) step(2) by (auto simp: times_of_snoc admitted_append)
qed (simp add: admitted_run_def times_of_def)

lemma sorted_times_of: "sorted (map fst calls) \<Longrightarrow> sorted (times_of key calls)"
  unfolding times_of_def by (rule sorted_filter)

text \<open>In any time interval of the length of its window the limiter admits at most twice its limit of
  calls of a key, however the calls of this and other keys are spread over it.\<close>

theorem limiter_bound:
  assumes "sorted (map fst calls)" "int (length calls) \<le> max_int64"
    and "cfg key = (limit, window)" "0 < limit" "0 < window"
  shows "int (admitted_run cfg newFixedWindowRateLimiter calls key a) \<le> 2 * limit"
proof -
  define start where "start = (case calls of [] \<Rightarrow> 0 | c # _ \<Rightarrow> fst c)"
  have "sorted (start # map fst calls)" using assms(1) by (cases calls) (auto simp: start_def)
  from admitted_run_ref[where hist = "[]" and cfg = cfg and key = key, OF agrees_new this _ assms(3-5), of a]
  have "admitted_run cfg newFixedWindowRateLimiter calls key a =
      admitted limit window a [] (times_of key calls)"
    using assms(2) by (simp add: times_of_def)
  then show ?thesis using admitted_bound[OF sorted_times_of[OF assms(1)] assms(4,5)] by simp
qed

lemma wrap64_1 [simp]: "wrap64 1 = 1"
  by (rule wrap64_id) (simp_all add: min_int64_def max_int64_def)

lemma allow_refused:
  assumes "allow l now key limit W = (l', False, d)"
  shows "0 < limit \<and> 0 < W \<and> (\<exists>t n. rl_windows l' key = Some \<lparr>rw_resetAt = Some t, rw_count = n\<rparr> \<and>
    d = time_sub t now \<and> now < t \<and> (\<exists>w. rl_windows l key = Some w \<and> rw_resetAt w = Some t))"
proof -
  let ?l = "sweepExpired now W l"
  have lim: "0 < limit" "0 < W" using assms by (auto simp: allow_def split: if_splits)
  have old: "rl_windows l key = Some w" if "rl_windows ?l key = Some w" for w
    using sweep_windows[of now W l key] that by auto
  show ?thesis
  proof (cases "\<exists>w t. rl_windows ?l key = Some w \<and> rw_resetAt w = Some t \<and> now < t")
    case True
    then obtain w t where w: "rl_windows ?l key = Some w" "rw_resetAt w = Some t" "now < t" by blast
    then have "l' = ?l\<lparr>rl_windows := (rl_windows ?l)(key \<mapsto> w\<lparr>rw_count := wrap64 (rw_count w + 1)\<rparr>)\<rparr>"
      "d = time_sub t now"
      using assms lim by (auto simp: allow_def Let_def Before_def split: if_splits)
    moreover have "w\<lparr>rw_count := n\<rparr> = \<lparr>rw_resetAt = Some t, rw_count = n\<rparr>" for n
      using w(2) by (cases w) simp
    ultimately have "rl_windows l' key = Some \<lparr>rw_resetAt = Some t, rw_count = wrap64 (rw_count w + 1)\<rparr>"
      "d = time_sub t now" by simp_all
    then show ?thesis using lim old[OF w(1)] w(2,3) by blast
  next
    case False
    then have "fst (snd (allow l now key limit W))"
      using lim by (cases "rl_windows ?l key") (auto simp: allow_def Let_def Before_def split: option.splits)
    then show ?thesis using assms by simp
  qed
qed

text \<open>A call at or after the end of its key's window opens a new one.\<close>

lemma allow_after_window:
  assumes "\<And>w t. rl_windows l key = Some w \<Longrightarrow> rw_resetAt w = Some t \<Longrightarrow> t \<le> now"
  shows "fst (snd (allow l now key limit W))"
proof (cases "limit \<le> 0 \<or> W \<le> 0")
  case False
  have "rw_resetAt w = None \<or> \<not> Before now (rw_resetAt w)"
    if "rl_windows (sweepExpired now W l) key = Some w" for w
    using assms sweep_windows[of now W l key] that by (cases "rw_resetAt w") (fastforce simp: Before_def)+
  then show ?thesis using False by (cases "rl_windows (sweepExpired now W l) key") (auto simp: allow_def Let_def)
qed (auto simp: allow_unlimited)

lemma retryAfterSeconds_enough:
  assumes "0 < d" "d < 2 ^ 22 * second"
  shows "d \<le> retryAfterSeconds d * second" "1 \<le> retryAfterSeconds d"
    "(retryAfterSeconds d - 1) * second < d"
proof -
  define q where "q = (d + second - 1) div second"
  have "q * second + (d + second - 1) mod second = d + second - 1" by (simp add: q_def)
  moreover have "0 \<le> (d + second - 1) mod second" "(d + second - 1) mod second < second"
    by (simp_all add: pos_mod_bound)
  ultimately have q: "q * second \<le> d + second - 1" "d \<le> q * second" by linarith+
  have pos: "1 \<le> q"
  proof (rule ccontr)
    assume "\<not> 1 \<le> q"
    then have "q * second \<le> 0" by (simp add: mult_le_0_iff less_imp_le)
    then show False using q(2) assms(1) by linarith
  qed
  have r: "retryAfterSeconds d = q"
    using assms pos by (simp add: retryAfterSeconds_def Let_def ceil_Seconds q_def)
  show "d \<le> retryAfterSeconds d * second" "1 \<le> retryAfterSeconds d" unfolding r by (fact q(2) pos)+
  show "(retryAfterSeconds d - 1) * second < d"
    unfolding r left_diff_distrib mult_1 using q(1) by linarith
qed



theorem limiter_bound_witness:
  "int (admitted_run (\<lambda>_. (1, second)) newFixedWindowRateLimiter [(0, ''a''), (1, ''a'')] ''a'' 0) \<le> 2 * 1"
  by (rule limiter_bound[where window = second]) (simp_all add: max_int64_def)

definition demo_limit :: effective_rate_limit where
  "demo_limit = \<lparr>el_enabled = True, el_limit = 1, el_window = 5 * second\<rparr>"

definition demo_limiter :: rate_limiter where
  "demo_limiter = \<lparr>rl_windows = [''token|ip'' \<mapsto> \<lparr>rw_resetAt = Some (5 * second), rw_count = 1\<rparr>],
     rl_nextSweep = Some (60 * second)\<rparr>"

definition demo_limiter_after :: rate_limiter where
  "demo_limiter_after = \<lparr>rl_windows = [''token|ip'' \<mapsto> \<lparr>rw_resetAt = Some (5 * second), rw_count = 2\<rparr>],
     rl_nextSweep = Some (60 * second)\<rparr>"

lemma demo_limited: "rateLimit ''token'' demo_limit ''ip'' 1 demo_limiter = (demo_limiter_after, TooManyRequests 5)"
proof -
  have "wrap64 2 = 2" by (rule wrap64_id) (simp_all add: min_int64_def max_int64_def)
  then have a: "allow demo_limiter 1 ''token|ip'' 1 (5 * second) = (demo_limiter_after, False, 5 * second - 1)"
    by (simp add: allow_def demo_limiter_def demo_limiter_after_def sweepExpired_def Before_def Let_def
        time_sub_def second_def max_int64_def min_int64_def)
  have "\<lceil>Seconds (5 * second - 1)\<rceil> = 5" by (subst ceil_Seconds) (simp_all add: second_def)
  then have "retryAfterSeconds (5 * second - 1) = 5" by (simp add: retryAfterSeconds_def second_def Let_def)
  then show ?thesis by (simp add: rateLimit_def demo_limit_def a)
qed


end
