(* ===== verification/Gin_Routes.thy ===== *)
theory Gin_Routes
  imports Server_Http Go_Paths
begin

text \<open>
  \<open>ginorion/routes.go\<close>: mounting the handlers of an authorization server on a Gin router.

  A router is its table of registered routes, the fallback handlers installed as middleware, whether
  it is a \<open>gin.Engine\<close>, and whether it lists its routes. Registering a route is Gin's and a
  parameter: it answers with the new table or the message it panics with. A panic is \<open>Inl\<close>.
\<close>

datatype auth_handler = TokenHandler | JWKSHandler | DiscoveryHandler | HealthHandler

record 's auth_routes =
  ar_auth :: "'s option"
  ar_tokenPath :: string
  ar_jwksPath :: string
  ar_discoveryPath :: string
  ar_healthPath :: string
  ar_readyPath :: string
  ar_readyExplicit :: bool

definition Auth :: "'s option \<Rightarrow> 's auth_routes option" where
  "Auth auth = Some \<lparr>ar_auth = auth, ar_tokenPath = route_Token, ar_jwksPath = route_JWKS,
     ar_discoveryPath = route_Discovery, ar_healthPath = route_Health, ar_readyPath = route_Ready,
     ar_readyExplicit = False\<rparr>"

definition ar_TokenPath :: "'s auth_routes option \<Rightarrow> string \<Rightarrow> 's auth_routes option" where
  "ar_TokenPath r path = map_option (\<lambda>r. if path \<noteq> [] then r\<lparr>ar_tokenPath := path\<rparr> else r) r"

definition ar_JWKSPath :: "'s auth_routes option \<Rightarrow> string \<Rightarrow> 's auth_routes option" where
  "ar_JWKSPath r path = map_option (\<lambda>r. if path \<noteq> [] then r\<lparr>ar_jwksPath := path\<rparr> else r) r"

definition ar_DiscoveryPath :: "'s auth_routes option \<Rightarrow> string \<Rightarrow> 's auth_routes option" where
  "ar_DiscoveryPath r path = map_option (\<lambda>r. if path \<noteq> [] then r\<lparr>ar_discoveryPath := path\<rparr> else r) r"

definition ar_HealthPath :: "'s auth_routes option \<Rightarrow> string \<Rightarrow> 's auth_routes option" where
  "ar_HealthPath r path = map_option (\<lambda>r. if path \<noteq> [] then r\<lparr>ar_healthPath := path\<rparr> else r) r"

definition ar_ReadyPath :: "'s auth_routes option \<Rightarrow> string \<Rightarrow> 's auth_routes option" where
  "ar_ReadyPath r path =
     map_option (\<lambda>r. if path \<noteq> [] then r\<lparr>ar_readyPath := path, ar_readyExplicit := True\<rparr> else r) r"

subsection \<open>The router\<close>

record 'h route =
  rt_method :: string
  rt_path :: string
  rt_handler :: 'h

record 'h router =
  gr_table :: "'h route list"
  gr_fallbacks :: "(string \<times> 'h) list"
  gr_engine :: bool
  gr_lists :: bool

type_synonym 'h register = "'h route list \<Rightarrow> 'h route \<Rightarrow> string + 'h route list"

definition add_route :: "'h register \<Rightarrow> string \<Rightarrow> string \<Rightarrow> 'h \<Rightarrow> 'h router \<Rightarrow> string + 'h router" where
  "add_route register method path h rs =
     (case register (gr_table rs) \<lparr>rt_method = method, rt_path = path, rt_handler = h\<rparr> of
        Inl panic \<Rightarrow> Inl panic
      | Inr table \<Rightarrow> Inr (rs\<lparr>gr_table := table\<rparr>))"

definition readiness_panic :: string where
  "readiness_panic = ''ginorion: readiness path must be a static absolute URL path''"

text \<open>\<open>None\<close> when it returns.\<close>

definition validateReadyPath :: "string \<Rightarrow> string option" where
  "validateReadyPath path =
     (let invalidRune = has_control_or_space path in
      if \<not> HasPrefix path ''/'' \<or> ContainsAny path '':*?#'' \<or> invalidRune then Some readiness_panic else None)"

text \<open>The loop over the pattern's segments: \<open>Some b\<close> when it returns \<open>b\<close>.\<close>

fun cover_loop :: "nat \<Rightarrow> string list \<Rightarrow> string list \<Rightarrow> bool option" where
  "cover_loop index [] targetParts = None"
| "cover_loop index (part # parts) targetParts =
     (if length targetParts \<le> index then Some False
      else if HasPrefix part ''*'' then Some True
      else if HasPrefix part '':'' then
        (if targetParts ! index = [] then Some False else cover_loop (index + 1) parts targetParts)
      else if part \<noteq> targetParts ! index then Some False
      else cover_loop (index + 1) parts targetParts)"

definition ginRouteCovers :: "string \<Rightarrow> string \<Rightarrow> bool" where
  "ginRouteCovers pattern target =
     (let patternParts = Split CHR ''/'' (TrimPrefix pattern ''/'');
          targetParts = Split CHR ''/'' (TrimPrefix target ''/'') in
      case cover_loop 0 patternParts targetParts of
        Some b \<Rightarrow> b
      | None \<Rightarrow> length patternParts = length targetParts)"

definition hasExistingGETRoute :: "'h router \<Rightarrow> string \<Rightarrow> bool" where
  "hasExistingGETRoute rs target0 =
     (if \<not> gr_lists rs then False
      else
        let target = ''/'' @ TrimPrefix target0 ''/'' in
        list_ex (\<lambda>route. rt_method route = ''GET'' \<and> ginRouteCovers (rt_path route) target) (gr_table rs))"

definition isGinRouteConflict :: "string \<Rightarrow> bool" where
  "isGinRouteConflict message \<longleftrightarrow>
     Contains message ''handlers are already registered for path'' \<or>
     Contains message ''conflicts with existing wildcard'' \<or>
     Contains message ''conflicts with existing path segment''"

definition mountCompatibleGET ::
  "'h register \<Rightarrow> 'h router \<Rightarrow> string \<Rightarrow> 'h \<Rightarrow> string + 'h router" where
  "mountCompatibleGET register rs path handler =
     (case validateReadyPath path of
        Some panic \<Rightarrow> Inl panic
      | None \<Rightarrow>
          if hasExistingGETRoute rs path then Inr rs
          else
            (case add_route register ''GET'' path handler rs of
               Inl recovered \<Rightarrow> if isGinRouteConflict recovered then Inr rs else Inl recovered
             | Inr rs \<Rightarrow> Inr rs))"

definition mountEngineFallbackGET :: "'h router \<Rightarrow> string \<Rightarrow> 'h \<Rightarrow> string + 'h router" where
  "mountEngineFallbackGET rs path handler =
     (case validateReadyPath path of
        Some panic \<Rightarrow> Inl panic
      | None \<Rightarrow> Inr (rs\<lparr>gr_fallbacks := gr_fallbacks rs @ [(path, handler)]\<rparr>))"

definition mount_ready :: "auth_handler register \<Rightarrow> 's auth_routes \<Rightarrow> auth_handler router \<Rightarrow> string + auth_handler router" where
  "mount_ready register r rs =
     (if ar_readyExplicit r then mountCompatibleGET register rs (ar_readyPath r) HealthHandler
      else if gr_engine rs then mountEngineFallbackGET rs (ar_readyPath r) HealthHandler
      else Inr rs)"

definition Mount :: "auth_handler register \<Rightarrow> 's auth_routes option \<Rightarrow> auth_handler router \<Rightarrow> string + auth_handler router" where
  "Mount register r0 rs =
     (case r0 of
        None \<Rightarrow> Inr rs
      | Some r \<Rightarrow>
          if ar_auth r = None then Inr rs
          else
            (case add_route register ''POST'' (ar_tokenPath r) TokenHandler rs of
               Inl panic \<Rightarrow> Inl panic
             | Inr rs \<Rightarrow>
            (case add_route register ''GET'' (ar_jwksPath r) JWKSHandler rs of
               Inl panic \<Rightarrow> Inl panic
             | Inr rs \<Rightarrow>
            (case add_route register ''GET'' (ar_discoveryPath r) DiscoveryHandler rs of
               Inl panic \<Rightarrow> Inl panic
             | Inr rs \<Rightarrow>
            (case add_route register ''GET'' (ar_healthPath r) HealthHandler rs of
               Inl panic \<Rightarrow> Inl panic
             | Inr rs \<Rightarrow> mount_ready register r rs)))))"

definition RegisterAuthRoutes ::
  "auth_handler register \<Rightarrow> auth_handler router \<Rightarrow> 's option \<Rightarrow> string + auth_handler router" where
  "RegisterAuthRoutes register rs auth = Mount register (Auth auth) rs"

text \<open>How a request is answered. \<open>lookup\<close> is Gin's router: the full path and handler of the route it
  picks. A fallback runs in front of every handler registered later and when no route was picked,
  and acts when the full path is empty.\<close>

fun fallback_for :: "string \<Rightarrow> string \<Rightarrow> string \<Rightarrow> (string \<times> 'h) list \<Rightarrow> 'h option" where
  "fallback_for method urlPath fullPath [] = None"
| "fallback_for method urlPath fullPath ((path, handler) # fs) =
     (if method = ''GET'' \<and> urlPath = path \<and> fullPath = [] then Some handler
      else fallback_for method urlPath fullPath fs)"

definition serve ::
  "('h route list \<Rightarrow> string \<Rightarrow> string \<Rightarrow> (string \<times> 'h) option) \<Rightarrow> 'h router \<Rightarrow> string \<Rightarrow> string \<Rightarrow> 'h option" where
  "serve lookup rs method urlPath =
     (case lookup (gr_table rs) method urlPath of
        Some (fullPath, handler) \<Rightarrow>
          (case fallback_for method urlPath fullPath (gr_fallbacks rs) of
             Some h \<Rightarrow> Some h
           | None \<Rightarrow> Some handler)
      | None \<Rightarrow> fallback_for method urlPath [] (gr_fallbacks rs))"

subsection \<open>Which targets a route covers\<close>

text \<open>A segment of a pattern against one of a target, and a pattern against a target: the segments
  before the first catch-all match one by one, and a catch-all takes at least one segment.\<close>

definition seg_matches :: "string \<Rightarrow> string \<Rightarrow> bool" where
  "seg_matches part seg \<longleftrightarrow> (if HasPrefix part '':'' then seg \<noteq> [] else seg = part)"

definition covers_path :: "string list \<Rightarrow> string list \<Rightarrow> bool" where
  "covers_path parts segs =
     (let pre = takeWhile (\<lambda>p. \<not> HasPrefix p ''*'') parts in
      list_all2 seg_matches pre (take (length pre) segs) \<and>
      (if length pre = length parts then length segs = length parts else length pre < length segs))"

lemma covers_path_Nil [simp]: "covers_path [] segs \<longleftrightarrow> segs = []"
  by (simp add: covers_path_def Let_def)

lemma covers_path_Cons_Nil [simp]: "\<not> covers_path (p # ps) []"
  by (auto simp: covers_path_def Let_def)

lemma covers_path_Cons [simp]:
  "covers_path (p # ps) (s # ss) \<longleftrightarrow> HasPrefix p ''*'' \<or> seg_matches p s \<and> covers_path ps ss"
  by (auto simp: covers_path_def Let_def)

lemma cover_loop_iff:
  "index \<le> length segs \<Longrightarrow>
   (case cover_loop index parts segs of Some b \<Rightarrow> b | None \<Rightarrow> index + length parts = length segs) \<longleftrightarrow>
   covers_path parts (drop index segs)"
proof (induction parts arbitrary: index)
  case (Cons part parts)
  show ?case
  proof (cases "index < length segs")
    case True
    then have "drop index segs = segs ! index # drop (Suc index) segs" by (rule Cons_nth_drop_Suc[symmetric])
    then show ?thesis using Cons.IH[of "Suc index"] True
      by (auto simp: seg_matches_def split: option.splits)
  qed (use Cons.prems in simp)
qed auto

text \<open>C27: The loop of \<open>ginRouteCovers\<close> decides Gin's pattern semantics: the slash-separated segments
  before a catch-all match one by one - a parameter any non-empty segment, a static segment itself -
  and then both end, or the catch-all takes at least one more segment.\<close>

theorem ginRouteCovers_decides:
  "ginRouteCovers pattern target \<longleftrightarrow>
     covers_path (Split CHR ''/'' (TrimPrefix pattern ''/'')) (Split CHR ''/'' (TrimPrefix target ''/''))"
  unfolding ginRouteCovers_def Let_def
  by (rule cover_loop_iff[of 0, unfolded add_0 drop_0, OF le0])

text \<open>A router that picks routes only among the registered ones that cover the path.\<close>

definition picks_covering ::
  "('h route list \<Rightarrow> string \<Rightarrow> string \<Rightarrow> (string \<times> 'h) option) \<Rightarrow> bool" where
  "picks_covering lookup \<longleftrightarrow>
     (\<forall>table method path full h. lookup table method path = Some (full, h) \<longrightarrow> full \<noteq> [] \<and>
        (\<exists>r\<in>set table. rt_method r = method \<and> rt_path r = full \<and> ginRouteCovers full path))"

lemma fallback_for_full: "fullPath \<noteq> [] \<Longrightarrow> fallback_for method urlPath fullPath fs = None"
  by (induction fs) auto


definition first_covering :: "'h route list \<Rightarrow> string \<Rightarrow> string \<Rightarrow> (string \<times> 'h) option" where
  "first_covering table method path =
     map_option (\<lambda>r. (rt_path r, rt_handler r))
       (find (\<lambda>r. rt_method r = method \<and> rt_path r \<noteq> [] \<and> ginRouteCovers (rt_path r) path) table)"

lemma first_covering_picks: "picks_covering first_covering"
  by (fastforce simp: picks_covering_def first_covering_def find_Some_iff)

definition demo_router :: "auth_handler router" where
  "demo_router = \<lparr>gr_table = [\<lparr>rt_method = ''GET'', rt_path = ''/:probe'', rt_handler = JWKSHandler\<rparr>],
     gr_fallbacks = [], gr_engine = True, gr_lists = True\<rparr>"


end
