(* ===== verification/Runtime_Config.thy ===== *)
theory Runtime_Config
  imports Server_Config Rate_Limit Go_Paths
begin

text \<open>
  The configuration of the auth application: \<open>internal/authapp/config.go\<close> (the wire format and its
  presence flags) and \<open>internal/authapp/runtime_config.go\<close> (normalization, validation, compilation).

  A pointer of the wire format is an option. \<open>time.ParseDuration\<close> is the parameter \<open>parse_duration\<close>;
  decoding JSON and YAML, reading files and the environment belong to the libraries and the system.
\<close>

record key_config =
  kc_KID :: string
  kc_PrivateKeyPath :: string
  kc_PrivateKeyPEMEnv :: string

record endpoint_rate_limit =
  er_Enabled :: "bool option"
  er_Limit :: int
  er_Window :: string
  er_limitSet :: bool
  er_windowSet :: bool

record rate_limits_config =
  rlc_Token :: endpoint_rate_limit
  rlc_Readyz :: endpoint_rate_limit

record audit_log_config =
  al_Enabled :: "bool option"

record auth_config =
  ac_Listen :: string
  ac_LogLevel :: string
  ac_Issuer :: string
  ac_BasePath :: string
  ac_AccessTokenTTL :: string
  ac_ActiveKID :: string
  ac_Key :: key_config
  ac_Keys :: "key_config list"
  ac_RateLimits :: rate_limits_config
  ac_AuditLogs :: audit_log_config
  ac_Clients :: "client list"
  ac_legacyKeySet :: bool
  ac_keysSet :: bool

definition zero_key_config :: key_config where
  "zero_key_config = \<lparr>kc_KID = [], kc_PrivateKeyPath = [], kc_PrivateKeyPEMEnv = []\<rparr>"

subsection \<open>The wire format\<close>

record wire_endpoint_rate_limit =
  we_Enabled :: "bool option"
  we_Limit :: "int option"
  we_Window :: "string option"

record wire_rate_limits =
  wr_Token :: wire_endpoint_rate_limit
  wr_Readyz :: wire_endpoint_rate_limit

record wire_config =
  wc_Listen :: string
  wc_LogLevel :: string
  wc_Issuer :: string
  wc_BasePath :: string
  wc_AccessTokenTTL :: string
  wc_ActiveKID :: string
  wc_Key :: "key_config option"
  wc_Keys :: "key_config list option"
  wc_RateLimits :: wire_rate_limits
  wc_AuditLogs :: audit_log_config
  wc_Clients :: "client list"

definition wire_endpoint :: "wire_endpoint_rate_limit \<Rightarrow> endpoint_rate_limit" where
  "wire_endpoint w =
     (let cfg = \<lparr>er_Enabled = we_Enabled w, er_Limit = 0, er_Window = [], er_limitSet = False,
                 er_windowSet = False\<rparr>;
          cfg = (case we_Limit w of None \<Rightarrow> cfg | Some l \<Rightarrow> cfg\<lparr>er_Limit := l, er_limitSet := True\<rparr>) in
      (case we_Window w of None \<Rightarrow> cfg | Some s \<Rightarrow> cfg\<lparr>er_Window := s, er_windowSet := True\<rparr>))"

definition wire_limits :: "wire_rate_limits \<Rightarrow> rate_limits_config" where
  "wire_limits w = \<lparr>rlc_Token = wire_endpoint (wr_Token w), rlc_Readyz = wire_endpoint (wr_Readyz w)\<rparr>"

definition runtimeConfig :: "wire_config \<Rightarrow> auth_config" where
  "runtimeConfig w =
     \<lparr>ac_Listen = wc_Listen w, ac_LogLevel = wc_LogLevel w, ac_Issuer = wc_Issuer w,
      ac_BasePath = wc_BasePath w, ac_AccessTokenTTL = wc_AccessTokenTTL w,
      ac_ActiveKID = wc_ActiveKID w,
      ac_Key = (case wc_Key w of None \<Rightarrow> zero_key_config | Some k \<Rightarrow> k),
      ac_Keys = (case wc_Keys w of None \<Rightarrow> [] | Some ks \<Rightarrow> ks),
      ac_RateLimits = wire_limits (wc_RateLimits w), ac_AuditLogs = wc_AuditLogs w, ac_Clients = wc_Clients w,
      ac_legacyKeySet = (wc_Key w \<noteq> None), ac_keysSet = (wc_Keys w \<noteq> None)\<rparr>"

definition ListenAddr :: "auth_config \<Rightarrow> string" where
  "ListenAddr c = (if TrimSpace (ac_Listen c) = [] then '':8080'' else TrimSpace (ac_Listen c))"

text \<open>\<open>home_join\<close> is \<open>filepath.Join\<close> with the user's home directory, if there is one.\<close>

definition expandPath :: "(string \<Rightarrow> string option) \<Rightarrow> string \<Rightarrow> string" where
  "expandPath home_join path =
     (if path = [] \<or> path = ''.'' then path
      else if HasPrefix path ''~/'' then
        (case home_join (TrimPrefix path ''~/'') of Some joined \<Rightarrow> joined | None \<Rightarrow> path)
      else path)"

subsection \<open>Normalization\<close>

definition normalizeKeyConfig :: "key_config \<Rightarrow> key_config" where
  "normalizeKeyConfig cfg =
     \<lparr>kc_KID = TrimSpace (kc_KID cfg), kc_PrivateKeyPath = TrimSpace (kc_PrivateKeyPath cfg),
      kc_PrivateKeyPEMEnv = TrimSpace (kc_PrivateKeyPEMEnv cfg)\<rparr>"

definition trim_window :: "endpoint_rate_limit \<Rightarrow> endpoint_rate_limit" where
  "trim_window l = l\<lparr>er_Window := TrimSpace (er_Window l)\<rparr>"

text \<open>The same change to the settings of both endpoints.\<close>

definition each_limit :: "(endpoint_rate_limit \<Rightarrow> endpoint_rate_limit) \<Rightarrow> rate_limits_config \<Rightarrow> rate_limits_config" where
  "each_limit f r = r\<lparr>rlc_Token := f (rlc_Token r), rlc_Readyz := f (rlc_Readyz r)\<rparr>"

lemma each_limit_simps [simp]:
  "rlc_Token (each_limit f r) = f (rlc_Token r)" "rlc_Readyz (each_limit f r) = f (rlc_Readyz r)"
  "each_limit f (each_limit g r) = each_limit (f \<circ> g) r"
  by (simp_all add: each_limit_def)

definition normalizeRuntimeConfig :: "auth_config \<Rightarrow> auth_config" where
  "normalizeRuntimeConfig cfg =
     cfg\<lparr>ac_Listen := TrimSpace (ac_Listen cfg), ac_LogLevel := TrimSpace (ac_LogLevel cfg),
         ac_Issuer := TrimRight (TrimSpace (ac_Issuer cfg)) CHR ''/'',
         ac_BasePath := TrimSpace (ac_BasePath cfg),
         ac_AccessTokenTTL := TrimSpace (ac_AccessTokenTTL cfg),
         ac_ActiveKID := TrimSpace (ac_ActiveKID cfg), ac_Key := normalizeKeyConfig (ac_Key cfg),
         ac_Keys := map normalizeKeyConfig (ac_Keys cfg),
         ac_Clients := map client_Normalize (ac_Clients cfg),
         ac_RateLimits := each_limit trim_window (ac_RateLimits cfg)\<rparr>"

subsection \<open>Validation\<close>

datatype 'p compile_error =
    AccessTokenTTLParse 'p | AccessTokenTTLNotPositive | AccessTokenTTLTooShort
  | UnsupportedLogLevel string | BasePathEmptySegment | BasePathNotStatic
  | LimitNotPositive | WindowEmpty | WindowParse 'p | WindowNotPositive
  | AuthIssuerRequired | AuthClientRequired | AuthClientInvalid nat client_error | AuthClientDuplicate nat string
  | KeyAndKeys | KeysEmpty | KeyKidRequired nat | KeyKidDuplicate string | ActiveKidUnknown string
  | KeySourceExclusive nat

fun validate_clients :: "nat \<Rightarrow> string set \<Rightarrow> client list \<Rightarrow> 'p compile_error option" where
  "validate_clients i seen [] = None"
| "validate_clients i seen (c # cs) =
     (case client_Validate c of
        Some err \<Rightarrow> Some (AuthClientInvalid i err)
      | None \<Rightarrow>
          if c_ID c \<in> seen then Some (AuthClientDuplicate i (c_ID c))
          else validate_clients (Suc i) (insert (c_ID c) seen) cs)"

definition validateClients :: "client list \<Rightarrow> 'p compile_error option" where
  "validateClients clients =
     (if length clients = 0 then Some AuthClientRequired else validate_clients 0 {} clients)"

text \<open>\<open>strings.ToLower\<close> as far as a comparison with ASCII text can tell: besides the ASCII letters,
  only U+0130 and U+212A (the Kelvin sign) have an ASCII letter as their lower case.\<close>

fun ToLower :: "string \<Rightarrow> string" where
  "ToLower [] = []"
| "ToLower (c # s) =
     (if prefix [CHR 0xC4, CHR 0xB0] (c # s) then CHR ''i'' # ToLower (drop 1 s)
      else if prefix [CHR 0xE2, CHR 0x84, CHR 0xAA] (c # s) then CHR ''k'' # ToLower (drop 2 s)
      else fold_byte c # ToLower s)"

datatype log_level = LevelDebug | LevelInfo | LevelWarn | LevelError

text \<open>A \<open>slog.Level\<close> is an integer, and levels are compared as such.\<close>

fun slog_value :: "log_level \<Rightarrow> int" where
  "slog_value LevelDebug = -4"
| "slog_value LevelInfo = 0"
| "slog_value LevelWarn = 4"
| "slog_value LevelError = 8"

instantiation log_level :: linorder
begin

definition less_eq_log_level :: "log_level \<Rightarrow> log_level \<Rightarrow> bool" where
  "less_eq_log_level a b \<longleftrightarrow> slog_value a \<le> slog_value b"

definition less_log_level :: "log_level \<Rightarrow> log_level \<Rightarrow> bool" where
  "less_log_level a b \<longleftrightarrow> slog_value a < slog_value b"

instance
proof
  show "a = b" if "a \<le> b" "b \<le> a" for a b :: log_level
    using that by (cases a; cases b) (simp_all add: less_eq_log_level_def)
qed (auto simp: less_eq_log_level_def less_log_level_def)

end

lemma le_LevelDebug [simp]: "level \<le> LevelDebug \<longleftrightarrow> level = LevelDebug"
  by (cases level) (simp_all add: less_eq_log_level_def)

definition ParseLogLevel :: "string \<Rightarrow> 'p compile_error + log_level" where
  "ParseLogLevel logLevel =
     (let l = TrimSpace (ToLower logLevel) in
      if l = [] \<or> l = ''info'' then Inr LevelInfo
      else if l = ''debug'' then Inr LevelDebug
      else if l = ''warn'' then Inr LevelWarn
      else if l = ''error'' then Inr LevelError
      else Inl (UnsupportedLogLevel logLevel))"

definition legacyKeyID :: "key_config \<Rightarrow> string" where
  "legacyKeyID cfg = (if TrimSpace (kc_KID cfg) \<noteq> [] then TrimSpace (kc_KID cfg) else ''orionis-ed25519-1'')"

text \<open>The loop over \<open>keys\<close>; the set of key ids when it ends.\<close>

fun scan_keys :: "nat \<Rightarrow> string set \<Rightarrow> key_config list \<Rightarrow> 'p compile_error + string set" where
  "scan_keys i seen [] = Inr seen"
| "scan_keys i seen (key # keys) =
     (let kid = TrimSpace (kc_KID key) in
      if kid = [] then Inl (KeyKidRequired i)
      else if kid \<in> seen then Inl (KeyKidDuplicate kid)
      else scan_keys (Suc i) (insert kid seen) keys)"

definition validateSigningConfig :: "auth_config \<Rightarrow> 'p compile_error option" where
  "validateSigningConfig cfg =
     (if ac_legacyKeySet cfg \<and> ac_keysSet cfg then Some KeyAndKeys
      else
        let activeKID = TrimSpace (ac_ActiveKID cfg) in
        if ac_keysSet cfg \<or> 0 < length (ac_Keys cfg) then
          if length (ac_Keys cfg) = 0 then Some KeysEmpty
          else
            (case scan_keys 0 {} (ac_Keys cfg) of
               Inl err \<Rightarrow> Some err
             | Inr seen \<Rightarrow>
                 if activeKID \<noteq> [] \<and> activeKID \<notin> seen then Some (ActiveKidUnknown activeKID) else None)
        else if activeKID \<noteq> [] \<and> activeKID \<noteq> legacyKeyID (ac_Key cfg)
        then Some (ActiveKidUnknown activeKID)
        else None)"

fun validate_key_sources :: "nat \<Rightarrow> key_config list \<Rightarrow> 'p compile_error option" where
  "validate_key_sources i [] = None"
| "validate_key_sources i (key # keys) =
     (if TrimSpace (kc_PrivateKeyPath key) \<noteq> [] \<and> TrimSpace (kc_PrivateKeyPEMEnv key) \<noteq> []
      then Some (KeySourceExclusive i) else validate_key_sources (Suc i) keys)"

definition validateKeySourceConfig :: "key_config list \<Rightarrow> 'p compile_error option" where
  "validateKeySourceConfig keys = validate_key_sources 0 keys"

definition effectiveKeyConfigs :: "auth_config \<Rightarrow> key_config list" where
  "effectiveKeyConfigs cfg =
     (if ac_keysSet cfg \<or> 0 < length (ac_Keys cfg) then ac_Keys cfg else [ac_Key cfg])"

type_synonym 'p parse_duration = "string \<Rightarrow> 'p + duration"

definition parseDurationDefault :: "'p parse_duration \<Rightarrow> string \<Rightarrow> duration \<Rightarrow> 'p + duration" where
  "parseDurationDefault parse_duration value fallback =
     (if TrimSpace value = [] then Inr fallback else parse_duration value)"

definition normalizeBasePath :: "string \<Rightarrow> 'p compile_error + string" where
  "normalizeBasePath value =
     (let basePath = TrimSpace value in
      if basePath = [] \<or> basePath = ''/'' then Inr []
      else
        let basePath = (if \<not> HasPrefix basePath ''/'' then ''/'' @ basePath else basePath);
            basePath = TrimRight basePath CHR ''/'' in
        if Contains basePath ''//'' then Inl BasePathEmptySegment
        else if ContainsAny basePath '':*?#'' \<or> has_control_or_space basePath then Inl BasePathNotStatic
        else Inr basePath)"

definition boolDefault :: "bool option \<Rightarrow> bool \<Rightarrow> bool" where
  "boolDefault value fallback = (case value of None \<Rightarrow> fallback | Some b \<Rightarrow> b)"

definition normalizeRateLimit ::
  "'p parse_duration \<Rightarrow> endpoint_rate_limit \<Rightarrow> int \<Rightarrow> duration \<Rightarrow> 'p compile_error + effective_rate_limit" where
  "normalizeRateLimit parse_duration cfg defaultLimit defaultWindow =
     (if (er_limitSet cfg \<or> er_Limit cfg \<noteq> 0) \<and> er_Limit cfg \<le> 0 then Inl LimitNotPositive
      else
        let limit = (if er_limitSet cfg \<or> er_Limit cfg \<noteq> 0 then er_Limit cfg else defaultLimit);
            result = (\<lambda>window. \<lparr>el_enabled = boolDefault (er_Enabled cfg) True, el_limit = limit,
              el_window = window\<rparr>) in
        if er_windowSet cfg \<or> er_Window cfg \<noteq> [] then
          if er_Window cfg = [] then Inl WindowEmpty
          else
            (case parse_duration (er_Window cfg) of
               Inl err \<Rightarrow> Inl (WindowParse err)
             | Inr parsed \<Rightarrow> if parsed \<le> 0 then Inl WindowNotPositive else Inr (result parsed))
        else Inr (result defaultWindow))"

subsection \<open>Compilation\<close>

definition defaultTokenRateLimit :: int where "defaultTokenRateLimit = 60"
definition defaultReadyzRateLimit :: int where "defaultReadyzRateLimit = 300"
definition defaultRateLimitWindow :: duration where "defaultRateLimitWindow = minute"
definition authDefaultAccessTokenTTL :: duration where "authDefaultAccessTokenTTL = 15 * minute"

record resolved_config =
  rc_raw :: auth_config
  rc_logLevel :: log_level
  rc_accessTokenTTL :: duration
  rc_basePath :: string
  rc_tokenLimit :: effective_rate_limit
  rc_readyzLimit :: effective_rate_limit
  rc_auditEnabled :: bool

definition forget_presence :: "endpoint_rate_limit \<Rightarrow> endpoint_rate_limit" where
  "forget_presence l = l\<lparr>er_limitSet := False, er_windowSet := False\<rparr>"

definition compileConfig :: "'p parse_duration \<Rightarrow> auth_config \<Rightarrow> 'p compile_error + resolved_config" where
  "compileConfig parse_duration cfg0 =
     (let cfg = normalizeRuntimeConfig cfg0 in
      case parseDurationDefault parse_duration (ac_AccessTokenTTL cfg) authDefaultAccessTokenTTL of
        Inl err \<Rightarrow> Inl (AccessTokenTTLParse err)
      | Inr accessTokenTTL \<Rightarrow>
      if accessTokenTTL \<le> 0 then Inl AccessTokenTTLNotPositive
      else if accessTokenTTL < second then Inl AccessTokenTTLTooShort
      else
      (case ParseLogLevel (ac_LogLevel cfg) of Inl err \<Rightarrow> Inl err | Inr logLevel \<Rightarrow>
      (case normalizeBasePath (ac_BasePath cfg) of Inl err \<Rightarrow> Inl err | Inr basePath \<Rightarrow>
      (case normalizeRateLimit parse_duration (rlc_Token (ac_RateLimits cfg)) defaultTokenRateLimit defaultRateLimitWindow of
        Inl err \<Rightarrow> Inl err | Inr tokenLimit \<Rightarrow>
      (case normalizeRateLimit parse_duration (rlc_Readyz (ac_RateLimits cfg)) defaultReadyzRateLimit defaultRateLimitWindow of
        Inl err \<Rightarrow> Inl err | Inr readyzLimit \<Rightarrow>
      (let cfg = cfg\<lparr>ac_BasePath := basePath\<rparr> in
      if ac_Issuer cfg = [] then Inl AuthIssuerRequired
      else
      (case validateClients (ac_Clients cfg) of Some err \<Rightarrow> Inl err | None \<Rightarrow>
      (case validateSigningConfig cfg of Some err \<Rightarrow> Inl err | None \<Rightarrow>
      (case validateKeySourceConfig (effectiveKeyConfigs cfg) of Some err \<Rightarrow> Inl err | None \<Rightarrow>
        Inr \<lparr>rc_raw = cfg\<lparr>ac_RateLimits := each_limit forget_presence (ac_RateLimits cfg)\<rparr>,
             rc_logLevel = logLevel, rc_accessTokenTTL = accessTokenTTL, rc_basePath = basePath,
             rc_tokenLimit = tokenLimit, rc_readyzLimit = readyzLimit,
             rc_auditEnabled = boolDefault (al_Enabled (ac_AuditLogs cfg)) True\<rparr>)))))))))"

subsection \<open>What compiles\<close>

lemma validate_clients_None:
  "(validate_clients i seen cs :: 'p compile_error option) = None \<longleftrightarrow>
     list_all client_ok cs \<and> distinct (map c_ID cs) \<and> (\<forall>c\<in>set cs. c_ID c \<notin> seen)"
  by (induction cs arbitrary: i seen) (auto simp: client_Validate_None dest: notin_imageD)

lemma validateClients_None:
  "(validateClients cs :: 'p compile_error option) = None \<longleftrightarrow>
     cs \<noteq> [] \<and> list_all client_ok cs \<and> distinct (map c_ID cs)"
  by (simp add: validateClients_def validate_clients_None)

lemma scan_keys_Inr:
  "(scan_keys i seen keys :: 'p compile_error + string set) = Inr kids \<longleftrightarrow>
     (\<forall>k\<in>set keys. TrimSpace (kc_KID k) \<noteq> [] \<and> TrimSpace (kc_KID k) \<notin> seen) \<and>
     distinct (map (\<lambda>k. TrimSpace (kc_KID k)) keys) \<and> kids = seen \<union> (\<lambda>k. TrimSpace (kc_KID k)) ` set keys"
proof (induction keys arbitrary: i seen)
  case (Cons k keys)
  show ?case by (simp add: Let_def Cons) (auto dest: notin_imageD)
qed auto

lemma validateSigningConfig_None:
  assumes "(validateSigningConfig cfg :: 'p compile_error option) = None"
  shows "distinct (map legacyKeyID (effectiveKeyConfigs cfg)) \<and> effectiveKeyConfigs cfg \<noteq> [] \<and>
    (TrimSpace (ac_ActiveKID cfg) \<noteq> [] \<longrightarrow>
       TrimSpace (ac_ActiveKID cfg) \<in> legacyKeyID ` set (effectiveKeyConfigs cfg))"
proof (cases "ac_keysSet cfg \<or> 0 < length (ac_Keys cfg)")
  case True
  then have keys: "effectiveKeyConfigs cfg = ac_Keys cfg" by (auto simp: effectiveKeyConfigs_def)
  obtain kids where kids: "(scan_keys 0 {} (ac_Keys cfg) :: 'p compile_error + string set) = Inr kids"
    "TrimSpace (ac_ActiveKID cfg) = [] \<or> TrimSpace (ac_ActiveKID cfg) \<in> kids" "ac_Keys cfg \<noteq> []"
    using assms True by (auto simp: validateSigningConfig_def Let_def split: if_splits sum.splits)
  have same: "legacyKeyID k = TrimSpace (kc_KID k)" if "k \<in> set (ac_Keys cfg)" for k
    using kids(1)[unfolded scan_keys_Inr] that by (simp add: legacyKeyID_def)
  then have "map legacyKeyID (ac_Keys cfg) = map (\<lambda>k. TrimSpace (kc_KID k)) (ac_Keys cfg)" by simp
  then show ?thesis
    using kids(1)[unfolded scan_keys_Inr] kids(2,3) unfolding keys
    by (metis (no_types, lifting) list.set_map sup_bot_left)
next
  case False
  then show ?thesis
    using assms by (auto simp: validateSigningConfig_def effectiveKeyConfigs_def Let_def split: if_splits)
qed

text \<open>A base path in normal form: empty, or absolute, without a trailing slash, an empty segment or a
  character with a meaning in routes.\<close>

definition base_path_ok :: "string \<Rightarrow> bool" where
  "base_path_ok p \<longleftrightarrow> p = [] \<or>
     HasPrefix p ''/'' \<and> last p \<noteq> CHR ''/'' \<and> \<not> Contains p ''//'' \<and> plain_path p"

lemma normalizeBasePath_ok:
  assumes "(normalizeBasePath v :: 'p compile_error + string) = Inr b"
  shows "base_path_ok b"
proof (cases "b = []")
  case False
  then obtain s where s: "HasPrefix s ''/''" "b = TrimRight s CHR ''/''"
      "\<not> Contains b ''//''" "plain_path b"
    using assms
    by (auto simp: normalizeBasePath_def plain_path_def Let_def HasPrefix_iff split: if_splits)
  obtain r where "s = b @ r" using TrimRight_split[where s = s and c = "CHR ''/''"] s(2) by blast
  then have "HasPrefix b ''/''" using s(1) False by (auto simp: HasPrefix_iff append_eq_Cons_conv)
  then show ?thesis using s TrimRight_last[of s "CHR ''/''"] False by (auto simp: base_path_ok_def)
qed (simp add: base_path_ok_def)

lemma normalizeBasePath_fix:
  assumes "base_path_ok b"
  shows "(normalizeBasePath b :: 'p compile_error + string) = Inr b"
proof (cases "b = []")
  case False
  then have b: "HasPrefix b ''/''" "last b \<noteq> CHR ''/''" "\<not> Contains b ''//''"
      "\<not> ContainsAny b '':*?#''" "\<not> has_control_or_space b"
    using assms by (auto simp: base_path_ok_def plain_path_def)
  moreover have "b \<noteq> ''/''" using b(2) by auto
  ultimately show ?thesis using False by (simp add: normalizeBasePath_def Let_def TrimRight_id)
qed (simp add: normalizeBasePath_def)

lemma base_path_TrimSpace: "base_path_ok b \<Longrightarrow> TrimSpace b = b"
  by (auto simp: base_path_ok_def plain_path_def)

lemma normalizeRateLimit_ok:
  assumes "normalizeRateLimit pd l d w = Inr e" "0 < d" "0 < w"
  shows "0 < el_limit e" "0 < el_window e"
  using assms by (auto simp: normalizeRateLimit_def Let_def split: if_splits sum.splits)

lemma normalizeRateLimit_forget:
  "normalizeRateLimit pd l d w = Inr e \<Longrightarrow> normalizeRateLimit pd (forget_presence l) d w = Inr e"
  by (auto simp: normalizeRateLimit_def forget_presence_def Let_def split: if_splits sum.splits)

text \<open>The compiled form of a normalized configuration.\<close>

definition resolved_of ::
  "auth_config \<Rightarrow> string \<Rightarrow> duration \<Rightarrow> log_level \<Rightarrow> effective_rate_limit \<Rightarrow> effective_rate_limit \<Rightarrow>
     resolved_config" where
  "resolved_of n bp ttl lvl tk rz =
     \<lparr>rc_raw = n\<lparr>ac_BasePath := bp, ac_RateLimits := each_limit forget_presence (ac_RateLimits n)\<rparr>,
      rc_logLevel = lvl, rc_accessTokenTTL = ttl, rc_basePath = bp, rc_tokenLimit = tk,
      rc_readyzLimit = rz, rc_auditEnabled = boolDefault (al_Enabled (ac_AuditLogs n)) True\<rparr>"

lemma signing_base_path [simp]:
  "validateSigningConfig (n\<lparr>ac_BasePath := bp\<rparr>) = validateSigningConfig n"
  "effectiveKeyConfigs (n\<lparr>ac_BasePath := bp\<rparr>) = effectiveKeyConfigs n"
  "validateSigningConfig (n\<lparr>ac_RateLimits := a\<rparr>) = validateSigningConfig n"
  "effectiveKeyConfigs (n\<lparr>ac_RateLimits := a\<rparr>) = effectiveKeyConfigs n"
  by (simp_all add: validateSigningConfig_def effectiveKeyConfigs_def Let_def cong: if_cong sum.case_cong)

definition compiles_to ::
  "'p parse_duration \<Rightarrow> auth_config \<Rightarrow> string \<Rightarrow> duration \<Rightarrow> log_level \<Rightarrow> effective_rate_limit \<Rightarrow>
     effective_rate_limit \<Rightarrow> bool" where
  "compiles_to pd n bp ttl lvl tk rz \<longleftrightarrow>
     parseDurationDefault pd (ac_AccessTokenTTL n) authDefaultAccessTokenTTL = Inr ttl \<and> second \<le> ttl \<and>
     (ParseLogLevel (ac_LogLevel n) :: 'p compile_error + log_level) = Inr lvl \<and>
     (normalizeBasePath (ac_BasePath n) :: 'p compile_error + string) = Inr bp \<and>
     normalizeRateLimit pd (rlc_Token (ac_RateLimits n)) defaultTokenRateLimit defaultRateLimitWindow = Inr tk \<and>
     normalizeRateLimit pd (rlc_Readyz (ac_RateLimits n)) defaultReadyzRateLimit defaultRateLimitWindow = Inr rz \<and>
     ac_Issuer n \<noteq> [] \<and> (validateClients (ac_Clients n) :: 'p compile_error option) = None \<and>
     (validateSigningConfig n :: 'p compile_error option) = None \<and>
     (validateKeySourceConfig (effectiveKeyConfigs n) :: 'p compile_error option) = None"

lemma compileConfig_Inr:
  "compileConfig pd cfg = Inr r \<longleftrightarrow> (\<exists>bp ttl lvl tk rz.
     compiles_to pd (normalizeRuntimeConfig cfg) bp ttl lvl tk rz \<and>
     r = resolved_of (normalizeRuntimeConfig cfg) bp ttl lvl tk rz)"
proof -
  define n where "n = normalizeRuntimeConfig cfg"
  have pos: "second \<le> ttl \<Longrightarrow> \<not> ttl \<le> 0" for ttl using second_pos by linarith
  show ?thesis
    unfolding compileConfig_def Let_def n_def[symmetric] compiles_to_def resolved_of_def
    by (auto simp: pos not_less split: sum.splits option.splits if_splits)
qed

subsection \<open>Properties\<close>

text \<open>What the rest of the application relies on.\<close>

definition compiled_ok :: "resolved_config \<Rightarrow> bool" where
  "compiled_ok r \<longleftrightarrow>
     second \<le> rc_accessTokenTTL r \<and> base_path_ok (rc_basePath r) \<and> ac_BasePath (rc_raw r) = rc_basePath r \<and>
     0 < el_limit (rc_tokenLimit r) \<and> 0 < el_window (rc_tokenLimit r) \<and>
     0 < el_limit (rc_readyzLimit r) \<and> 0 < el_window (rc_readyzLimit r) \<and>
     ac_Issuer (rc_raw r) \<noteq> [] \<and> last (ac_Issuer (rc_raw r)) \<noteq> CHR ''/'' \<and>
     ac_Clients (rc_raw r) \<noteq> [] \<and> list_all client_ok (ac_Clients (rc_raw r)) \<and>
     distinct (map c_ID (ac_Clients (rc_raw r))) \<and>
     (\<forall>c\<in>set (ac_Clients (rc_raw r)). client_Normalize c = c) \<and>
     effectiveKeyConfigs (rc_raw r) \<noteq> [] \<and> distinct (map legacyKeyID (effectiveKeyConfigs (rc_raw r))) \<and>
     (ac_ActiveKID (rc_raw r) \<noteq> [] \<longrightarrow>
        ac_ActiveKID (rc_raw r) \<in> legacyKeyID ` set (effectiveKeyConfigs (rc_raw r)))"

lemma compileConfig_ok: "compileConfig pd cfg = Inr r \<Longrightarrow> compiled_ok r"
proof -
  assume "compileConfig pd cfg = Inr r"
  then obtain bp ttl lvl tk rz where
    c: "compiles_to pd (normalizeRuntimeConfig cfg) bp ttl lvl tk rz" and
    r: "r = resolved_of (normalizeRuntimeConfig cfg) bp ttl lvl tk rz" unfolding compileConfig_Inr by blast
  define n where "n = normalizeRuntimeConfig cfg"
  note c = c[folded n_def, unfolded compiles_to_def] and r = r[folded n_def]
  have issuer: "last (ac_Issuer n) \<noteq> CHR ''/''"
    using c TrimRight_last[of "TrimSpace (ac_Issuer cfg)" "CHR ''/''"]
    by (auto simp: n_def normalizeRuntimeConfig_def)
  have norm: "\<forall>x\<in>set (ac_Clients n). client_Normalize x = x" "TrimSpace (ac_ActiveKID n) = ac_ActiveKID n"
    by (auto simp: n_def normalizeRuntimeConfig_def)
  have pos: "0 < defaultTokenRateLimit" "0 < defaultReadyzRateLimit" "0 < defaultRateLimitWindow"
    by (simp_all add: defaultTokenRateLimit_def defaultReadyzRateLimit_def defaultRateLimitWindow_def minute_def)
  have "validateSigningConfig n = (None :: 'a compile_error option)" using c by simp
  note keys = validateSigningConfig_None[OF this, unfolded norm(2)]
  have "ac_Clients n \<noteq> [] \<and> list_all client_ok (ac_Clients n) \<and> distinct (map c_ID (ac_Clients n))"
    using c validateClients_None[of "ac_Clients n"] by blast
  moreover have "base_path_ok bp" using c by (blast intro: normalizeBasePath_ok)
  moreover have "0 < el_limit tk" "0 < el_window tk" "0 < el_limit rz" "0 < el_window rz"
    using c pos normalizeRateLimit_ok by blast+
  ultimately show ?thesis
    using c issuer norm(1) keys by (simp add: r resolved_of_def compiled_ok_def)
qed

text \<open>C29: A configuration that compiles is fit to serve: the token lifetime is at least a second, both
  rate limits and windows are positive, the base path is empty or an absolute static path without a
  trailing slash or an empty segment, the issuer is set and has no trailing slash, the clients are
  valid, in normal form and with distinct ids, the signing keys have distinct ids, and a configured
  active key id is one of them.\<close>

theorem compiled_config_ok:
  assumes "compileConfig pd cfg = Inr r"
  shows "compiled_ok r"
  using assms by (rule compileConfig_ok)

lemma normalizeKeyConfig_idem [simp]: "normalizeKeyConfig (normalizeKeyConfig k) = normalizeKeyConfig k"
  by (simp add: normalizeKeyConfig_def)

lemma trim_window_simps [simp]:
  "trim_window (trim_window l) = trim_window l"
  "trim_window (forget_presence (trim_window l)) = forget_presence (trim_window l)"
  "forget_presence (forget_presence l) = forget_presence l"
  "trim_window \<circ> (forget_presence \<circ> trim_window) = forget_presence \<circ> trim_window"
  "forget_presence \<circ> forget_presence = forget_presence"
  by (simp_all add: trim_window_def forget_presence_def fun_eq_iff)

lemma compileConfig_stable:
  assumes "compileConfig pd cfg = Inr r" "TrimSpace (ac_Issuer (rc_raw r)) = ac_Issuer (rc_raw r)"
  shows "compileConfig pd (rc_raw r) = Inr r"
proof -
  obtain bp ttl lvl tk rz where
    c: "compiles_to pd (normalizeRuntimeConfig cfg) bp ttl lvl tk rz" and
    r: "r = resolved_of (normalizeRuntimeConfig cfg) bp ttl lvl tk rz"
    using assms(1) unfolding compileConfig_Inr by blast
  define n where "n = normalizeRuntimeConfig cfg"
  note c = c[folded n_def] and r = r[folded n_def]
  let ?raw = "n\<lparr>ac_BasePath := bp, ac_RateLimits := each_limit forget_presence (ac_RateLimits n)\<rparr>"
  have bp: "base_path_ok bp" using c normalizeBasePath_ok unfolding compiles_to_def by blast
  have issuer: "TrimSpace (ac_Issuer n) = ac_Issuer n" using assms(2) by (simp add: r resolved_of_def)
  have idem: "normalizeRuntimeConfig ?raw = ?raw"
    using issuer base_path_TrimSpace[OF bp]
    by (auto simp: n_def normalizeRuntimeConfig_def)
  have "compiles_to pd ?raw bp ttl lvl tk rz"
    using c bp by (auto simp: compiles_to_def normalizeRateLimit_forget normalizeBasePath_fix)
  moreover have "resolved_of ?raw bp ttl lvl tk rz = r" by (simp add: resolved_of_def r)
  ultimately show ?thesis
    unfolding compileConfig_Inr by (metis idem r resolved_of_def resolved_config.select_convs(1))
qed

text \<open>Loading a configuration and compiling what was loaded again, as the application does when it
  starts, changes nothing: the compiled configuration is a fixed point, provided its issuer has no
  white space at its ends.\<close>

theorem compile_is_stable:
  assumes "compileConfig pd cfg = Inr r" "TrimSpace (ac_Issuer (rc_raw r)) = ac_Issuer (rc_raw r)"
  shows "compileConfig pd (rc_raw r) = Inr r"
  using assms by (rule compileConfig_stable)

lemma compiled_log_level:
  assumes "compileConfig pd cfg = Inr r"
  shows "(ParseLogLevel (ac_LogLevel (rc_raw r)) :: 'p compile_error + log_level) = Inr (rc_logLevel r)"
  using assms
  by (auto simp: compileConfig_Inr resolved_of_def compiles_to_def ParseLogLevel_def Let_def split: if_splits)

text \<open>Without that proviso it can fail: the issuer \<open>/ /\<close> passes the first time and not the second.\<close>

lemma issuer_not_stable:
  "ac_Issuer (normalizeRuntimeConfig (cfg\<lparr>ac_Issuer := ''/ /''\<rparr>)) = ''/ ''"
  "ac_Issuer (normalizeRuntimeConfig (cfg\<lparr>ac_Issuer := ''/ ''\<rparr>)) = []"
proof -
  have "TrimRight (TrimSpace ''/ /'') CHR ''/'' = ''/ ''" "TrimRight (TrimSpace ''/ '') CHR ''/'' = ''''"
    by code_simp+
  then show "ac_Issuer (normalizeRuntimeConfig (cfg\<lparr>ac_Issuer := ''/ /''\<rparr>)) = ''/ ''"
    "ac_Issuer (normalizeRuntimeConfig (cfg\<lparr>ac_Issuer := ''/ ''\<rparr>)) = []"
    by (simp_all add: normalizeRuntimeConfig_def)
qed

definition demo_limit_config :: endpoint_rate_limit where
  "demo_limit_config = \<lparr>er_Enabled = None, er_Limit = 5, er_Window = [], er_limitSet = True, er_windowSet = False\<rparr>"

definition demo_auth_config :: auth_config where
  "demo_auth_config = \<lparr>ac_Listen = [], ac_LogLevel = '' Info'', ac_Issuer = ''https://auth/'',
     ac_BasePath = ''auth/'', ac_AccessTokenTTL = [], ac_ActiveKID = [], ac_Key = zero_key_config,
     ac_Keys = [], ac_RateLimits = \<lparr>rlc_Token = demo_limit_config, rlc_Readyz = demo_limit_config\<rparr>,
     ac_AuditLogs = \<lparr>al_Enabled = None\<rparr>, ac_Clients = [demo_client], ac_legacyKeySet = False, ac_keysSet = False\<rparr>"

definition demo_resolved :: resolved_config where
  "demo_resolved =
     (let l = \<lparr>el_enabled = True, el_limit = 5, el_window = minute\<rparr> in
      resolved_of (normalizeRuntimeConfig demo_auth_config) ''/auth'' (15 * minute) LevelInfo l l)"

lemma demo_compile: "compileConfig (\<lambda>_. Inl ()) demo_auth_config = Inr demo_resolved"
proof -
  let ?n = "normalizeRuntimeConfig demo_auth_config"
  have strings: "TrimSpace '' Info'' = ''Info''" "TrimSpace ''auth/'' = ''auth/''"
    "TrimRight (TrimSpace ''https://auth/'') CHR ''/'' = ''https://auth''"
    by code_simp+
  have lvl: "(ParseLogLevel ''Info'' :: unit compile_error + log_level) = Inr LevelInfo" by code_simp
  have path: "(normalizeBasePath ''auth/'' :: unit compile_error + string) = Inr ''/auth''" by code_simp
  have "client_Validate (client_Normalize demo_client) = None" by code_simp
  then have "client_ok (client_Normalize demo_client)" by (rule client_Validate_None[THEN iffD1])
  then have clients: "(validateClients [client_Normalize demo_client] :: unit compile_error option) = None"
    by (simp add: validateClients_None)
  have "compiles_to (\<lambda>_. Inl ()) ?n ''/auth'' (15 * minute) LevelInfo
      \<lparr>el_enabled = True, el_limit = 5, el_window = minute\<rparr> \<lparr>el_enabled = True, el_limit = 5, el_window = minute\<rparr>"
    using lvl path clients
    by (simp add: compiles_to_def normalizeRuntimeConfig_def demo_auth_config_def strings
        parseDurationDefault_def authDefaultAccessTokenTTL_def minute_def second_def
        normalizeRateLimit_def demo_limit_config_def each_limit_def trim_window_def defaultRateLimitWindow_def boolDefault_def
        validateSigningConfig_def effectiveKeyConfigs_def validateKeySourceConfig_def Let_def
        normalizeKeyConfig_def zero_key_config_def legacyKeyID_def)
  then show ?thesis unfolding compileConfig_Inr demo_resolved_def Let_def by blast
qed

theorem compiled_config_ok_witness: "compiled_ok demo_resolved"
  by (rule compiled_config_ok[OF demo_compile])

theorem compile_is_stable_witness:
  "compileConfig (\<lambda>_. Inl ()) (rc_raw demo_resolved) = Inr demo_resolved"
proof (rule compile_is_stable[OF demo_compile])
  have "TrimRight (TrimSpace ''https://auth/'') CHR ''/'' = ''https://auth''"
    "TrimSpace ''https://auth'' = ''https://auth''" by code_simp+
  then show "TrimSpace (ac_Issuer (rc_raw demo_resolved)) = ac_Issuer (rc_raw demo_resolved)"
    by (simp add: demo_resolved_def resolved_of_def Let_def normalizeRuntimeConfig_def demo_auth_config_def)
qed

end
