(* ===== verification/Auth_App.thy ===== *)
theory Auth_App
  imports Runtime_Config Gin_Routes
begin

text \<open>
  The auth application: \<open>internal/authapp/signing.go\<close> (loading the signing keys and building the
  server), \<open>internal/authapp/app.go\<close> (the runtime), the validation of key material in
  \<open>runtime_config.go\<close> and \<open>internal/authapp/routes.go\<close>.

  A signer loader works on the files: it may create a key file. It is a parameter of the runtime;
  \<open>LoadSigner\<close> is the application's own. The environment, the home directory, the file system, key
  generation and the key codecs are those of the standard library.
\<close>

record ('f, 'e) auth_env =
  ev_Getenv :: "string \<Rightarrow> string"
  ev_home_join :: "string \<Rightarrow> string option"
  ev_os :: "('f, 'e) file_system"
  ev_codec :: "'e pkcs"
  ev_generated :: "key_config \<Rightarrow> 'e + string"
  ev_jwt_sign :: "string \<Rightarrow> string \<Rightarrow> claims \<Rightarrow> string \<Rightarrow> 'e + string"
  ev_algs :: jwt_algs

subsection \<open>Loading signers\<close>

text \<open>An Ed25519 signer as the server sees it.\<close>

definition ed25519_as_signer :: "('f, 'e) auth_env \<Rightarrow> ed25519_signer \<Rightarrow> 'e signer_error signer" where
  "ed25519_as_signer env s =
     \<lparr>sg_KeyID = KeyID (Some s), sg_Algorithm = EdDSA (ev_algs env),
      sg_Sign = Sign (ev_jwt_sign env) (ev_algs env) (Some s),
      sg_PublicJWK = PublicJWK (ev_algs env) (Some s)\<rparr>"

datatype 'e load_error = SourceExclusive | EnvKeyEmpty string | SignerLoad "'e signer_error"

definition signer_result ::
  "('f, 'e) auth_env \<Rightarrow> 'e signer_error + ed25519_signer \<Rightarrow> 'e load_error + 'e signer_error signer option" where
  "signer_result env r =
     (case r of Inl err \<Rightarrow> Inl (SignerLoad err) | Inr s \<Rightarrow> Inr (Some (ed25519_as_signer env s)))"

definition LoadSigner ::
  "('f, 'e) auth_env \<Rightarrow> 'f \<Rightarrow> key_config \<Rightarrow> ('e load_error + 'e signer_error signer option) \<times> 'f" where
  "LoadSigner env files cfg =
     (let privateKeyPath = TrimSpace (kc_PrivateKeyPath cfg);
          privateKeyPEMEnv = TrimSpace (kc_PrivateKeyPEMEnv cfg) in
      if privateKeyPath \<noteq> [] \<and> privateKeyPEMEnv \<noteq> [] then (Inl SourceExclusive, files)
      else if privateKeyPEMEnv = [] then
        (let (r, files) = Ed25519Builder_Build (ev_codec env) (ev_os env) (ev_generated env cfg) files
               (Ed25519Builder_KID (Ed25519Builder_Path Ed25519 (expandPath (ev_home_join env) privateKeyPath))
                 (kc_KID cfg)) in
         (signer_result env r, files))
      else
        let raw = ev_Getenv env privateKeyPEMEnv in
        if TrimSpace raw = [] then (Inl (EnvKeyEmpty privateKeyPEMEnv), files)
        else (signer_result env (LoadEd25519SignerPEM (ev_codec env) raw (kc_KID cfg)), files))"

type_synonym ('f, 'l, 'e) signer_loader = "'f \<Rightarrow> key_config \<Rightarrow> ('l + 'e signer option) \<times> 'f"

datatype 'l signing_error =
    LoaderFailed 'l | NilSignerLoaded | DuplicateSigningKid string | ActiveKidNotLoaded string

fun load_keys ::
  "('f, 'l, 'e) signer_loader \<Rightarrow> string set \<Rightarrow> 'f \<Rightarrow> key_config list \<Rightarrow>
     ('l signing_error + 'e signer list \<times> string set) \<times> 'f" where
  "load_keys load seen files [] = (Inr ([], seen), files)"
| "load_keys load seen files (key # keys) =
     (case load files key of
        (Inl err, files) \<Rightarrow> (Inl (LoaderFailed err), files)
      | (Inr None, files) \<Rightarrow> (Inl NilSignerLoaded, files)
      | (Inr (Some signer), files) \<Rightarrow>
          let kid = TrimSpace (sg_KeyID signer) in
          if kid \<in> seen then (Inl (DuplicateSigningKid kid), files)
          else
            (case load_keys load (insert kid seen) files keys of
               (Inl err, files) \<Rightarrow> (Inl err, files)
             | (Inr (signers, seen), files) \<Rightarrow> (Inr (signer # signers, seen), files)))"

definition loadSigningKeys ::
  "('f, 'l, 'e) signer_loader \<Rightarrow> 'f \<Rightarrow> auth_config \<Rightarrow> ('l signing_error + 'e signer list) \<times> 'f" where
  "loadSigningKeys load files cfg =
     (case load_keys load {} files (effectiveKeyConfigs cfg) of
        (Inl err, files) \<Rightarrow> (Inl err, files)
      | (Inr (signers, seen), files) \<Rightarrow>
          if ac_ActiveKID cfg \<noteq> [] \<and> ac_ActiveKID cfg \<notin> seen
          then (Inl (ActiveKidNotLoaded (ac_ActiveKID cfg)), files)
          else (Inr signers, files))"

definition effectiveActiveKID :: "string \<Rightarrow> 'e signer option list \<Rightarrow> string" where
  "effectiveActiveKID activeKID signers =
     (if TrimSpace activeKID \<noteq> [] then TrimSpace activeKID
      else
        (case signers of
           [] \<Rightarrow> []
         | None # _ \<Rightarrow> []
         | Some s # _ \<Rightarrow> sg_KeyID s))"

subsection \<open>The server and the runtime\<close>

datatype 'l auth_build_error = SigningKeysFailed "'l signing_error" | ServerConfigInvalid config_error

definition auth_buildServer ::
  "'c \<Rightarrow> ('f, 'l, 'e) signer_loader \<Rightarrow> 'f \<Rightarrow> resolved_config \<Rightarrow>
     ('l auth_build_error + ('s, 'e, 'c) server \<times> 'e signer list) \<times> 'f" where
  "auth_buildServer time_Now load files cfg =
     (case loadSigningKeys load files (rc_raw cfg) of
        (Inl err, files) \<Rightarrow> (Inl (SigningKeysFailed err), files)
      | (Inr signers, files) \<Rightarrow>
          (case Build time_Now
             (b_Clients
               (b_ActiveKID
                 (b_Signers
                   (b_AccessTokenTTL (b_Issuer New (ac_Issuer (rc_raw cfg))) (rc_accessTokenTTL cfg))
                   (map Some signers))
                 (ac_ActiveKID (rc_raw cfg)))
               (ac_Clients (rc_raw cfg))) of
             Inl err \<Rightarrow> (Inl (ServerConfigInvalid err), files)
           | Inr auth \<Rightarrow> (Inr (auth, signers), files)))"

record ('s, 'e, 'c) auth_runtime =
  ar_cfg :: resolved_config
  ar_server :: "('s, 'e, 'c) server"
  ar_signers :: "'e signer list"

definition newRuntime ::
  "'c \<Rightarrow> ('f, 'l, 'e) signer_loader \<Rightarrow> 'f \<Rightarrow> resolved_config \<Rightarrow>
     ('l auth_build_error + ('s, 'e, 'c) auth_runtime) \<times> 'f" where
  "newRuntime time_Now load files resolved =
     (case auth_buildServer time_Now load files resolved of
        (Inl err, files) \<Rightarrow> (Inl err, files)
      | (Inr (auth, signers), files) \<Rightarrow>
          (Inr \<lparr>ar_cfg = resolved, ar_server = auth, ar_signers = signers\<rparr>, files))"

definition runtime_ActiveKID :: "('s, 'e, 'c) auth_runtime \<Rightarrow> string" where
  "runtime_ActiveKID r = effectiveActiveKID (ac_ActiveKID (rc_raw (ar_cfg r))) (map Some (ar_signers r))"

definition SignerCount :: "('s, 'e, 'c) auth_runtime \<Rightarrow> nat" where
  "SignerCount r = length (ar_signers r)"

datatype ('p, 'l) runtime_error =
    ConfigInvalid "'p compile_error" | RuntimeBuildFailed "'l auth_build_error"
  | LoaderRequired

definition newWithSignerLoader ::
  "'p parse_duration \<Rightarrow> 'c \<Rightarrow> ('f, 'l, 'e) signer_loader \<Rightarrow> 'f \<Rightarrow> auth_config \<Rightarrow>
     (('p, 'l) runtime_error + ('s, 'e, 'c) auth_runtime) \<times> 'f" where
  "newWithSignerLoader parse_duration time_Now load files cfg =
     (case compileConfig parse_duration cfg of
        Inl err \<Rightarrow> (Inl (ConfigInvalid err), files)
      | Inr resolved \<Rightarrow>
          (case newRuntime time_Now load files resolved of
             (Inl err, files) \<Rightarrow> (Inl (RuntimeBuildFailed err), files)
           | (Inr r, files) \<Rightarrow> (Inr r, files)))"

definition NewWithSignerLoader ::
  "'p parse_duration \<Rightarrow> 'c \<Rightarrow> ('f, 'l, 'e) signer_loader option \<Rightarrow> 'f \<Rightarrow> auth_config \<Rightarrow>
     (('p, 'l) runtime_error + ('s, 'e, 'c) auth_runtime) \<times> 'f" where
  "NewWithSignerLoader parse_duration time_Now loader files cfg =
     (case loader of
        None \<Rightarrow> (Inl LoaderRequired, files)
      | Some load \<Rightarrow> newWithSignerLoader parse_duration time_Now load files cfg)"

text \<open>The keys that exist must load; a key file that does not exist yet is created later.\<close>

datatype 'e material_error = EnvMaterialEmpty string | MaterialInvalid "'e signer_error" | MaterialUnreadable 'e

definition key_material_error :: "('f, 'e) auth_env \<Rightarrow> 'f \<Rightarrow> key_config \<Rightarrow> 'e material_error option" where
  "key_material_error env files key =
     (let path = kc_PrivateKeyPath key; envName = kc_PrivateKeyPEMEnv key;
          fromEnv =
            (if envName \<noteq> [] then
               (let raw = ev_Getenv env envName in
                if TrimSpace raw = [] then Some (EnvMaterialEmpty envName)
                else (case LoadEd25519SignerPEM (ev_codec env) raw (kc_KID key) of
                        Inl err \<Rightarrow> Some (MaterialInvalid err) | Inr _ \<Rightarrow> None))
             else None) in
      case fromEnv of
        Some err \<Rightarrow> Some err
      | None \<Rightarrow>
          if path \<noteq> [] then
            (case ReadFile (ev_os env) files (expandPath (ev_home_join env) path) of
               ReadOK raw \<Rightarrow>
                 (case LoadEd25519SignerPEM (ev_codec env) raw (kc_KID key) of
                    Inl err \<Rightarrow> Some (MaterialInvalid err) | Inr _ \<Rightarrow> None)
             | ReadNotExist \<Rightarrow> None
             | ReadError err \<Rightarrow> Some (MaterialUnreadable err))
          else None)"

fun validate_materials :: "('f, 'e) auth_env \<Rightarrow> 'f \<Rightarrow> nat \<Rightarrow> key_config list \<Rightarrow> (nat \<times> 'e material_error) option" where
  "validate_materials env files i [] = None"
| "validate_materials env files i (key # keys) =
     (case key_material_error env files key of
        Some err \<Rightarrow> Some (i, err)
      | None \<Rightarrow> validate_materials env files (Suc i) keys)"

definition validateKeyMaterials :: "('f, 'e) auth_env \<Rightarrow> 'f \<Rightarrow> key_config list \<Rightarrow> (nat \<times> 'e material_error) option" where
  "validateKeyMaterials env files keys = validate_materials env files 0 keys"

datatype ('p, 'e) resolve_error = CompileFailed "'p compile_error" | MaterialFailed nat "'e material_error"

definition resolveConfig ::
  "'p parse_duration \<Rightarrow> ('f, 'e) auth_env \<Rightarrow> 'f \<Rightarrow> auth_config \<Rightarrow> ('p, 'e) resolve_error + resolved_config" where
  "resolveConfig parse_duration env files cfg =
     (case compileConfig parse_duration cfg of
        Inl err \<Rightarrow> Inl (CompileFailed err)
      | Inr resolved \<Rightarrow>
          (case validateKeyMaterials env files (effectiveKeyConfigs (rc_raw resolved)) of
             Some (i, err) \<Rightarrow> Inl (MaterialFailed i err)
           | None \<Rightarrow> Inr resolved))"

datatype ('p, 'e) new_error =
    NotResolved "('p, 'e) resolve_error" | NotBuilt "'e load_error auth_build_error"

definition runtime_New ::
  "'p parse_duration \<Rightarrow> 'c \<Rightarrow> ('f, 'e) auth_env \<Rightarrow> 'f \<Rightarrow> auth_config \<Rightarrow>
     (('p, 'e) new_error + ('s, 'e signer_error, 'c) auth_runtime) \<times> 'f" where
  "runtime_New parse_duration time_Now env files cfg =
     (case resolveConfig parse_duration env files cfg of
        Inl err \<Rightarrow> (Inl (NotResolved err), files)
      | Inr resolved \<Rightarrow>
          (case newRuntime time_Now (LoadSigner env) files resolved of
             (Inl err, files) \<Rightarrow> (Inl (NotBuilt err), files)
           | (Inr r, files) \<Rightarrow> (Inr r, files)))"

subsection \<open>Routes\<close>

definition newRuntimeSecurity :: "resolved_config \<Rightarrow> runtime_security" where
  "newRuntimeSecurity cfg = \<lparr>rsec_limiter = newFixedWindowRateLimiter, rsec_auditEnabled = rc_auditEnabled cfg\<rparr>"

text \<open>The routes of the group at the base path: method, path in the group and handler chain.\<close>

definition mountAuthRoutes ::
  "resolved_config \<Rightarrow> string \<times> (string \<times> string \<times> auth_handler gin_handler list) list" where
  "mountAuthRoutes cfg =
     (let security = newRuntimeSecurity cfg in
     (rc_basePath cfg,
      [(''POST'', route_Token, handlers security ''token'' (rc_tokenLimit cfg) TokenHandler),
       (''GET'', route_JWKS, [Endpoint JWKSHandler]),
       (''GET'', route_Discovery, [Endpoint DiscoveryHandler]),
       (''GET'', route_Health, [Endpoint HealthHandler]),
       (''GET'', route_Ready, handlers security ''readyz'' (rc_readyzLimit cfg) HealthHandler)]))"

text \<open>An engine as far as mounting is concerned: the route groups it has.\<close>

type_synonym gin_engine = "(string \<times> (string \<times> string \<times> auth_handler gin_handler list) list) list"

definition runtime_Mount ::
  "('s, 'e, 'c) auth_runtime option \<Rightarrow> gin_engine option \<Rightarrow> gin_engine option" where
  "runtime_Mount r routes =
     (case (r, routes) of
        (Some r, Some engine) \<Rightarrow> Some (engine @ [mountAuthRoutes (ar_cfg r)])
      | _ \<Rightarrow> None)"

text \<open>Running a chain of handlers: the audit handler wraps the rest, the limiter may stop it.\<close>

fun run_chain ::
  "string \<Rightarrow> time \<Rightarrow> rate_limiter \<Rightarrow> 'h gin_handler list \<Rightarrow> rate_limiter \<times> (int + 'h option)" where
  "run_chain ip now l [] = (l, Inr None)"
| "run_chain ip now l (AuditHandler endpoint # hs) = run_chain ip now l hs"
| "run_chain ip now l (RateLimitHandler endpoint limit # hs) =
     (case rateLimit endpoint limit ip now l of
        (l, Next) \<Rightarrow> run_chain ip now l hs
      | (l, TooManyRequests secs) \<Rightarrow> (l, Inl secs))"
| "run_chain ip now l (Endpoint h # hs) = (l, Inr (Some h))"

subsection \<open>A valid configuration serves\<close>

lemma legacyKeyID_nonblank: "legacyKeyID key \<noteq> []"
  by (simp add: legacyKeyID_def)

lemma signers_ok_kids: "distinct (map signer_kid ss) \<Longrightarrow> \<forall>s\<in>set ss. signer_kid s \<noteq> [] \<Longrightarrow> signers_ok ss"
  by (simp add: signers_ok_def)

lemma foldl_b_Client: "foldl b_Client (Some cfg) cs = Some (cfg\<lparr>cf_Clients := cf_Clients cfg @ cs\<rparr>)"
  by (induction cs arbitrary: cfg) (simp_all add: b_Client_def)

lemma foldl_b_Signer:
  "foldl b_Signer (Some cfg) (map Some ss) = Some (cfg\<lparr>cf_Signers := cf_Signers cfg @ map Some ss\<rparr>)"
  by (induction ss arbitrary: cfg) (simp_all add: b_Signer_def)

text \<open>The configuration the server is built from.\<close>

definition server_config :: "resolved_config \<Rightarrow> 'e signer list \<Rightarrow> ('s, 'e, 'c) config" where
  "server_config r ss =
     zero_config\<lparr>cf_Issuer := trim_issuer (ac_Issuer (rc_raw r)),
       cf_AccessTokenTTL := rc_accessTokenTTL r, cf_Signers := map Some ss,
       cf_ActiveKID := TrimSpace (ac_ActiveKID (rc_raw r)), cf_Clients := ac_Clients (rc_raw r)\<rparr>"

lemma auth_builder:
  assumes "0 < rc_accessTokenTTL r"
  shows "b_Clients (b_ActiveKID (b_Signers (b_AccessTokenTTL (b_Issuer New (ac_Issuer (rc_raw r)))
      (rc_accessTokenTTL r)) (map Some ss)) (ac_ActiveKID (rc_raw r))) (ac_Clients (rc_raw r)) =
    Some (server_config r ss)"
  using assms
  by (simp add: b_Clients_def b_ActiveKID_def b_Signers_def b_AccessTokenTTL_def b_Issuer_def New_def
      foldl_b_Client foldl_b_Signer server_config_def zero_config_def)

lemma server_config_ok:
  assumes "compiled_ok r" "trim_issuer (trim_issuer (ac_Issuer (rc_raw r))) \<noteq> []"
    and "map signer_kid ss = map legacyKeyID (effectiveKeyConfigs (rc_raw r))"
    and "TrimSpace (ac_ActiveKID (rc_raw r)) = ac_ActiveKID (rc_raw r)"
  shows "config_ok (normalizeConfig tn (server_config r ss)) ss"
proof -
  let ?keys = "effectiveKeyConfigs (rc_raw r)"
  have kids: "signer_kid ` set ss = legacyKeyID ` set ?keys" using assms(3) by (metis list.set_map)
  have "\<forall>s\<in>set ss. signer_kid s \<noteq> []" using kids legacyKeyID_nonblank by (metis imageE image_eqI)
  then have "signers_ok ss" using assms(1,3) by (intro signers_ok_kids) (simp_all add: compiled_ok_def)
  moreover have "ss \<noteq> []" using assms(1,3) by (auto simp: compiled_ok_def)
  moreover have "map client_Normalize (ac_Clients (rc_raw r)) = ac_Clients (rc_raw r)"
    using assms(1) by (auto simp: compiled_ok_def intro: map_idI)
  ultimately show ?thesis
    using assms kids by (simp add: config_ok_def server_config_def zero_config_def compiled_ok_def)
qed

lemma active_of_kid:
  assumes "config_ok cfg ss" "TrimSpace (cf_ActiveKID cfg) = cf_ActiveKID cfg"
  shows "signer_kid (active_of cfg ss) = TrimSpace (effectiveActiveKID (cf_ActiveKID cfg) (map Some ss))"
proof (cases "cf_ActiveKID cfg = []")
  case True
  obtain s ts where "ss = s # ts" using assms(1) by (cases ss) (simp_all add: config_ok_def)
  then show ?thesis by (simp add: active_of_def effectiveActiveKID_def signer_kid_def True)
next
  case False
  then have "cf_ActiveKID cfg \<in> signer_kid ` set ss" using assms(1) by (simp add: config_ok_def)
  then obtain s where s: "signer_of (cf_ActiveKID cfg) ss = Some s" using signer_of_exists by blast
  then have "signer_kid s = cf_ActiveKID cfg" using signer_of_SomeD by blast
  then show ?thesis using s False assms(2) by (simp add: active_of_def effectiveActiveKID_def)
qed

lemma compiled_active_trimmed:
  "compileConfig pd cfg = Inr r \<Longrightarrow> TrimSpace (ac_ActiveKID (rc_raw r)) = ac_ActiveKID (rc_raw r)"
  by (auto simp: compileConfig_Inr resolved_of_def normalizeRuntimeConfig_def)

text \<open>What a runtime of a compiled configuration is like.\<close>

definition runtime_ok :: "resolved_config \<Rightarrow> ('s, 'e, 'c) auth_runtime \<Rightarrow> bool" where
  "runtime_ok r rt \<longleftrightarrow> ar_cfg rt = r \<and> server_ok (ar_server rt) \<and>
     map signer_kid (ar_signers rt) = map legacyKeyID (effectiveKeyConfigs (rc_raw r)) \<and>
     sv_signers (ar_server rt) = map Some (ar_signers rt) \<and>
     ts_accessTokenTTL (sv_tokens (ar_server rt)) = rc_accessTokenTTL r \<and>
     signer_kid (sv_activeSigner (ar_server rt)) = TrimSpace (runtime_ActiveKID rt)"

text \<open>What the runtime relies on in a signer loader: a signer it loads has the key id the configuration
  gives its key, and a success is never a \<open>nil\<close> signer. A configuration that compiles can then only fail
  to run because a key cannot be loaded.\<close>

locale signer_loader =
  fixes load :: "('f, 'l, 'e) signer_loader"
  assumes load_kid: "load files key = (Inr (Some s), files') \<Longrightarrow> TrimSpace (sg_KeyID s) = legacyKeyID key"
    and load_some: "load files key \<noteq> (Inr None, files')"
begin

lemma load_keys_cases:
  assumes "distinct (map legacyKeyID keys)" "\<forall>key\<in>set keys. legacyKeyID key \<notin> seen"
  shows "(\<exists>err files'. load_keys load seen files keys = (Inl (LoaderFailed err), files')) \<or>
    (\<exists>ss files'. load_keys load seen files keys = (Inr (ss, seen \<union> legacyKeyID ` set keys), files') \<and>
       map signer_kid ss = map legacyKeyID keys)"
  using assms
proof (induction keys arbitrary: seen files)
  case (Cons key keys)
  obtain r files1 where l: "load files key = (r, files1)" by (cases "load files key")
  show ?case
  proof (cases r)
    case (Inl err)
    then show ?thesis by (simp add: l)
  next
    case (Inr so)
    then obtain s where r: "r = Inr (Some s)" using load_some l by (cases so) auto
    have kid: "TrimSpace (sg_KeyID s) = legacyKeyID key" using load_kid l r by simp
    let ?seen = "insert (legacyKeyID key) seen"
    have fresh: "legacyKeyID key \<notin> seen" "\<forall>k\<in>set keys. legacyKeyID k \<notin> ?seen"
      using Cons.prems by (auto dest: notin_imageD)
    have step: "load_keys load seen files (key # keys) =
        (case load_keys load ?seen files1 keys of
           (Inl err, files) \<Rightarrow> (Inl err, files)
         | (Inr (signers, seen), files) \<Rightarrow> (Inr (s # signers, seen), files))"
      using fresh(1) by (simp add: l r kid Let_def)
    have "(\<exists>err files'. load_keys load ?seen files1 keys = (Inl (LoaderFailed err), files')) \<or>
        (\<exists>ss files'. load_keys load ?seen files1 keys = (Inr (ss, ?seen \<union> legacyKeyID ` set keys), files') \<and>
           map signer_kid ss = map legacyKeyID keys)"
      by (rule Cons.IH) (use fresh(2) Cons.prems(1) in simp_all)
    then show ?thesis
    proof (elim disjE exE conjE)
      fix err files' assume "load_keys load ?seen files1 keys = (Inl (LoaderFailed err), files')"
      then show ?thesis unfolding step by simp
    next
      fix ss files'
      assume ss: "load_keys load ?seen files1 keys = (Inr (ss, ?seen \<union> legacyKeyID ` set keys), files')"
        "map signer_kid ss = map legacyKeyID keys"
      then show ?thesis
        unfolding step using kid
        by (intro disjI2 exI[of _ "s # ss"] exI[of _ files']) (simp add: signer_kid_def[of s])
    qed
  qed
qed simp

lemma loadSigningKeys_cases:
  assumes "compiled_ok r"
  shows "(\<exists>err files'. loadSigningKeys load files (rc_raw r) = (Inl (LoaderFailed err), files')) \<or>
    (\<exists>ss files'. loadSigningKeys load files (rc_raw r) = (Inr ss, files') \<and>
       map signer_kid ss = map legacyKeyID (effectiveKeyConfigs (rc_raw r)))"
proof -
  let ?keys = "effectiveKeyConfigs (rc_raw r)"
  have "distinct (map legacyKeyID ?keys)" using assms by (simp add: compiled_ok_def)
  from load_keys_cases[OF this, of "{}" files]
  show ?thesis using assms by (auto simp: loadSigningKeys_def compiled_ok_def)
qed

lemma serves:
  assumes "compileConfig pd cfg = Inr r" "trim_issuer (trim_issuer (ac_Issuer (rc_raw r))) \<noteq> []"
    and "loadSigningKeys load files (rc_raw r) = (Inr ss, files')"
    and "map signer_kid ss = map legacyKeyID (effectiveKeyConfigs (rc_raw r))"
  shows "\<exists>(rt :: ('s, 'e, 'c) auth_runtime) files'.
    newWithSignerLoader pd time_Now load files cfg = (Inr rt, files') \<and> runtime_ok r rt"
proof -
  have ok: "compiled_ok r" by (rule compileConfig_ok[OF assms(1)])
  note ss = assms(3,4)
  have act: "TrimSpace (ac_ActiveKID (rc_raw r)) = ac_ActiveKID (rc_raw r)"
    by (rule compiled_active_trimmed[OF assms(1)])
  let ?n = "normalizeConfig time_Now (server_config r ss :: ('s, 'e, 'c) config)"
  let ?sv = "server_of ?n (active_of ?n ss)"
  have cok: "config_ok ?n ss" by (rule server_config_ok[OF ok assms(2) ss(2) act])
  have build: "buildServer time_Now (server_config r ss) = Inr ?sv" unfolding buildServer_Inr using cok by blast
  have ttl: "0 < rc_accessTokenTTL r" using ok second_pos unfolding compiled_ok_def by linarith
  have server: "auth_buildServer time_Now load files r = (Inr (?sv, ss), files')"
    by (simp add: auth_buildServer_def ss(1) auth_builder[OF ttl] Build_def build)
  have "signer_kid (active_of ?n ss) = TrimSpace (effectiveActiveKID (ac_ActiveKID (rc_raw r)) (map Some ss))"
    using active_of_kid[OF cok] act by (simp add: server_config_def)
  moreover have "sv_signers ?sv = map Some ss" "sv_activeSigner ?sv = active_of ?n ss"
    by (simp_all add: server_of_def server_config_def zero_config_def)
  moreover have "ts_accessTokenTTL (sv_tokens ?sv) = rc_accessTokenTTL r"
    using ttl by (simp add: server_of_def server_config_def normalizeConfig_def zero_config_def)
  moreover have "newWithSignerLoader pd time_Now load files cfg =
      (Inr \<lparr>ar_cfg = r, ar_server = ?sv, ar_signers = ss\<rparr>, files')"
    by (simp add: newWithSignerLoader_def newRuntime_def assms(1) server)
  ultimately show ?thesis
    using buildServer_ok[OF build] ss(2)
    by (intro exI[of _ "\<lparr>ar_cfg = r, ar_server = ?sv, ar_signers = ss\<rparr>"] exI[of _ files'])
      (simp add: runtime_ActiveKID_def runtime_ok_def)
qed

lemma serves_or_load_fails:
  assumes "compileConfig pd cfg = Inr r" "trim_issuer (trim_issuer (ac_Issuer (rc_raw r))) \<noteq> []"
  shows "(\<exists>err files'. newWithSignerLoader pd time_Now load files cfg =
      (Inl (RuntimeBuildFailed (SigningKeysFailed (LoaderFailed err))) ::
         ('p, 'l) runtime_error + ('s, 'e, 'c) auth_runtime, files')) \<or>
    (\<exists>(rt :: ('s, 'e, 'c) auth_runtime) files'.
      newWithSignerLoader pd time_Now load files cfg = (Inr rt, files') \<and> runtime_ok r rt)"
  using loadSigningKeys_cases[OF compileConfig_ok[OF assms(1)], of files]
proof (elim disjE exE conjE)
  fix err files' assume "loadSigningKeys load files (rc_raw r) = (Inl (LoaderFailed err), files')"
  then show ?thesis by (simp add: newWithSignerLoader_def newRuntime_def auth_buildServer_def assms(1))
next
  fix ss files' assume "loadSigningKeys load files (rc_raw r) = (Inr ss, files')"
    "map signer_kid ss = map legacyKeyID (effectiveKeyConfigs (rc_raw r))"
  from serves[OF assms this, where time_Now = time_Now] show ?thesis by (rule disjI2)
qed
end

text \<open>The application's own loader gives every key its configured id.\<close>

lemma expand_defaultKID: "defaultKID kid = (if TrimSpace kid \<noteq> [] then TrimSpace kid else ''orionis-ed25519-1'')"
  by (simp add: defaultKID_def defaultEd25519KID_def)

lemma ed25519SignerFromPKCS8_kid: "ed25519SignerFromPKCS8 codec der kid = Inr s \<Longrightarrow> es_Kid s = TrimSpace kid"
  by (auto simp: ed25519SignerFromPKCS8_def split: sum.splits parsed_key.splits)

lemma LoadEd25519SignerPEM_kid:
  "LoadEd25519SignerPEM codec raw kid = Inr s \<Longrightarrow> es_Kid s = defaultKID kid"
  by (auto simp: LoadEd25519SignerPEM_def split: option.splits dest: ed25519SignerFromPKCS8_kid)

lemma Ed25519Builder_kid:
  assumes "Ed25519Builder_Build codec os generated files (Ed25519Builder_KID (Ed25519Builder_Path Ed25519 path) kid) =
    (Inr s, files')"
  shows "es_Kid s = defaultKID kid"
proof -
  define k where k: "k = (if TrimSpace kid \<noteq> [] then TrimSpace kid else defaultEd25519KID)"
  have b: "Ed25519Builder_KID (Ed25519Builder_Path Ed25519 path) kid =
      Some \<lparr>eb_kid = k, eb_path = TrimSpace path\<rparr>"
    by (simp add: Ed25519Builder_KID_def Ed25519Builder_Path_def Ed25519_def k)
  have "k = defaultKID kid" by (simp add: k defaultKID_def)
  then have "defaultKID k = defaultKID kid" by simp
  then show ?thesis using assms LoadOrCreate_kid unfolding b Ed25519Builder_Build_def by fastforce
qed

lemma LoadSigner_kid:
  assumes "LoadSigner env files key = (Inr (Some s), files')"
  shows "TrimSpace (sg_KeyID s) = legacyKeyID key"
proof -
  have kid: "legacyKeyID key = defaultKID (kc_KID key)" by (simp add: legacyKeyID_def expand_defaultKID)
  have "\<exists>e. s = ed25519_as_signer env e \<and> es_Kid e = defaultKID (kc_KID key)"
    using assms
    by (auto simp: LoadSigner_def signer_result_def Let_def split: if_splits sum.splits prod.splits
        dest: Ed25519Builder_kid LoadEd25519SignerPEM_kid)
  then show ?thesis by (auto simp: ed25519_as_signer_def KeyID_def kid)
qed

interpretation ed25519: signer_loader "LoadSigner env" for env
proof
  show "TrimSpace (sg_KeyID s) = legacyKeyID key" if "LoadSigner env files key = (Inr (Some s), files')"
    for files key s files'
    using that by (rule LoadSigner_kid)
  show "LoadSigner env files key \<noteq> (Inr None, files')" for files key files'
    by (auto simp: LoadSigner_def signer_result_def Let_def split: if_splits sum.splits prod.splits)
qed

text \<open>The start of the application (\<open>New\<close>) validates the key material first.\<close>

lemma runtime_New_cases:
  fixes time_Now :: 'c and env :: "('f, 'e) auth_env"
  assumes "compileConfig pd cfg = Inr r" "trim_issuer (trim_issuer (ac_Issuer (rc_raw r))) \<noteq> []"
  shows "(\<exists>i err. runtime_New pd time_Now env files cfg = (Inl (NotResolved (MaterialFailed i err)) ::
      ('p, 'e) new_error + ('s, 'e signer_error, 'c) auth_runtime, files)) \<or>
    (\<exists>err files'. runtime_New pd time_Now env files cfg =
      (Inl (NotBuilt (SigningKeysFailed (LoaderFailed err))) ::
         ('p, 'e) new_error + ('s, 'e signer_error, 'c) auth_runtime, files')) \<or>
    (\<exists>(rt :: ('s, 'e signer_error, 'c) auth_runtime) files'.
      runtime_New pd time_Now env files cfg = (Inr rt, files') \<and> runtime_ok r rt)"
proof (cases "validateKeyMaterials env files (effectiveKeyConfigs (rc_raw r))")
  case (Some e)
  then show ?thesis by (cases e) (simp add: runtime_New_def resolveConfig_def assms(1))
next
  case None
  then show ?thesis
    using ed25519.serves_or_load_fails[OF assms, of time_Now env files, where 's = 's]
    by (auto simp: runtime_New_def resolveConfig_def newWithSignerLoader_def assms(1)
        split: prod.splits sum.splits)
qed

text \<open>Whatever compiles also runs: with the application's own signer loader, the start of a compiled
  configuration either fails because a signing key cannot be loaded, or gives a runtime whose server
  satisfies the server's invariant, has exactly the configured keys as signers, issues tokens with the
  configured lifetime, and signs with the key whose id the runtime reports as the active one - provided
  the issuer is not made of slashes and white space only.\<close>

theorem compiled_config_serves:
  fixes time_Now :: 'c and env :: "('f, 'e) auth_env" and pd :: "'p parse_duration"
  assumes "compileConfig pd cfg = Inr r" "trim_issuer (trim_issuer (ac_Issuer (rc_raw r))) \<noteq> []"
  shows "(\<exists>err files'. newWithSignerLoader pd time_Now (LoadSigner env) files cfg =
      (Inl (RuntimeBuildFailed (SigningKeysFailed (LoaderFailed err))) ::
         ('p, 'e load_error) runtime_error + ('s, 'e signer_error, 'c) auth_runtime, files')) \<or>
    (\<exists>(rt :: ('s, 'e signer_error, 'c) auth_runtime) files'.
      newWithSignerLoader pd time_Now (LoadSigner env) files cfg = (Inr rt, files') \<and> runtime_ok r rt)"
  by (rule ed25519.serves_or_load_fails[OF assms])

text \<open>The token endpoint behind its handler chain: with the limit of the configuration enabled, a
  request reaches the token handler exactly when the limiter admits its key, the endpoint's name and
  the remote address, and is answered with \<open>Retry-After\<close> otherwise; the readiness limit has keys of
  its own; the other endpoints are never limited.\<close>

lemma mounted_routes_limited:
  assumes "el_enabled (rc_tokenLimit cfg)"
  shows "\<exists>token_chain. (''POST'', route_Token, token_chain) \<in> set (snd (mountAuthRoutes cfg)) \<and>
    run_chain ip now l token_chain =
      (case rateLimit ''token'' (rc_tokenLimit cfg) ip now l of
         (l', Next) \<Rightarrow> (l', Inr (Some TokenHandler))
       | (l', TooManyRequests secs) \<Rightarrow> (l', Inl secs)) \<and>
    (\<forall>(method, path, chain) \<in> set (snd (mountAuthRoutes cfg)).
       path \<notin> {route_Token, route_Ready} \<longrightarrow> (\<exists>h. run_chain ip now l chain = (l, Inr (Some h))))"
  using assms
  by (auto simp: mountAuthRoutes_def Let_def handlers_def split: prod.splits limited.splits)

text \<open>An environment without variables or files, where a key is made up in memory.\<close>

definition demo_env :: "(string \<rightharpoonup> string, unit) auth_env" where
  "demo_env = \<lparr>ev_Getenv = (\<lambda>_. []), ev_home_join = (\<lambda>_. None), ev_os = demo_os, ev_codec = demo_codec,
     ev_generated = (\<lambda>_. Inr (replicate 64 CHR ''k'')), ev_jwt_sign = (\<lambda>_ _ _ _. Inr []), ev_algs = demo_algs\<rparr>"

theorem compiled_config_serves_witness:
  "\<exists>(rt :: (unit, unit signer_error, unit) auth_runtime) files'.
    newWithSignerLoader (\<lambda>_. Inl ()) () (LoadSigner demo_env) Map.empty demo_auth_config = (Inr rt, files') \<and>
    runtime_ok demo_resolved rt"
proof -
  have issuer: "TrimRight (TrimSpace ''https://auth/'') CHR ''/'' = ''https://auth''"
    "trim_issuer (trim_issuer ''https://auth'') = ''https://auth''" by code_simp+
  have keys: "effectiveKeyConfigs (rc_raw demo_resolved) = [zero_key_config]"
    "ac_ActiveKID (rc_raw demo_resolved) = []"
    by (simp_all add: demo_resolved_def resolved_of_def Let_def normalizeRuntimeConfig_def demo_auth_config_def
        effectiveKeyConfigs_def normalizeKeyConfig_def zero_key_config_def)
  have "fst (LoadSigner demo_env Map.empty zero_key_config) =
      Inr (Some (ed25519_as_signer demo_env \<lparr>es_Kid = defaultEd25519KID, es_PrivateKey = replicate 64 CHR ''k''\<rparr>))"
  proof -
    have "TrimSpace defaultEd25519KID = defaultEd25519KID" unfolding defaultEd25519KID_def by code_simp
    then show ?thesis
      by (simp add: LoadSigner_def zero_key_config_def expandPath_def Ed25519_def Ed25519Builder_Path_def
          Ed25519Builder_KID_def Ed25519Builder_Build_def LoadOrCreateEd25519Signer_def
          GenerateEd25519Signer_def demo_env_def signer_result_def Let_def defaultKID_def)
  qed
  then have "loadSigningKeys (LoadSigner demo_env) Map.empty (rc_raw demo_resolved) \<noteq> (Inl err, files')" for err files'
    by (auto simp: loadSigningKeys_def keys Let_def split: prod.splits)
  then have no: "newWithSignerLoader (\<lambda>_. Inl ()) () (LoadSigner demo_env) Map.empty demo_auth_config \<noteq>
      (Inl (RuntimeBuildFailed (SigningKeysFailed err)) ::
        (unit, unit load_error) runtime_error + (unit, unit signer_error, unit) auth_runtime, files')" for err files'
    by (auto simp: newWithSignerLoader_def demo_compile newRuntime_def auth_buildServer_def
        split: prod.splits sum.splits)
  have "trim_issuer (trim_issuer (ac_Issuer (rc_raw demo_resolved))) \<noteq> []"
    by (simp add: demo_resolved_def resolved_of_def Let_def normalizeRuntimeConfig_def demo_auth_config_def issuer)
  from compiled_config_serves[OF demo_compile this, of "()" demo_env Map.empty] no show ?thesis by blast
qed

end
