(* ===== verification/End_To_End.thy ===== *)
theory End_To_End
  imports Auth_App Server_Http Gin_Guard
begin

text \<open>
  From the token endpoint to the guarded handler: a server that signs with Ed25519 keys publishes its
  key set, a resource server decodes that set into a key provider and verifies the tokens the server
  issues. This theory composes \<open>server/http.go\<close>, \<open>server/token_service.go\<close>, \<open>jwk/ed25519.go\<close>,
  \<open>jwk/static.go\<close>, \<open>verifier.go\<close> and \<open>ginorion/builder.go\<close>.

  Signing and parsing are the JWT library's. What it documents about a token it signed is
  \<open>signing_laws\<close>, over the same view of tokens as \<open>jwt_laws\<close>: the token is a compact serialization
  that carries the header and the claims it was made of and verifies under the public key. Claims
  travel as JSON, so the law speaks of claims that JSON represents exactly.
\<close>

definition wire_date :: "time option \<Rightarrow> bool" where
  "wire_date d = (case d of None \<Rightarrow> True | Some t \<Rightarrow> t mod second = 0 \<and> 0 \<le> t \<and> t < 2 ^ 53 * second)"

definition wire_safe :: "claims \<Rightarrow> bool" where
  "wire_safe cl \<longleftrightarrow> ascii (cl_Issuer cl) \<and> ascii (cl_Subject cl) \<and> list_all ascii (cl_Audience cl) \<and>
     wire_date (cl_ExpiresAt cl) \<and> wire_date (cl_NotBefore cl) \<and> wire_date (cl_IssuedAt cl) \<and>
     ascii (cl_ID cl) \<and> ascii (cl_ClientID cl) \<and> ascii (cl_Scope cl) \<and> ascii (cl_TokenUse cl)"

text \<open>\<open>key_pair\<close>: the 64-byte private keys that key generation and PKCS#8 parsing return.\<close>

definition signing_laws :: "(string \<Rightarrow> bool) \<Rightarrow> jwt_view \<Rightarrow> ('f, 'e) auth_env \<Rightarrow> bool" where
  "signing_laws key_pair J env \<longleftrightarrow> (\<forall>priv. key_pair priv \<longrightarrow> length priv = 64) \<and>
     (\<forall>kid cl priv token. key_pair priv \<and> ascii kid \<and> wire_safe cl \<and>
        ev_jwt_sign env (EdDSA (ev_algs env)) kid cl priv = Inr token \<longrightarrow>
        token \<noteq> [] \<and> ascii token \<and> space_free token \<and> jv_kid J token = Some kid \<and>
        jv_alg J token = EdDSA (ev_algs env) \<and> jv_claims J token = Some cl \<and>
        jv_signature J token (EdDSA (ev_algs env)) (Ed25519PublicKey (PrivateKey_Public priv)))"

lemma truncates_wire_date:
  assumes "truncates numeric_date" "0 \<le> t" "t < 2 ^ 53 * second"
  shows "wire_date (Some (numeric_date t))"
proof -
  have pos: "0 < second" by (simp add: second_def)
  have "(t - t mod second) mod second = 0" by (simp add: minus_mod_eq_mult_div)
  moreover have "t mod second \<le> t" "0 \<le> t mod second"
    using assms(2) pos by (simp_all add: zmod_le_nonneg_dividend)
  ultimately have "(t - t mod second) mod second = 0 \<and> 0 \<le> t - t mod second \<and>
      t - t mod second < 2 ^ 53 * second"
    using assms(3) by linarith
  moreover have "numeric_date t = t - t mod second" using assms(1) unfolding truncates_def by blast
  ultimately show ?thesis unfolding wire_date_def option.case by argo
qed

lemma new_claims_wire_safe:
  assumes "truncates numeric_date" "0 \<le> now" "0 \<le> ts_accessTokenTTL s"
    and "now + ts_accessTokenTTL s < 2 ^ 53 * second"
    and "ascii (ts_issuer s)" "ascii (c_ID c)" "ascii aud" "ascii (ScopeString scopes)"
  shows "wire_safe (new_claims numeric_date s now (RawURL_EncodeToString bytes) c aud scopes)"
  using assms truncates_wire_date[OF assms(1)] RawURL_EncodeToString_ascii[of bytes]
  by (simp add: wire_safe_def new_claims_def time_add_def TokenUseAccess_def)

subsection \<open>The published keys\<close>

text \<open>The signers of a server that uses Ed25519 keys only, as the auth application does.\<close>

definition ed25519_signers :: "(string \<Rightarrow> bool) \<Rightarrow> ('f, 'e) auth_env \<Rightarrow> ed25519_signer list \<Rightarrow>
    'e signer_error signer option list \<Rightarrow> bool" where
  "ed25519_signers key_pair env es signers \<longleftrightarrow>
     signers = map (\<lambda>e. Some (ed25519_as_signer env e)) es \<and>
     (\<forall>e\<in>set es. key_pair (es_PrivateKey e) \<and> ascii (es_Kid e) \<and> TrimSpace (es_Kid e) = es_Kid e)"

lemma ed25519_kid [simp]: "signer_kid (ed25519_as_signer env e) = TrimSpace (es_Kid e)"
  by (simp add: signer_kid_def ed25519_as_signer_def KeyID_def)

lemma ed25519_signers_ok:
  assumes "ed25519_signers key_pair env es (sv_signers sv)" "server_ok sv"
  shows "es \<noteq> []" "distinct (map es_Kid es)" "e \<in> set es \<Longrightarrow> TrimSpace (es_Kid e) = es_Kid e \<and> es_Kid e \<noteq> []"
proof -
  have es: "sv_signers sv = map (\<lambda>e. Some (ed25519_as_signer env e)) es"
    "\<And>e. e \<in> set es \<Longrightarrow> TrimSpace (es_Kid e) = es_Kid e"
    using assms(1) by (auto simp: ed25519_signers_def)
  from assms(2) obtain ss where ss: "sv_signers sv = map Some ss" "signers_ok ss" "ss \<noteq> []"
    unfolding server_ok_def by force
  have "map Some ss = map Some (map (ed25519_as_signer env) es)" using ss(1) es(1) by (simp add: comp_def)
  then have ss_es: "ss = map (ed25519_as_signer env) es" by (metis list.inj_map_strong option.inject)
  have kids: "map signer_kid ss = map es_Kid es" using es(2) by (simp add: ss_es)
  show "es \<noteq> []" using ss(3) ss_es by auto
  show "distinct (map es_Kid es)" using ss(2) kids unfolding signers_ok_def by simp
  show "TrimSpace (es_Kid e) = es_Kid e \<and> es_Kid e \<noteq> []" if "e \<in> set es"
    using ss(2) es(2)[OF that] that unfolding signers_ok_def ss_es by auto
qed

lemma published_keys:
  assumes "ed25519_signers key_pair env es (sv_signers sv)" "server_ok sv"
    and "\<And>priv. key_pair priv \<Longrightarrow> length priv = 64"
    and "ht_body (JWKSHTTP sv r) = JWKSBody jwks"
  shows "\<exists>keys. NewStaticProvider (ev_algs env) jwks = Inr keys \<and>
    (\<forall>e\<in>set es. keys (es_Kid e) = Some \<lparr>dk_publicKey = Ed25519PublicKey (drop 32 (es_PrivateKey e)),
       dk_declaredAlg = EdDSA (ev_algs env)\<rparr>)"
proof -
  let ?A = "ev_algs env"
  let ?jwk = "\<lambda>e. PublicJWK ?A (Some e)"
  note ok = ed25519_signers_ok[OF assms(1,2)]
  have es: "sv_signers sv = map (\<lambda>e. Some (ed25519_as_signer env e)) es"
    "\<And>e. e \<in> set es \<Longrightarrow> length (es_PrivateKey e) = 64"
    using assms(1,3) by (auto simp: ed25519_signers_def)
  have jwks: "jwks = map ?jwk es"
    using assms(4) by (simp add: JWKSHTTP_def es(1) ed25519_as_signer_def comp_def split: if_splits)
  have key: "item_ok ?A (?jwk e)" "k_Kid (?jwk e) = es_Kid e"
    "decoded_of (?jwk e) = \<lparr>dk_publicKey = Ed25519PublicKey (drop 32 (es_PrivateKey e)),
       dk_declaredAlg = EdDSA ?A\<rparr>" if "e \<in> set es" for e
    using published_key[of e ?A] es(2)[OF that] ok(3)[OF that] by simp_all
  have "map k_Kid jwks = map es_Kid es" unfolding jwks using key(2) by simp
  moreover have "list_all (item_ok ?A) jwks" "jwks \<noteq> []"
    using key(1) ok(1) by (simp_all add: jwks list_all_iff)
  ultimately have "decodeSet ?A jwks = Inr (decoded_map jwks)" using ok(2) by (simp add: decodeSet_Inr)
  moreover have "decoded_map jwks (es_Kid e) = Some (decoded_of (?jwk e))" if "e \<in> set es" for e
    unfolding decoded_map_def jwks
    by (rule map_of_is_SomeI) (use that key(2) ok(2) in \<open>auto simp: comp_def cong: map_cong\<close>)
  ultimately show ?thesis using key(3) by (intro exI[of _ "decoded_map jwks"]) simp
qed

subsection \<open>The issued tokens\<close>

text \<open>What a resource server reads out of a token the service issued.\<close>

definition reads_as ::
  "jwt_view \<Rightarrow> ('f, 'e) auth_env \<Rightarrow> ed25519_signer \<Rightarrow> string \<Rightarrow> claims \<Rightarrow> bool" where
  "reads_as J env e token cl \<longleftrightarrow> token \<noteq> [] \<and> ascii token \<and> space_free token \<and> jv_kid J token = Some (es_Kid e) \<and>
     jv_alg J token = EdDSA (ev_algs env) \<and> jv_claims J token = Some cl \<and>
     jv_signature J token (EdDSA (ev_algs env)) (Ed25519PublicKey (drop 32 (es_PrivateKey e)))"

lemma signed_token_reads:
  assumes "signing_laws key_pair J env" "ed25519_signers key_pair env es signers" "Some s \<in> set signers"
    and "wire_safe cl" "sg_Sign s cl = Inr token"
  shows "\<exists>e\<in>set es. reads_as J env e token cl"
proof -
  from assms(2,3) obtain e where e: "e \<in> set es" "s = ed25519_as_signer env e" "key_pair (es_PrivateKey e)"
    "ascii (es_Kid e)" by (auto simp: ed25519_signers_def)
  have "ev_jwt_sign env (EdDSA (ev_algs env)) (es_Kid e) cl (es_PrivateKey e) = Inr token"
    using assms(5) by (auto simp: e(2) ed25519_as_signer_def Sign_def split: if_splits sum.splits)
  with assms(1,4) e show ?thesis
    unfolding signing_laws_def reads_as_def PrivateKey_Public_def by blast
qed

text \<open>The strings that a token carries from its configuration and its request.\<close>

definition plain_request :: "('s, 'e) token_service \<Rightarrow> token_request \<Rightarrow> token_response \<Rightarrow> bool" where
  "plain_request s request resp \<longleftrightarrow> ascii (ts_issuer s) \<and> ascii (rq_clientID request) \<and>
     ascii (rq_audience request) \<and> ascii (tr_Scope resp)"

definition in_era :: "('s, 'e) token_service \<Rightarrow> time \<Rightarrow> bool" where
  "in_era s now \<longleftrightarrow> 0 \<le> now \<and> now + ts_accessTokenTTL s < 2 ^ 53 * second"

definition claims_of_issue ::
  "(time \<Rightarrow> time) \<Rightarrow> ('s, 'e) token_service \<Rightarrow> time \<Rightarrow> token_request \<Rightarrow> token_response \<Rightarrow> claims \<Rightarrow> bool" where
  "claims_of_issue numeric_date s now request resp cl \<longleftrightarrow> cl_Issuer cl = ts_issuer s \<and>
     cl_Subject cl = rq_clientID request \<and> cl_ClientID cl = rq_clientID request \<and>
     cl_Audience cl = [rq_audience request] \<and>
     cl_ExpiresAt cl = Some (numeric_date (now + ts_accessTokenTTL s)) \<and>
     cl_NotBefore cl = Some (numeric_date now) \<and> cl_IssuedAt cl = Some (numeric_date now) \<and>
     cl_Scope cl = tr_Scope resp \<and> cl_TokenUse cl = TokenUseAccess"

context client_store
begin

lemma issued_claims:
  assumes "inv (ts_store s)" "issue sha256 numeric_date find s now random request = Inr resp"
    and "truncates numeric_date" "0 \<le> ts_accessTokenTTL s" "in_era s now" "plain_request s request resp"
    and "TrimSpace (rq_clientID request) = rq_clientID request"
  shows "\<exists>cl. wire_safe cl \<and> claims_of_issue numeric_date s now request resp cl \<and>
    rq_clientID request \<noteq> [] \<and> sg_Sign (ts_signer s) cl = Inr (tr_AccessToken resp)"
proof -
  from assms(2) obtain c issued where i:
    "authenticate sha256 find (ts_store s) (rq_clientID request) (rq_clientSecret request) = Inr c"
    "issueAccessToken numeric_date s now random c (rq_audience request) issued = Inr resp"
    unfolding issue_Inr by blast
  from i(1) obtain d where d: "find (ts_store s) (rq_clientID request) = Inr d" "c = client_Normalize d"
    unfolding authenticate_Inr by blast
  from found[OF assms(1) d(1)] have c: "c_ID c = rq_clientID request" "rq_clientID request \<noteq> []"
    using assms(7) unfolding d(2) by auto
  from i(2) obtain bytes where sign:
    "sg_Sign (ts_signer s) (new_claims numeric_date s now (RawURL_EncodeToString bytes) c
       (rq_audience request) issued) = Inr (tr_AccessToken resp)" "tr_Scope resp = ScopeString issued"
    unfolding issueAccessToken_Inr by auto
  let ?cl = "new_claims numeric_date s now (RawURL_EncodeToString bytes) c (rq_audience request) issued"
  have "wire_safe ?cl"
    by (rule new_claims_wire_safe)
      (use assms(3-6) c(1) sign(2) in \<open>simp_all add: in_era_def plain_request_def\<close>)
  moreover have "claims_of_issue numeric_date s now request resp ?cl"
    using c(1) sign(2) by (simp add: claims_of_issue_def new_claims_def time_add_def)
  ultimately show ?thesis using c(2) sign(1) by blast
qed

end

subsection \<open>Verification\<close>

lemma VerifierFor_simps:
  "VerifierFor A iss aud (Some p) =
     Some \<lparr>v_issuer = TrimRight (TrimSpace iss) (CHR ''/''), v_audience = TrimSpace aud, v_provider = Some p,
       v_leeway = 30 * second, v_validAlgs = DefaultAlgorithms A, v_requireUse = TokenUseAccess\<rparr>"
  by (simp add: VerifierFor_def NewVerifier_def v_Issuer_def v_Audience_def v_KeyProvider_def)

text \<open>A verifier with the issuer, the audience and the keys of a token accepts it until it expires.\<close>

lemma issued_token_acceptable:
  assumes "reads_as J env e token cl" "claims_of_issue numeric_date s t0 request resp cl"
    and "prov (es_Kid e) (EdDSA (ev_algs env)) = Inr (Ed25519PublicKey (drop 32 (es_PrivateKey e)))"
    and "trim_issuer (ts_issuer s) = ts_issuer s" "TrimSpace (rq_audience request) = rq_audience request"
    and "rq_clientID request \<noteq> []" "TrimSpace (es_Kid e) \<noteq> []" "truncates numeric_date" "t0 \<le> now"
    and "VerifierFor (ev_algs env) (ts_issuer s) (rq_audience request) (Some prov) = Some v"
  shows "acceptable J (ev_algs env) now v token cl' \<longleftrightarrow>
    cl' = cl \<and> now < numeric_date (t0 + ts_accessTokenTTL s) + 30 * second"
proof -
  have v: "v = \<lparr>v_issuer = ts_issuer s, v_audience = rq_audience request,
      v_provider = Some prov,
      v_leeway = 30 * second, v_validAlgs = DefaultAlgorithms (ev_algs env), v_requireUse = TokenUseAccess\<rparr>"
    using assms(10) unfolding VerifierFor_simps assms(5) trim_issuer_def[symmetric] assms(4) by simp
  have pos: "0 < second" by (simp add: second_def)
  have nbf: "numeric_date t0 - 30 * second \<le> now"
    using assms(8,9) pos unfolding truncates_def by (smt (verit) pos_mod_sign)
  have max: "max 0 (30 * second) = 30 * second" using pos by simp
  note r = assms(1)[unfolded reads_as_def] and cl = assms(2)[unfolded claims_of_issue_def]
  have tok: "TrimSpace token \<noteq> []" using r by simp
  have algs: "EdDSA (ev_algs env) \<in> set (valid_algs (ev_algs env) v)"
    by (simp add: v valid_algs_def DefaultAlgorithms_def)
  show ?thesis
    using r cl assms(3) tok algs assms(6,7) nbf pos
    by (auto simp: acceptable_def v max TokenUseAccess_def)
qed

definition guard_over ::
  "jwt_algs \<Rightarrow> string \<Rightarrow> string \<Rightarrow> (string \<Rightarrow> string \<Rightarrow> 'q + public_key) \<Rightarrow> string list \<Rightarrow> ('q, 'j) guard" where
  "guard_over A issuer audience prov required = newGuard (VerifierFor A issuer audience (Some prov)) required [] None"

definition default_guard ::
  "jwt_algs \<Rightarrow> string \<Rightarrow> string \<Rightarrow> key_map \<Rightarrow> string list \<Rightarrow> ('k key_error, 'j) guard" where
  "default_guard A issuer audience keys required = guard_over A issuer audience (StaticProvider_Key keys) required"

text \<open>A guard over that verifier lets the request with the token through exactly until the token expires,
  when the scopes of the token cover what the guard requires.\<close>

lemma issued_token_guard:
  fixes parse :: "('q, 'j) jwt_parser"
  assumes "jwt_laws J parse" "reads_as J env e (tr_AccessToken resp) cl"
    and "claims_of_issue numeric_date s t0 request resp cl"
    and "prov (es_Kid e) (EdDSA (ev_algs env)) = Inr (Ed25519PublicKey (drop 32 (es_PrivateKey e)))"
    and "trim_issuer (ts_issuer s) = ts_issuer s" "TrimSpace (rq_audience request) = rq_audience request"
    and "rq_clientID request \<noteq> []" "TrimSpace (es_Kid e) \<noteq> []" "truncates numeric_date" "t0 \<le> now"
    and "\<not> cx_next c" "cx_authorization c = ''Bearer '' @ tr_AccessToken resp"
    and "R = Require parse (ev_algs env) now
      (guard_over (ev_algs env) (ts_issuer s) (rq_audience request) prov required) [] c"
  shows "(cx_next R \<longleftrightarrow> now < numeric_date (t0 + ts_accessTokenTTL s) + 30 * second \<and>
      (\<forall>scope\<in>set (NormalizeScopes required). \<exists>granted\<in>set (Fields (tr_Scope resp)). ScopeCovers granted scope)) \<and>
    (cx_next R \<longrightarrow> Claims R = Some cl)"
proof -
  let ?A = "ev_algs env"
  let ?v = "VerifierFor ?A (ts_issuer s) (rq_audience request) (Some prov)"
  let ?g = "guard_over ?A (ts_issuer s) (rq_audience request) prov required :: ('q, 'j) guard"
  let ?cfg = "\<lparr>gc_Verifier = ?v, gc_RequiredScopes = NormalizeScopes required,
      gc_ClaimsKey = g_claimsKey ?g, gc_ErrorHandler = Some defaultErrorHandler\<rparr>"
  have R: "R = middlewareFromConfig parse ?A now ?cfg c"
    by (simp add: assms(13) Require_def guard_over_def firstScopes_def newGuard_def)
  obtain v where v: "?v = Some v" by (simp add: VerifierFor_simps)
  have accept: "Verify parse ?A now ?v (tr_AccessToken resp) = Inr vt \<longleftrightarrow>
      vt_Raw vt = tr_AccessToken resp \<and> vt_Claims vt = cl \<and>
      now < numeric_date (t0 + ts_accessTokenTTL s) + 30 * second" for vt
    unfolding v Verify_Inr[OF assms(1)] issued_token_acceptable[OF assms(2-10) v] ..
  have bearer: "(BearerToken (cx_authorization c) :: 'j token_error + string) = Inr (tr_AccessToken resp)"
    unfolding assms(12) by (rule BearerToken_roundtrip) (use assms(2) in \<open>simp_all add: reads_as_def\<close>)
  have passes: "passes parse ?A now ?v (NormalizeScopes required) (cx_authorization c) cl' \<longleftrightarrow>
      cl' = cl \<and> now < numeric_date (t0 + ts_accessTokenTTL s) + 30 * second \<and> HasAllScopes (Some cl) required" for cl'
    unfolding passes_def bearer
    by (auto simp: accept intro: exI[of _ "\<lparr>vt_Raw = tr_AccessToken resp, vt_Claims = cl\<rparr>"])
  have "cx_next R \<longleftrightarrow> now < numeric_date (t0 + ts_accessTokenTTL s) + 30 * second \<and> HasAllScopes (Some cl) required"
    using middleware_next[of ?cfg defaultErrorHandler c parse ?A now] assms(11)
    by (simp add: R defaultErrorHandler_ok passes)
  moreover have "Claims R = Some cl" if "passes parse ?A now ?v (NormalizeScopes required) (cx_authorization c) cl"
    unfolding R Claims_def using middleware_passes[of parse ?A now ?cfg c cl] that by simp
  ultimately show ?thesis
    using assms(3) by (auto simp: passes HasAllScopes_iff HasScope_iff claims_of_issue_def)
qed

subsection \<open>From issue to access\<close>

text \<open>A server that issues and publishes: built, with a store of its own and Ed25519 keys.\<close>

definition issuing_server ::
  "(string \<Rightarrow> bool) \<Rightarrow> jwt_view \<Rightarrow> ('f, 'e) auth_env \<Rightarrow> (time \<Rightarrow> time) \<Rightarrow> ed25519_signer list \<Rightarrow>
     ('s, 'e signer_error, 'c) server \<Rightarrow> bool" where
  "issuing_server key_pair J env numeric_date es sv \<longleftrightarrow> server_ok sv \<and> memory_only (ts_store (sv_tokens sv)) \<and>
     ed25519_signers key_pair env es (sv_signers sv) \<and> signing_laws key_pair J env \<and> truncates numeric_date \<and>
     trim_issuer (sv_issuer sv) = sv_issuer sv"

text \<open>A key provider serves a key set when it finds every key of it under the key's own algorithm.\<close>

definition serves :: "(string \<Rightarrow> string \<Rightarrow> 'q + public_key) \<Rightarrow> key_map \<Rightarrow> bool" where
  "serves prov keys \<longleftrightarrow> (\<forall>kid d. keys kid = Some d \<longrightarrow> prov kid (dk_declaredAlg d) = Inr (dk_publicKey d))"

lemma StaticProvider_serves: "serves (StaticProvider_Key keys) keys"
  by (simp add: serves_def StaticProvider_Key_def forAlgorithm_def)

text \<open>A token that opens guards: over any provider that serves the keys, a guard lets the token through until
  a certain time, exactly when its scopes cover what the guard requires, and the handler reads its claims.\<close>

definition opens_guards ::
  "('q, 'j) jwt_parser \<Rightarrow> jwt_algs \<Rightarrow> string \<Rightarrow> string \<Rightarrow> token_response \<Rightarrow> time \<Rightarrow> time \<Rightarrow> key_map \<Rightarrow> claims \<Rightarrow> bool" where
  "opens_guards parse A issuer audience resp since until keys cl \<longleftrightarrow>
     (\<forall>prov now required c R. serves prov keys \<and> since \<le> now \<and> \<not> cx_next c \<and>
        cx_authorization c = ''Bearer '' @ tr_AccessToken resp \<and>
        R = Require parse A now (guard_over A issuer audience prov required) [] c \<longrightarrow>
      (cx_next R \<longleftrightarrow> now < until \<and>
         (\<forall>scope\<in>set (NormalizeScopes required).
            \<exists>granted\<in>set (Fields (tr_Scope resp)). ScopeCovers granted scope)) \<and>
      (cx_next R \<longrightarrow> Claims R = Some cl))"

lemma opens_guardsD:
  fixes required :: "string list"
  assumes "opens_guards parse A issuer audience resp since until keys cl"
    and "serves prov keys" "since \<le> now" "\<not> cx_next c" "cx_authorization c = ''Bearer '' @ tr_AccessToken resp"
  defines "R \<equiv> Require parse A now (guard_over A issuer audience prov required) [] c"
  shows "cx_next R \<longleftrightarrow> now < until \<and> (\<forall>scope\<in>set (NormalizeScopes required).
      \<exists>granted\<in>set (Fields (tr_Scope resp)). ScopeCovers granted scope)"
    and "cx_next R \<longrightarrow> Claims R = Some cl"
  using assms(1)[unfolded opens_guards_def, rule_format, of prov now c R required] assms(2-) by blast+

lemma built_issuing_server:
  assumes "buildServer tn cfg = Inr sv" "cf_Store cfg = None" "ed25519_signers key_pair env es (sv_signers sv)"
    and "signing_laws key_pair J env" "truncates numeric_date" "trim_issuer (sv_issuer sv) = sv_issuer sv"
  shows "issuing_server key_pair J env numeric_date es sv"
proof -
  have "memory_only (ts_store (sv_tokens sv))"
    using assms(1,2)
    by (auto simp: buildServer_Inr server_of_def memory_only_def store_ok_NewMemoryClientStore)
  then show ?thesis using buildServer_ok[OF assms(1)] assms(3-6) unfolding issuing_server_def by blast
qed

lemma issued_token_reads:
  fixes fc :: "'s \<Rightarrow> string \<Rightarrow> 'e signer_error store_error + client"
  assumes "issuing_server key_pair J env numeric_date es sv"
    and "issue sha256 numeric_date (find_any fc) (sv_tokens sv) t0 random request = Inr resp"
    and "TrimSpace (rq_clientID request) = rq_clientID request"
    and "in_era (sv_tokens sv) t0" "plain_request (sv_tokens sv) request resp"
  shows "\<exists>cl. \<exists>e\<in>set es. claims_of_issue numeric_date (sv_tokens sv) t0 request resp cl \<and>
    rq_clientID request \<noteq> [] \<and> reads_as J env e (tr_AccessToken resp) cl"
proof -
  note sv = assms(1)[unfolded issuing_server_def]
  then have tokens: "ts_signer (sv_tokens sv) = sv_activeSigner sv"
    "0 \<le> ts_accessTokenTTL (sv_tokens sv)" "Some (sv_activeSigner sv) \<in> set (sv_signers sv)"
    unfolding server_ok_def by auto
  from server_store.issued_claims[OF _ assms(2) _ tokens(2) assms(4,5,3)] sv
  obtain cl where cl: "wire_safe cl" "claims_of_issue numeric_date (sv_tokens sv) t0 request resp cl"
    "rq_clientID request \<noteq> []" "sg_Sign (sv_activeSigner sv) cl = Inr (tr_AccessToken resp)"
    unfolding tokens(1) by blast
  from signed_token_reads[OF _ _ tokens(3) cl(1,4)] sv cl(2,3) show ?thesis by blast
qed

lemma issued_token_guarded:
  fixes fc :: "'s \<Rightarrow> string \<Rightarrow> 'e signer_error store_error + client" and parse :: "('q, 'j) jwt_parser"
  assumes "issuing_server key_pair J env numeric_date es sv" "jwt_laws J parse"
    and "issue sha256 numeric_date (find_any fc) (sv_tokens sv) t0 random request = Inr resp"
    and "TrimSpace (rq_clientID request) = rq_clientID request" "TrimSpace (rq_audience request) = rq_audience request"
    and "in_era (sv_tokens sv) t0" "plain_request (sv_tokens sv) request resp"
    and "ht_body (JWKSHTTP sv r) = JWKSBody jwks"
  shows "\<exists>keys cl. NewStaticProvider (ev_algs env) jwks = Inr keys \<and>
    claims_of_issue numeric_date (sv_tokens sv) t0 request resp cl \<and>
    opens_guards parse (ev_algs env) (sv_issuer sv) (rq_audience request) resp t0
      (numeric_date (t0 + ts_accessTokenTTL (sv_tokens sv)) + 30 * second) keys cl"
proof -
  note sv = assms(1)[unfolded issuing_server_def]
  then have ok: "server_ok sv" by blast
  have tokens: "ts_issuer (sv_tokens sv) = sv_issuer sv" using ok unfolding server_ok_def by auto
  from issued_token_reads[OF assms(1,3,4,6,7)] obtain cl e where
    cl: "claims_of_issue numeric_date (sv_tokens sv) t0 request resp cl" "rq_clientID request \<noteq> []"
    and e: "e \<in> set es" "reads_as J env e (tr_AccessToken resp) cl" by blast
  have "\<And>priv. key_pair priv \<Longrightarrow> length priv = 64" using sv unfolding signing_laws_def by blast
  from published_keys[OF _ ok this assms(8)] sv e(1) obtain keys where
    keys: "NewStaticProvider (ev_algs env) jwks = Inr keys"
    "keys (es_Kid e) = Some \<lparr>dk_publicKey = Ed25519PublicKey (drop 32 (es_PrivateKey e)),
       dk_declaredAlg = EdDSA (ev_algs env)\<rparr>"
    by blast
  have kid: "TrimSpace (es_Kid e) \<noteq> []" using ed25519_signers_ok(3)[OF _ ok e(1)] sv by fastforce
  have iss: "trim_issuer (ts_issuer (sv_tokens sv)) = ts_issuer (sv_tokens sv)" using sv tokens by simp
  have trunc: "truncates numeric_date" using sv by blast
  show ?thesis
  proof (rule exI[of _ keys], rule exI[of _ cl], intro conjI[OF keys(1)] conjI[OF cl(1)])
    show "opens_guards parse (ev_algs env) (sv_issuer sv) (rq_audience request) resp t0
      (numeric_date (t0 + ts_accessTokenTTL (sv_tokens sv)) + 30 * second) keys cl"
      unfolding opens_guards_def
    proof (intro allI impI, elim conjE)
      fix prov :: "string \<Rightarrow> string \<Rightarrow> 'q + public_key" and now required and c R :: gin_context
      assume as: "serves prov keys" "t0 \<le> now" "\<not> cx_next c"
        "cx_authorization c = ''Bearer '' @ tr_AccessToken resp"
        "R = Require parse (ev_algs env) now
          (guard_over (ev_algs env) (sv_issuer sv) (rq_audience request) prov required) [] c"
      then have prov: "prov (es_Kid e) (EdDSA (ev_algs env)) = Inr (Ed25519PublicKey (drop 32 (es_PrivateKey e)))"
        using keys(2) unfolding serves_def by fastforce
      show "(cx_next R \<longleftrightarrow> now < numeric_date (t0 + ts_accessTokenTTL (sv_tokens sv)) + 30 * second \<and>
           (\<forall>scope\<in>set (NormalizeScopes required).
              \<exists>granted\<in>set (Fields (tr_Scope resp)). ScopeCovers granted scope)) \<and>
        (cx_next R \<longrightarrow> Claims R = Some cl)"
        using issued_token_guard[where prov = prov and e = e and required = required and now = now and c = c and R = R,
          OF assms(2) e(2) cl(1) prov iss assms(5) cl(2) kid trunc as(2-4)] as(5) unfolding tokens by blast
    qed
  qed
qed

subsection \<open>Property\<close>

text \<open>C3: from issue to access: when a server built with Ed25519 signers answers a token request, the keys
  it publishes decode into a key provider, and a guard over that provider, for the server's issuer and the
  requested audience, lets a request carrying the token through from the moment of issue until thirty
  seconds (the default leeway) after the expiry the configured lifetime gives, exactly when the scopes
  named in the answer cover the scopes the guard requires. The laws of the JWT library are hypotheses;
  the issuer must be in the verifier's normal form.\<close>

theorem issued_token_passes_guard:
  fixes fc :: "'s \<Rightarrow> string \<Rightarrow> 'e signer_error store_error + client"
    and parse :: "('k key_error, 'j) jwt_parser" and env :: "('f, 'e) auth_env"
  assumes "buildServer tn cfg = Inr sv" "cf_Store cfg = None" "ed25519_signers key_pair env es (sv_signers sv)"
    and "signing_laws key_pair J env" "jwt_laws J parse" "truncates numeric_date"
    and "hr_ParseForm r (sv_maxTokenRequestBody sv) = Some (form, postForm)"
    and "token_request_of (hr_BasicAuth r) form postForm = request"
    and "ht_body (TokenHTTP sha256 numeric_date fc sv t0 random r) = TokenBody resp"
    and "ht_body (JWKSHTTP sv r') = JWKSBody jwks"
    and "trim_issuer (sv_issuer sv) = sv_issuer sv" "in_era (sv_tokens sv) t0"
    and "plain_request (sv_tokens sv) request resp"
    and "\<not> cx_next c" "cx_authorization c = ''Bearer '' @ tr_AccessToken resp"
  shows "\<exists>keys. NewStaticProvider (ev_algs env) jwks = Inr keys \<and>
    (\<forall>now required. t0 \<le> now \<longrightarrow>
      cx_next (Require parse (ev_algs env) now
        (default_guard (ev_algs env) (sv_issuer sv) (rq_audience request) keys required) [] c) =
      (now < numeric_date (t0 + ts_accessTokenTTL (sv_tokens sv)) + 30 * second \<and>
       (\<forall>scope\<in>set (NormalizeScopes required).
          \<exists>granted\<in>set (Fields (tr_Scope resp)). ScopeCovers granted scope)))"
proof -
  have server: "issuing_server key_pair J env numeric_date es sv"
    by (rule built_issuing_server[OF assms(1-4,6,11)])
  have trim: "TrimSpace (rq_clientID request) = rq_clientID request"
    "TrimSpace (rq_audience request) = rq_audience request"
    unfolding assms(8)[symmetric] by (rule token_request_of_trimmed)+
  have "issue sha256 numeric_date (find_any fc) (sv_tokens sv) t0 random request = Inr resp"
    using TokenHTTP_TokenBody[OF assms(9)] assms(7,8) by auto
  from issued_token_guarded[OF server assms(5) this trim assms(12,13,10)] obtain keys cl where
    keys: "NewStaticProvider (ev_algs env) jwks = Inr keys"
      "opens_guards parse (ev_algs env) (sv_issuer sv) (rq_audience request) resp t0
        (numeric_date (t0 + ts_accessTokenTTL (sv_tokens sv)) + 30 * second) keys cl" by blast
  show ?thesis
    unfolding default_guard_def
    using keys(1) opens_guardsD(1)[OF keys(2) StaticProvider_serves _ assms(14,15)] by blast
qed

text \<open>A server with one Ed25519 key, a library that signs its one token, and the view of that token.\<close>

definition demo_key :: ed25519_signer where
  "demo_key = \<lparr>es_Kid = ''k1'', es_PrivateKey = replicate 64 CHR ''k''\<rparr>"

definition demo_jwt_env :: "(string \<rightharpoonup> string, unit) auth_env" where
  "demo_jwt_env = demo_env\<lparr>ev_jwt_sign := (\<lambda>alg kid cl priv.
     if kid = ''k1'' \<and> cl = demo_issued_claims ''https://auth'' then Inr ''tok'' else Inl ())\<rparr>"

definition demo_token_view :: jwt_view where
  "demo_token_view = \<lparr>jv_kid = (\<lambda>t. Some ''k1''), jv_alg = (\<lambda>t. ''EdDSA''),
     jv_claims = (\<lambda>t. Some (demo_issued_claims ''https://auth'')),
     jv_signature = (\<lambda>t alg pk. t = ''tok'' \<and> pk = Ed25519PublicKey (replicate 32 CHR ''k''))\<rparr>"

definition demo_ed25519_config :: "(unit, unit signer_error, nat) config" where
  "demo_ed25519_config = zero_config\<lparr>cf_Issuer := ''https://auth/'',
     cf_Signers := [Some (ed25519_as_signer demo_jwt_env demo_key)], cf_Clients := [demo_client]\<rparr>"

definition demo_ed25519_server :: "(unit, unit signer_error, nat) server" where
  "demo_ed25519_server =
     server_of (normalizeConfig 0 demo_ed25519_config) (ed25519_as_signer demo_jwt_env demo_key)"

lemma demo_key_pair: "PrivateKey_Public (replicate 64 CHR ''k'') = replicate 32 CHR ''k''"
  by (simp add: PrivateKey_Public_def)

lemma demo_signing_laws: "signing_laws (\<lambda>priv. priv = replicate 64 CHR ''k'') demo_token_view demo_jwt_env"
proof -
  have "space_free ''tok''" by code_simp
  then show ?thesis
    by (simp add: signing_laws_def demo_token_view_def demo_jwt_env_def demo_env_def demo_algs_def demo_key_pair)
qed

lemma demo_ed25519_build: "buildServer 0 demo_ed25519_config = Inr demo_ed25519_server"
proof -
  have "trim_issuer ''https://auth/'' = ''https://auth''" by code_simp
  moreover have "client_Validate (client_Normalize demo_client) = None" by code_simp
  then have "client_ok (client_Normalize demo_client)" by (rule client_Validate_None[THEN iffD1])
  moreover have "TrimSpace ''k1'' = ''k1''" by code_simp
  ultimately have "config_ok (normalizeConfig 0 demo_ed25519_config) [ed25519_as_signer demo_jwt_env demo_key]"
    by (simp add: config_ok_def demo_ed25519_config_def zero_config_def demo_key_def)
  then show ?thesis
    unfolding buildServer_Inr
    by (intro exI conjI)
      (auto simp: demo_ed25519_server_def active_of_def demo_ed25519_config_def zero_config_def)
qed

lemma demo_ed25519_simps:
  "ts_issuer (sv_tokens demo_ed25519_server) = ''https://auth''" "sv_issuer demo_ed25519_server = ''https://auth''"
  "ts_accessTokenTTL (sv_tokens demo_ed25519_server) = 15 * minute"
  "ts_signer (sv_tokens demo_ed25519_server) = ed25519_as_signer demo_jwt_env demo_key"
  "ts_store (sv_tokens demo_ed25519_server) = ts_store (sv_tokens demo_server)"
  "sv_signers demo_ed25519_server = [Some (ed25519_as_signer demo_jwt_env demo_key)]"
proof -
  have "trim_issuer ''https://auth/'' = ''https://auth''" by code_simp
  then show "ts_issuer (sv_tokens demo_ed25519_server) = ''https://auth''"
    "sv_issuer demo_ed25519_server = ''https://auth''"
    "ts_accessTokenTTL (sv_tokens demo_ed25519_server) = 15 * minute"
    "ts_signer (sv_tokens demo_ed25519_server) = ed25519_as_signer demo_jwt_env demo_key"
    "ts_store (sv_tokens demo_ed25519_server) = ts_store (sv_tokens demo_server)"
    "sv_signers demo_ed25519_server = [Some (ed25519_as_signer demo_jwt_env demo_key)]"
    by (simp_all add: demo_ed25519_server_def server_of_def demo_ed25519_config_def zero_config_def
        normalizeConfig_def defaultAccessTokenTTL_def demo_server_def demo_config_def)
qed

lemma demo_ed25519_TokenHTTP:
  "ht_body (TokenHTTP id (\<lambda>t. t - t mod second) (\<lambda>_ _. Inl ErrClientNotFound) demo_ed25519_server 0
     (Inr ''0123456789abcdef'') (demo_post ''svc'' ''s3cret'')) =
   TokenBody (demo_response\<lparr>tr_AccessToken := ''tok''\<rparr>)"
proof -
  have lookup: "(FindClient (ts_store demo_service) ''svc'' :: unit signer_error store_error + client) =
      Inr (client_Normalize demo_client)" by code_simp
  have found: "(find_any (\<lambda>_ _. Inl ErrClientNotFound) (ts_store (sv_tokens demo_ed25519_server)) ''svc'' ::
      unit signer_error store_error + client) = Inr (client_Normalize demo_client)"
    unfolding demo_ed25519_simps using lookup
    by (simp add: demo_server_def server_of_def demo_config_def zero_config_def find_any_def
        demo_service_def NewMemoryClientStore_def Upsert_def)
  have signs: "sg_Sign (ts_signer (sv_tokens demo_ed25519_server))
      (demo_issued_claims (ts_issuer (sv_tokens demo_ed25519_server))) = Inr ''tok''"
    unfolding demo_ed25519_simps
    by (simp add: ed25519_as_signer_def Sign_def demo_key_def ed25519_PrivateKeySize_def demo_jwt_env_def)
  have "issue id (\<lambda>t. t - t mod second) (find_any (\<lambda>_ _. Inl ErrClientNotFound))
      (sv_tokens demo_ed25519_server) 0 (Inr ''0123456789abcdef'') demo_request =
    Inr (demo_response\<lparr>tr_AccessToken := ''tok''\<rparr>)"
    by (rule demo_issue_signed[where s = "sv_tokens demo_ed25519_server" and
          find_client = "find_any (\<lambda>_ _. Inl ErrClientNotFound)", OF found signs demo_ed25519_simps(3)])
  then show ?thesis
    by (simp add: TokenHTTP_def demo_post_def MethodPost_def demo_token_request)
qed

theorem issued_token_passes_guard_witness:
  "\<exists>keys. NewStaticProvider demo_algs [PublicJWK demo_algs (Some demo_key)] = Inr keys \<and>
    cx_next (Require (reference_parser demo_token_view) demo_algs (60 * second)
      (default_guard demo_algs ''https://auth'' ''sms'' keys [''sms.send.otp''] :: (unit key_error, unit) guard) []
      demo_context)"
proof -
  let ?get = "\<lparr>hr_Method = ''GET'', hr_ParseForm = (\<lambda>_. None), hr_BasicAuth = None\<rparr>"
  let ?resp = "demo_response\<lparr>tr_AccessToken := ''tok''\<rparr>"
  have algs: "ev_algs demo_jwt_env = demo_algs" by (simp add: demo_jwt_env_def demo_env_def)
  have trim: "TrimSpace ''k1'' = ''k1''" "trim_issuer ''https://auth'' = ''https://auth''" by code_simp+
  have signers: "ed25519_signers (\<lambda>priv. priv = replicate 64 CHR ''k'') demo_jwt_env [demo_key]
      (sv_signers demo_ed25519_server)"
    by (simp add: ed25519_signers_def demo_ed25519_simps demo_key_def trim)
  have jwks: "ht_body (JWKSHTTP demo_ed25519_server ?get) = JWKSBody [PublicJWK demo_algs (Some demo_key)]"
    by (simp add: JWKSHTTP_def MethodGet_def demo_ed25519_simps ed25519_as_signer_def algs)
  have era: "in_era (sv_tokens demo_ed25519_server) 0"
    by (simp add: in_era_def demo_ed25519_simps minute_def second_def)
  have plain: "plain_request (sv_tokens demo_ed25519_server) demo_request ?resp"
    by (simp add: plain_request_def demo_ed25519_simps demo_request_def demo_response_def)
  have store: "cf_Store demo_ed25519_config = None"
    by (simp add: demo_ed25519_config_def zero_config_def)
  have form: "hr_ParseForm (demo_post ''svc'' ''s3cret'') (sv_maxTokenRequestBody demo_ed25519_server) =
      Some (demo_form, (\<lambda>_. []))" "hr_BasicAuth (demo_post ''svc'' ''s3cret'') = Some (''svc'', ''s3cret'')"
    by (simp_all add: demo_post_def)
  have truncates: "truncates (\<lambda>t. t - t mod second)" by (simp add: truncates_def)
  have scopes: "\<forall>scope\<in>set (NormalizeScopes [''sms.send.otp'']).
      \<exists>granted\<in>set (Fields (tr_Scope ?resp)). ScopeCovers granted scope" by code_simp
  have "\<exists>keys. NewStaticProvider (ev_algs demo_jwt_env) [PublicJWK demo_algs (Some demo_key)] = Inr keys \<and>
      (\<forall>now required. 0 \<le> now \<longrightarrow>
        cx_next (Require (reference_parser demo_token_view) (ev_algs demo_jwt_env) now
          (default_guard (ev_algs demo_jwt_env) (sv_issuer demo_ed25519_server) (rq_audience demo_request) keys
             required :: (unit key_error, unit) guard) [] demo_context) =
        (now < 0 + ts_accessTokenTTL (sv_tokens demo_ed25519_server) -
            (0 + ts_accessTokenTTL (sv_tokens demo_ed25519_server)) mod second + 30 * second \<and>
         (\<forall>scope\<in>set (NormalizeScopes required).
            \<exists>granted\<in>set (Fields (tr_Scope ?resp)). ScopeCovers granted scope)))"
    by (rule issued_token_passes_guard[OF demo_ed25519_build store signers demo_signing_laws
          reference_parser_laws truncates form(1) _ demo_ed25519_TokenHTTP jwks _ era plain])
      (simp_all add: form(2) demo_token_request demo_ed25519_simps trim demo_context_def)
  then obtain keys where keys: "NewStaticProvider demo_algs [PublicJWK demo_algs (Some demo_key)] = Inr keys"
    "\<And>now required. 0 \<le> now \<Longrightarrow>
        cx_next (Require (reference_parser demo_token_view) demo_algs now
          (default_guard demo_algs ''https://auth'' ''sms'' keys required :: (unit key_error, unit) guard) []
          demo_context) =
        (now < 15 * minute - (15 * minute) mod second + 30 * second \<and>
         (\<forall>scope\<in>set (NormalizeScopes required).
            \<exists>granted\<in>set (Fields (tr_Scope ?resp)). ScopeCovers granted scope))"
    unfolding algs demo_ed25519_simps by (auto simp: demo_request_def)
  have "(60 * second :: int) < 15 * minute - (15 * minute) mod second + 30 * second" "(0::int) \<le> 60 * second"
    by (simp_all add: minute_def second_def)
  with keys scopes show ?thesis by blast
qed

end
