(* ===== verification/Full_Chain.thy ===== *)
theory Full_Chain
  imports Client_Server End_To_End Jwk_Remote
begin

text \<open>
  The three programs of the toolkit together: an authorization server (\<open>server\<close>), a client with its
  token and transport (\<open>client\<close>), and a resource server whose guard (\<open>ginorion\<close>) verifies with keys it
  fetched from the authorization server (\<open>jwk/remote.go\<close>).
\<close>

subsection \<open>Keys fetched from the server\<close>

text \<open>The key provider's network when its requests reach the server's handler: the headers of a new request,
  the bytes of a response value and the provider's decoder are those of the libraries. The document is one
  that \<open>encoding/json\<close> reads back, and not too large.\<close>

record 'e jwks_wire =
  kw_new_request :: "string \<Rightarrow> string \<Rightarrow> 'e + (string \<rightharpoonup> string)"
  kw_json_of :: "payload \<Rightarrow> string"
  kw_json :: "('e, key list) json_decoder"

definition jwks_get :: http_request where
  "jwks_get = \<lparr>hr_Method = ''GET'', hr_ParseForm = (\<lambda>_. None), hr_BasicAuth = None\<rparr>"

definition served_jwks :: "'e jwks_wire \<Rightarrow> (http_request \<Rightarrow> http_response) \<Rightarrow> 'e jwks_net" where
  "served_jwks K handler =
     \<lparr>jn_new_request = kw_new_request K,
      jn_do = (\<lambda>verb url header. let resp = handler (jwks_get\<lparr>hr_Method := verb\<rparr>) in
                 Inr (ht_status resp, Some \<lparr>bd_bytes = kw_json_of K (ht_body resp), bd_err = None\<rparr>)),
      jn_json = kw_json K\<rparr>"

definition readable_jwks :: "'e jwks_wire \<Rightarrow> payload \<Rightarrow> bool" where
  "readable_jwks K payload \<longleftrightarrow> int (length (kw_json_of K payload)) \<le> maxJWKSResponseBody \<and>
     (\<forall>keys. payload = JWKSBody keys \<longrightarrow>
        (\<exists>rest. jd_value (kw_json K) (kw_json_of K payload) = Inr (keys, rest) \<and> jd_extra (kw_json K) rest = ExtraEOF))"

lemma served_jwks_outcome:
  assumes "readable_jwks K (ht_body (JWKSHTTP sv jwks_get))" "kw_new_request K ''GET'' url = Inr header"
  shows "\<exists>jwks. ht_body (JWKSHTTP sv jwks_get) = JWKSBody jwks \<and>
    ask_jwks (served_jwks K (JWKSHTTP sv)) url = Response 200 (Inr jwks)"
proof -
  define jwks where "jwks = map (\<lambda>signer. sg_PublicJWK (the signer)) (sv_signers sv)"
  have served: "ht_status (JWKSHTTP sv jwks_get) = 200" "ht_body (JWKSHTTP sv jwks_get) = JWKSBody jwks"
    by (simp_all add: JWKSHTTP_def jwks_get_def MethodGet_def StatusOK_def jwks_def)
  have "jwks_get\<lparr>hr_Method := ''GET''\<rparr> = jwks_get" by (simp add: jwks_get_def)
  moreover have "json_Decode (kw_json K) (Some \<lparr>bd_bytes = kw_json_of K (JWKSBody jwks), bd_err = None\<rparr>) maxJWKSResponseBody =
      Inr jwks"
    using assms(1) unfolding served(2)
    by (subst json_Decode_Inr) (auto simp: readable_jwks_def maxJWKSResponseBody_def)
  ultimately show ?thesis using served assms(2) by (simp add: ask_jwks_def served_jwks_def Let_def)
qed

text \<open>The answer of a call of \<open>Key\<close> that finds its key fresh, which is the whole call.\<close>

definition remote_answer ::
  "('h, 'e) remote_provider \<Rightarrow> time \<Rightarrow> string \<Rightarrow> string \<Rightarrow> 'e remote_error key_error + public_key" where
  "remote_answer p now kid alg =
     (case key_begin p kid alg now of KeyDone _ _ r \<Rightarrow> r | _ \<Rightarrow> Inl (ErrKeyNotFound kid))"

lemma fetched_remote_serves:
  assumes "NewStaticProvider A jwks = Inr keys"
    and "refresh_commit err_is c fetched_at (fetch A c (Response 200 (Inr jwks))) p = (p', err)"
    and "now < fetched_at + rp_refreshInterval p"
  shows "serves (remote_answer p' now) keys"
proof -
  have "decodeSet A jwks = Inr keys"
    using assms(1) by (auto simp: NewStaticProvider_def split: if_splits sum.splits)
  then have "rp_keys p' = keys" "rp_expiresAt p' = fetched_at + rp_refreshInterval p"
    using assms(2) by (auto simp: fetch_def refresh_commit_def Let_def time_add_def)
  then show ?thesis
    using assms(3)
    by (simp add: serves_def remote_answer_def key_begin_def snapshot_def time_before_def forAlgorithm_def Let_def)
qed

text \<open>A guard that its builder makes over such a provider, asked for scopes at a route.\<close>

lemma built_guard_Require:
  assumes "gb_Build remote A (gb_JWKS (gb_Audience (gb_Issuer gb_New issuer) audience) url) = Inr g"
    and "\<And>u hc every stale. remote u hc every stale = Inr prov" "required \<noteq> []"
  shows "Require parse A now g required c =
    Require parse A now (guard_over A (trim_issuer issuer) (TrimSpace audience) prov required) [] c"
proof -
  have "g = newGuard (VerifierFor A (trim_issuer issuer) (TrimSpace audience) (Some prov)) [] DefaultClaimsKey
      (Some defaultErrorHandler)"
    using assms(1,2)
    by (auto simp: gb_Build_def gb_JWKS_def gb_Audience_def gb_Issuer_def gb_New_def buildVerifier_def
        trim_issuer_def split: if_splits)
  then show ?thesis
    using assms(3)
    by (simp add: Require_def guard_over_def firstScopes_def newGuard_def middlewareFromConfig_def Let_def)
qed

subsection \<open>A token the client holds fresh\<close>

text \<open>How long before its expiry the client stops using a token.\<close>

definition refresh_margin :: "duration \<Rightarrow> duration \<Rightarrow> duration" where
  "refresh_margin skew lifetime = (if lifetime \<le> skew then lifetime div 10 else skew)"

lemma fresh_before_margin:
  assumes "freshAt skew token now" "0 \<le> skew" "0 < tr_ExpiresIn (ct_response token)"
    and "tr_ExpiresIn (ct_response token) * second \<le> max_int64"
  shows "now + refresh_margin skew (tr_ExpiresIn (ct_response token) * second) < ct_expiresAt token"
proof -
  let ?life = "tr_ExpiresIn (ct_response token) * second"
  have life: "0 \<le> ?life" using assms(3) by (simp add: second_def)
  then have "wrap64 ?life = ?life" using assms(4) by (intro wrap64_id) (simp_all add: min_int64_def)
  moreover have "go_div ?life 10 = ?life div 10" using life by (simp add: go_div_pos)
  ultimately have fresh: "refresh_margin skew ?life < time_sub (ct_expiresAt token) now"
    using assms(1) by (simp add: freshAt_def refresh_margin_def Let_def split: if_splits)
  have "min_int64 \<le> refresh_margin skew ?life"
    using life assms(2) by (auto simp: refresh_margin_def min_int64_def intro: order_trans[of _ 0])
  from time_sub_gt[OF this fresh] show ?thesis by simp
qed

lemma client_ready_skew: "client_ready W sv cfg p audience scopes \<Longrightarrow> 0 < tp_refreshSkew p"
  by (auto simp: client_ready_def buildProvider_def client_normalizeConfig_def defaultRefreshSkew_def second_def Let_def
      split: if_splits)

text \<open>The token a client got is the one the service issued to it.\<close>

lemma client_token_issued:
  fixes fc :: "'s \<Rightarrow> string \<Rightarrow> 'x store_error + client" and W :: "'w http_wire"
  assumes "client_ready W sv cfg p audience scopes" "cid = TrimSpace (cc_ClientID cfg)" "cid \<noteq> []"
    and "CHR '':'' \<notin> set cid"
    and "\<And>resp. issue sha256 numeric_date (find_any fc) (sv_tokens sv) t0 random
      (asked cid (cc_ClientSecret cfg) audience scopes) = Inr resp \<Longrightarrow> wire_response resp"
    and "fits W (ht_body (TokenHTTP sha256 numeric_date fc sv t0 random (http_of (hw_media W)
      (client_request (tp_tokenURL p) cid (cc_ClientSecret cfg) audience scopes))))"
    and "requestToken (served_net W (TokenHTTP sha256 numeric_date fc sv t0 random)) p t1 audience scopes = Inr token"
  shows "issue sha256 numeric_date (find_any fc) (sv_tokens sv) t0 random
      (asked cid (cc_ClientSecret cfg) audience scopes) = Inr (ct_response token) \<and>
    0 < tr_ExpiresIn (ct_response token) \<and>
    ct_expiresAt token = t1 + wrap64 (tr_ExpiresIn (ct_response token) * second)"
proof -
  have "client_outcome t1 (issue sha256 numeric_date (find_any fc) (sv_tokens sv) t0 random
      (asked cid (cc_ClientSecret cfg) audience scopes)) = (Inr token :: 'w token_request_error + cached_token)"
    by (rule trans[OF exchange_of_ready_client[OF assms(1-4) refl assms(5,6), symmetric] assms(7)])
  then show ?thesis by (auto simp: client_outcome_def split: sum.splits issue_error.splits if_splits)
qed

lemma issued_expires_in:
  assumes "issue sha256 numeric_date find_client s t0 random request = Inr resp"
    and "0 \<le> ts_accessTokenTTL s" "ts_accessTokenTTL s < 2 ^ 22 * second"
  shows "tr_ExpiresIn resp = ts_accessTokenTTL s div second \<and> tr_TokenType resp = TokenTypeBearer \<and>
    tr_ExpiresIn resp * second \<le> ts_accessTokenTTL s \<and> tr_ExpiresIn resp * second \<le> max_int64 \<and> 0 \<le> tr_ExpiresIn resp"
proof -
  have resp: "tr_ExpiresIn resp = ts_accessTokenTTL s div second" "tr_TokenType resp = TokenTypeBearer"
    using assms(1) to_int64_Seconds[OF assms(2,3)] by (auto simp: issue_Inr issueAccessToken_Inr)
  have "ts_accessTokenTTL s div second * second \<le> ts_accessTokenTTL s"
    by (simp add: second_def div_times_less_eq_dividend)
  moreover have "2 ^ 22 * second \<le> max_int64" by (simp add: second_def max_int64_def)
  moreover have "0 \<le> ts_accessTokenTTL s div second" using assms(2) by (simp add: second_def pos_imp_zdiv_nonneg_iff)
  ultimately show ?thesis using resp assms(3) by simp
qed

text \<open>What a client gets from such a server is what was issued for it, with the lifetime counted from the
  answer's arrival.\<close>

lemma client_token_of_server:
  fixes fc :: "'s \<Rightarrow> string \<Rightarrow> 'e signer_error store_error + client"
  assumes "issuing_server key_pair J env numeric_date es sv" "in_era (sv_tokens sv) t0"
    and "ts_accessTokenTTL (sv_tokens sv) < 2 ^ 22 * second"
    and "client_ready W sv cfg p audience scopes" "cid = TrimSpace (cc_ClientID cfg)" "cid \<noteq> []"
    and "CHR '':'' \<notin> set cid"
    and "\<And>resp. issue sha256 numeric_date (find_any fc) (sv_tokens sv) t0 random
      (asked cid (cc_ClientSecret cfg) audience scopes) = Inr resp \<Longrightarrow>
      plain_request (sv_tokens sv) (asked cid (cc_ClientSecret cfg) audience scopes) resp"
    and "fits W (ht_body (TokenHTTP sha256 numeric_date fc sv t0 random (http_of (hw_media W)
      (client_request (tp_tokenURL p) cid (cc_ClientSecret cfg) audience scopes))))"
    and "requestToken (served_net W (TokenHTTP sha256 numeric_date fc sv t0 random)) p t1 audience scopes = Inr token"
  shows "issue sha256 numeric_date (find_any fc) (sv_tokens sv) t0 random
      (asked cid (cc_ClientSecret cfg) audience scopes) = Inr (ct_response token) \<and>
    0 < tr_ExpiresIn (ct_response token) \<and>
    tr_ExpiresIn (ct_response token) * second \<le> ts_accessTokenTTL (sv_tokens sv) \<and>
    tr_ExpiresIn (ct_response token) * second \<le> max_int64 \<and>
    ct_expiresAt token = t1 + tr_ExpiresIn (ct_response token) * second"
proof -
  let ?ask = "asked cid (cc_ClientSecret cfg) audience scopes"
  have ttl: "0 \<le> ts_accessTokenTTL (sv_tokens sv)"
    using assms(1) unfolding issuing_server_def server_ok_def by auto
  have clean: "TrimSpace (rq_clientID ?ask) = rq_clientID ?ask" using assms(5) by (simp add: asked_def)
  have wire: "wire_response resp"
    if "issue sha256 numeric_date (find_any fc) (sv_tokens sv) t0 random ?ask = Inr resp" for resp
    using issued_token_reads[OF assms(1) that clean assms(2) assms(8)[OF that]] issued_expires_in[OF that ttl assms(3)]
      assms(8)[OF that]
    by (auto simp: wire_response_def plain_request_def reads_as_def TokenTypeBearer_def min_int64_def second_def)
  from client_token_issued[OF assms(4-7) wire assms(9,10)] have
    token: "issue sha256 numeric_date (find_any fc) (sv_tokens sv) t0 random ?ask = Inr (ct_response token)"
      "0 < tr_ExpiresIn (ct_response token)"
      "ct_expiresAt token = t1 + wrap64 (tr_ExpiresIn (ct_response token) * second)" by auto
  note life = issued_expires_in[OF token(1) ttl assms(3)]
  show ?thesis
    using life token wrap64_id[of "tr_ExpiresIn (ct_response token) * second"] by (simp add: min_int64_def second_def)
qed

text \<open>A fresh token opens a guard over fetched keys.\<close>

lemma fresh_token_opens:
  fixes fc :: "'s \<Rightarrow> string \<Rightarrow> 'e signer_error store_error + client" and env :: "('f, 'e) auth_env"
    and parse :: "('r remote_error key_error, 'j) jwt_parser"
  assumes "buildServer tn scfg = Inr sv" "cf_Store scfg = None" "ed25519_signers key_pair env es (sv_signers sv)"
    and "signing_laws key_pair J env" "jwt_laws J parse" "truncates numeric_date"
    and "trim_issuer (sv_issuer sv) = sv_issuer sv" "in_era (sv_tokens sv) t0"
    and "ts_accessTokenTTL (sv_tokens sv) < 2 ^ 22 * second"
    and "client_ready W sv cfg p audience scopes" "cid = TrimSpace (cc_ClientID cfg)" "cid \<noteq> []"
    and "CHR '':'' \<notin> set cid"
    and "\<And>resp. issue sha256 numeric_date (find_any fc) (sv_tokens sv) t0 random
      (asked cid (cc_ClientSecret cfg) audience scopes) = Inr resp \<Longrightarrow>
      plain_request (sv_tokens sv) (asked cid (cc_ClientSecret cfg) audience scopes) resp"
    and "fits W (ht_body (TokenHTTP sha256 numeric_date fc sv t0 random (http_of (hw_media W)
      (client_request (tp_tokenURL p) cid (cc_ClientSecret cfg) audience scopes))))"
    and "requestToken (served_net W (TokenHTTP sha256 numeric_date fc sv t0 random)) p t1 audience scopes = Inr token"
    and "t1 \<le> t0 + refresh_margin (tp_refreshSkew p) (tr_ExpiresIn (ct_response token) * second) + 29 * second"
    and "freshAt (tp_refreshSkew p) token now" "t0 \<le> now"
    and "ht_body (JWKSHTTP sv jr) = JWKSBody jwks"
    and "refresh_commit err_is ctx fetched_at (fetch (ev_algs env) ctx (Response 200 (Inr jwks))) rp = (rp', err)"
    and "now < fetched_at + rp_refreshInterval rp"
    and "gb_Build remote (ev_algs env) (gb_JWKS (gb_Audience (gb_Issuer gb_New issuer) aud) url) = Inr g"
    and "\<And>u hc every stale. remote u hc every stale = Inr (remote_answer rp' now)"
    and "trim_issuer issuer = sv_issuer sv" "TrimSpace aud = audience" "required \<noteq> []"
    and "\<forall>scope\<in>set (NormalizeScopes required).
      \<exists>granted\<in>set (Fields (tr_Scope (ct_response token))). ScopeCovers granted scope"
    and "\<not> cx_next c" "cx_authorization c = ''Bearer '' @ tr_AccessToken (ct_response token)"
  shows "cx_next (Require parse (ev_algs env) now g required c) \<and>
    (\<exists>cl. MustClaims (Require parse (ev_algs env) now g required c) = Inr cl \<and> cl_ClientID cl = cid \<and>
       cl_Scope cl = tr_Scope (ct_response token))"
proof -
  let ?ask = "asked cid (cc_ClientSecret cfg) audience scopes"
  let ?ttl = "ts_accessTokenTTL (sv_tokens sv)" and ?life = "tr_ExpiresIn (ct_response token) * second"
  have server: "issuing_server key_pair J env numeric_date es sv"
    by (rule built_issuing_server[OF assms(1-4,6,7)])
  have "TrimSpace audience = audience"
    using client_readyE[OF assms(10) assms(11)[symmetric] assms(12)] by blast
  then have clean: "TrimSpace (rq_clientID ?ask) = rq_clientID ?ask" "TrimSpace (rq_audience ?ask) = rq_audience ?ask"
    using assms(11) by (simp_all add: asked_def)
  from client_token_of_server[OF server assms(8-16)] have
    token: "issue sha256 numeric_date (find_any fc) (sv_tokens sv) t0 random ?ask = Inr (ct_response token)"
      "0 < tr_ExpiresIn (ct_response token)" "?life \<le> ?ttl" "?life \<le> max_int64" "ct_expiresAt token = t1 + ?life"
    by auto
  have "now + refresh_margin (tp_refreshSkew p) ?life < ct_expiresAt token"
    by (rule fresh_before_margin[OF assms(18) less_imp_le[OF client_ready_skew[OF assms(10)]] token(2)])
      (rule token(4))
  moreover have "t0 + ?ttl < numeric_date (t0 + ?ttl) + second"
    using assms(6) pos_mod_bound[of second "t0 + ?ttl"] unfolding truncates_def by (simp add: second_def)
  ultimately have in_time: "now < numeric_date (t0 + ?ttl) + 30 * second"
    using token(3,5) assms(17) by linarith
  from issued_token_guarded[OF server assms(5) token(1) clean assms(8) assms(14)[OF token(1)] assms(20)]
  obtain keys cl where
    keys: "NewStaticProvider (ev_algs env) jwks = Inr keys"
    and cl: "claims_of_issue numeric_date (sv_tokens sv) t0 ?ask (ct_response token) cl"
    and opens: "opens_guards parse (ev_algs env) (sv_issuer sv) (rq_audience ?ask) (ct_response token) t0
      (numeric_date (t0 + ?ttl) + 30 * second) keys cl"
    by blast
  note R = opens_guardsD[where required = required,
    OF opens fetched_remote_serves[OF keys assms(21,22)] assms(19,29,30)]
  have "Require parse (ev_algs env) now g required c = Require parse (ev_algs env) now
      (guard_over (ev_algs env) (sv_issuer sv) (rq_audience ?ask) (remote_answer rp' now) required) [] c"
    using built_guard_Require[OF assms(23,24,27), of parse now c] assms(25,26) by (simp add: asked_def)
  then show ?thesis
    using R in_time assms(28) cl by (auto simp: asked_def claims_of_issue_def MustClaims_def)
qed

text \<open>The transport hands on the caller's request with the token in its header.\<close>

lemma transported_header:
  assumes "fst (RoundTrip (Some (NewHTTPClient (\<lambda>r. r) (Some token_of) audience scopes)) (Some req)) = Inr sent"
    and "token_of audience (NormalizeScopes scopes) = Inr resp"
  shows "or_header sent ''Authorization'' = Some (''Bearer '' @ tr_AccessToken resp)"
  using assms by (auto simp: NewHTTPClient_def RoundTrip_decides)

subsection \<open>Property\<close>

text \<open>C4: the toolkit as a whole: a service whose client got a token from the server, and whose transport
  sends it as long as the client's cache regards it as fresh, is let through by a resource server that
  guards a route with the keys it fetched from the same server, for every scope list the answer covers, and
  the handler finds the client's id and scopes in its claims.
  The answer must not have been under way for more than 29 seconds beyond the margin at which the client
  renews its tokens; libraries, dates and the size of messages are bounded as in the parts.\<close>

theorem fresh_token_accepted:
  fixes fc :: "'s \<Rightarrow> string \<Rightarrow> 'e signer_error store_error + client" and env :: "('f, 'e) auth_env"
    and parse :: "('r remote_error key_error, 'j) jwt_parser"
  assumes "buildServer tn scfg = Inr sv" "cf_Store scfg = None" "ed25519_signers key_pair env es (sv_signers sv)"
    and "signing_laws key_pair J env" "jwt_laws J parse" "truncates numeric_date"
    and "trim_issuer (sv_issuer sv) = sv_issuer sv" "in_era (sv_tokens sv) t0"
    and "ts_accessTokenTTL (sv_tokens sv) < 2 ^ 22 * second"
    and "client_ready W sv cfg p audience scopes" "cid = TrimSpace (cc_ClientID cfg)" "cid \<noteq> []"
    and "CHR '':'' \<notin> set cid"
    and "\<And>resp. issue sha256 numeric_date (find_any fc) (sv_tokens sv) t0 random
      (asked cid (cc_ClientSecret cfg) audience scopes) = Inr resp \<Longrightarrow>
      plain_request (sv_tokens sv) (asked cid (cc_ClientSecret cfg) audience scopes) resp"
    and "fits W (ht_body (TokenHTTP sha256 numeric_date fc sv t0 random (http_of (hw_media W)
      (client_request (tp_tokenURL p) cid (cc_ClientSecret cfg) audience scopes))))"
    and "requestToken (served_net W (TokenHTTP sha256 numeric_date fc sv t0 random)) p t1 audience scopes = Inr token"
    and "t1 \<le> t0 + refresh_margin (tp_refreshSkew p) (tr_ExpiresIn (ct_response token) * second) + 29 * second"
    and "freshAt (tp_refreshSkew p) token now" "t0 \<le> now"
    and "fst (RoundTrip (Some (NewHTTPClient (\<lambda>r. r) (Some (\<lambda>_ _. Inr (ct_response token) :: unit + token_response))
      audience scopes)) (Some req)) = Inr sent"
    and "readable_jwks K (ht_body (JWKSHTTP sv jwks_get))" "kw_new_request K ''GET'' keys_url = Inr header"
    and "refresh_commit err_is ctx fetched_at (fetch (ev_algs env) ctx (ask_jwks (served_jwks K (JWKSHTTP sv)) keys_url))
      rp = (rp', err)"
    and "now < fetched_at + rp_refreshInterval rp"
    and "gb_Build remote (ev_algs env) (gb_JWKS (gb_Audience (gb_Issuer gb_New issuer) aud) url) = Inr g"
    and "\<And>u hc every stale. remote u hc every stale = Inr (remote_answer rp' now)"
    and "trim_issuer issuer = sv_issuer sv" "TrimSpace aud = audience" "required \<noteq> []"
    and "\<forall>scope\<in>set (NormalizeScopes required).
      \<exists>granted\<in>set (Fields (tr_Scope (ct_response token))). ScopeCovers granted scope"
    and "\<not> cx_next c" "or_header sent ''Authorization'' = Some (cx_authorization c)"
  shows "cx_next (Require parse (ev_algs env) now g required c) \<and>
    (\<exists>cl. MustClaims (Require parse (ev_algs env) now g required c) = Inr cl \<and> cl_ClientID cl = cid \<and>
       cl_Scope cl = tr_Scope (ct_response token))"
proof -
  have auth: "cx_authorization c = ''Bearer '' @ tr_AccessToken (ct_response token)"
    using transported_header[OF assms(20) refl] assms(32) by simp
  obtain jwks where jwks: "ht_body (JWKSHTTP sv jwks_get) = JWKSBody jwks"
    "ask_jwks (served_jwks K (JWKSHTTP sv)) keys_url = Response 200 (Inr jwks)"
    using served_jwks_outcome[OF assms(21,22)] by blast
  from fresh_token_opens[OF assms(1-19) jwks(1) assms(23)[unfolded jwks(2)] assms(24-31) auth] show ?thesis .
qed

subsection \<open>The hypotheses hold together\<close>

definition demo_client_token :: cached_token where
  "demo_client_token = \<lparr>ct_response = demo_response\<lparr>tr_AccessToken := ''tok''\<rparr>, ct_expiresAt = 903 * second\<rparr>"

lemma demo_ed25519_issues:
  "issue id (\<lambda>t. t - t mod second) (find_any (\<lambda>_ _. Inl ErrClientNotFound)) (sv_tokens demo_ed25519_server) 0
     (Inr ''0123456789abcdef'') (asked ''svc'' ''s3cret'' ''sms'' [''sms.send.otp'']) =
   (Inr (demo_response\<lparr>tr_AccessToken := ''tok''\<rparr>) :: unit signer_error issue_error + token_response)"
proof -
  obtain form post where
    "hr_ParseForm (demo_post ''svc'' ''s3cret'') (sv_maxTokenRequestBody demo_ed25519_server) = Some (form, post)"
    "issue id (\<lambda>t. t - t mod second) (find_any (\<lambda>_ _. Inl ErrClientNotFound)) (sv_tokens demo_ed25519_server) 0
      (Inr ''0123456789abcdef'') (token_request_of (hr_BasicAuth (demo_post ''svc'' ''s3cret'')) form post) =
      (Inr (demo_response\<lparr>tr_AccessToken := ''tok''\<rparr>) :: unit signer_error issue_error + token_response)"
    using TokenHTTP_TokenBody[OF demo_ed25519_TokenHTTP] by blast
  then show ?thesis by (auto simp: demo_post_def demo_token_request demo_asked)
qed

lemma demo_ed25519_limit:
  "int (length (Encode (token_form ''sms'' [''sms.send.otp'']))) \<le> sv_maxTokenRequestBody demo_ed25519_server"
proof -
  have "sv_maxTokenRequestBody demo_ed25519_server = sv_maxTokenRequestBody demo_server"
    by (simp add: demo_ed25519_server_def demo_server_def server_of_def demo_ed25519_config_def demo_config_def
        zero_config_def normalizeConfig_def)
  then show ?thesis using demo_sent(2) by simp
qed

lemma demo_exchange_fits:
  "fits demo_http_wire (ht_body (TokenHTTP id (\<lambda>t. t - t mod second)
     (\<lambda>_ _. Inl ErrClientNotFound :: unit signer_error store_error + client) demo_ed25519_server 0
     (Inr ''0123456789abcdef'') (http_of (hw_media demo_http_wire) (client_request (tp_tokenURL (demo_provider_of ''svc''))
       ''svc'' ''s3cret'' ''sms'' [''sms.send.otp'']))))"
proof -
  have aim: "TrimSpace ''sms'' = ''sms''" "''sms'' \<noteq> []" "NormalizeScopes [''sms.send.otp''] = [''sms.send.otp'']"
    "TrimSpace ''svc'' = ''svc''" by code_simp+
  have basic: "BasicAuth (tq_header (client_request (tp_tokenURL (demo_provider_of ''svc'')) ''svc'' ''s3cret'' ''sms''
      [''sms.send.otp''])) = Some (''svc'', ''s3cret'')" by (rule BasicAuth_client_request) simp
  note http = TokenHTTP_client_request[OF demo_http_wire_laws demo_sent(1) demo_ed25519_limit aim(1-3) basic]
  have escaped: "QueryEscape ''tok'' = ''tok''" "QueryEscape ''Bearer'' = ''Bearer''"
    "QueryEscape ''sms.send.otp'' = ''sms.send.otp''" by code_simp+
  show ?thesis
    unfolding http aim(4) demo_ed25519_issues
    by (simp add: fits_def demo_http_wire_def demo_json_of_def demo_response_def escaped unary_def maxTokenResponseBody_def)
qed

lemma demo_exchange:
  "requestToken (served_net demo_http_wire (TokenHTTP id (\<lambda>t. t - t mod second)
     (\<lambda>_ _. Inl ErrClientNotFound :: unit signer_error store_error + client) demo_ed25519_server 0
     (Inr ''0123456789abcdef''))) (demo_provider_of ''svc'') (3 * second) ''sms'' [''sms.send.otp''] = Inr demo_client_token"
proof -
  have svc: "TrimSpace ''svc'' = ''svc''" by code_simp
  have answer: "issue id (\<lambda>t. t - t mod second) (find_any (\<lambda>_ _. Inl ErrClientNotFound)) (sv_tokens demo_ed25519_server) 0
      (Inr ''0123456789abcdef'') (asked ''svc'' (cc_ClientSecret (demo_client_config ''svc'')) ''sms'' [''sms.send.otp'']) =
    (Inr (demo_response\<lparr>tr_AccessToken := ''tok''\<rparr>) :: unit signer_error issue_error + token_response)"
    using demo_ed25519_issues by (simp add: demo_client_config_def)
  have "wrap64 (900 * second) = 900 * second"
    by (rule wrap64_id) (simp_all add: second_def min_int64_def max_int64_def)
  moreover have "requestToken (served_net demo_http_wire (TokenHTTP id (\<lambda>t. t - t mod second)
      (\<lambda>_ _. Inl ErrClientNotFound :: unit signer_error store_error + client) demo_ed25519_server 0
      (Inr ''0123456789abcdef''))) (demo_provider_of ''svc'') (3 * second) ''sms'' [''sms.send.otp''] =
    client_outcome (3 * second) (Inr (demo_response\<lparr>tr_AccessToken := ''tok''\<rparr>) :: unit signer_error issue_error + token_response)"
    by (rule exchange_of_ready_client[OF demo_client_ready[OF demo_ed25519_limit] _ _ _ answer])
      (use demo_exchange_fits in \<open>auto simp: demo_client_config_def svc wire_response_def demo_response_def
        min_int64_def max_int64_def\<close>)
  ultimately show ?thesis by (simp add: client_outcome_def demo_response_def demo_client_token_def)
qed

text \<open>The token of the demo server, requested by the demo client at three seconds and used at sixty, with the
  keys fetched at ten.\<close>

definition demo_jwks_wire :: "string jwks_wire" where
  "demo_jwks_wire = \<lparr>kw_new_request = (\<lambda>_ _. Inr Map.empty), kw_json_of = (\<lambda>_. ''keys''),
     kw_json = \<lparr>jd_value = (\<lambda>_. Inr ([PublicJWK demo_algs (Some demo_key)], [])), jd_extra = (\<lambda>_. ExtraEOF)\<rparr>\<rparr>"

lemma demo_readable: "readable_jwks demo_jwks_wire (JWKSBody [PublicJWK demo_algs (Some demo_key)])"
  by (simp add: readable_jwks_def demo_jwks_wire_def maxJWKSResponseBody_def)

definition demo_fetch :: "(unit, string) remote_provider \<times> string remote_error option" where
  "demo_fetch = refresh_commit (=) AliveCtx (10 * second)
     (fetch demo_algs AliveCtx (ask_jwks (served_jwks demo_jwks_wire (JWKSHTTP demo_ed25519_server))
        ''https://auth/.well-known/jwks.json'')) demo_remote"

definition demo_remote_builder ::
  "string \<Rightarrow> unit option \<Rightarrow> duration \<Rightarrow> duration \<Rightarrow> unit + (string \<Rightarrow> string \<Rightarrow> string remote_error key_error + public_key)" where
  "demo_remote_builder url hc every stale = Inr (remote_answer (fst demo_fetch) (60 * second))"

definition demo_guard_builder :: "(string remote_error key_error, unit, unit) guard_builder option" where
  "demo_guard_builder = gb_JWKS (gb_Audience (gb_Issuer gb_New ''https://auth/'') ''sms'')
     ''https://auth/.well-known/jwks.json''"

lemma demo_ed25519_facts:
  "cf_Store demo_ed25519_config = None"
  "ed25519_signers (\<lambda>priv. priv = replicate 64 CHR ''k'') demo_jwt_env [demo_key] (sv_signers demo_ed25519_server)"
  "ht_body (JWKSHTTP demo_ed25519_server jwks_get) = JWKSBody [PublicJWK demo_algs (Some demo_key)]"
  "in_era (sv_tokens demo_ed25519_server) 0" "truncates (\<lambda>t. t - t mod second)" "ev_algs demo_jwt_env = demo_algs"
proof -
  have "TrimSpace ''k1'' = ''k1''" by code_simp
  then show "ed25519_signers (\<lambda>priv. priv = replicate 64 CHR ''k'') demo_jwt_env [demo_key]
      (sv_signers demo_ed25519_server)"
    by (simp add: ed25519_signers_def demo_ed25519_simps demo_key_def)
  show algs: "ev_algs demo_jwt_env = demo_algs" by (simp add: demo_jwt_env_def demo_env_def)
  show "ht_body (JWKSHTTP demo_ed25519_server jwks_get) = JWKSBody [PublicJWK demo_algs (Some demo_key)]"
    by (simp add: JWKSHTTP_def jwks_get_def MethodGet_def demo_ed25519_simps ed25519_as_signer_def algs)
qed (simp_all add: demo_ed25519_config_def zero_config_def in_era_def demo_ed25519_simps minute_def second_def truncates_def)

lemma demo_client_token_fresh:
  "freshAt (tp_refreshSkew (demo_provider_of ''svc'')) demo_client_token (60 * second)"
  "refresh_margin (tp_refreshSkew (demo_provider_of ''svc'')) (tr_ExpiresIn (ct_response demo_client_token) * second) =
     60 * second"
proof -
  have "wrap64 (900 * second) = 900 * second"
    by (rule wrap64_id) (simp_all add: second_def min_int64_def max_int64_def)
  then show "freshAt (tp_refreshSkew (demo_provider_of ''svc'')) demo_client_token (60 * second)"
    by (simp add: freshAt_def demo_client_token_def demo_response_def demo_provider_of_def defaultRefreshSkew_def second_def
        time_sub_def min_int64_def max_int64_def)
qed (simp add: refresh_margin_def demo_provider_of_def defaultRefreshSkew_def demo_client_token_def demo_response_def second_def)

theorem fresh_token_accepted_witness:
  "\<exists>g cl. gb_Build demo_remote_builder demo_algs demo_guard_builder = Inr g \<and>
     cx_next (Require (reference_parser demo_token_view) demo_algs (60 * second) g [''sms.send.otp''] demo_context) \<and>
     MustClaims (Require (reference_parser demo_token_view) demo_algs (60 * second) g [''sms.send.otp''] demo_context) =
       Inr cl \<and> cl_ClientID cl = ''svc'' \<and> cl_Scope cl = ''sms.send.otp''"
proof -
  let ?random = "Inr ''0123456789abcdef'' :: unit signer_error + string"
  let ?req = "\<lparr>or_header = Map.empty, or_body_open = True\<rparr>"
  note algs = demo_ed25519_facts(6)
  have trim: "trim_issuer ''https://auth'' = ''https://auth''"
    "trim_issuer ''https://auth/'' = ''https://auth''" "TrimSpace ''sms'' = ''sms''" "TrimSpace ''svc'' = ''svc''"
    "TrimSpace ''https://auth/.well-known/jwks.json'' = ''https://auth/.well-known/jwks.json''" by code_simp+
  have commit: "refresh_commit (=) AliveCtx (10 * second)
      (fetch (ev_algs demo_jwt_env) AliveCtx (ask_jwks (served_jwks demo_jwks_wire (JWKSHTTP demo_ed25519_server))
        ''https://auth/.well-known/jwks.json'')) demo_remote =
      (fst demo_fetch, snd demo_fetch)"
    by (simp add: demo_fetch_def algs)
  obtain g where g: "gb_Build demo_remote_builder demo_algs demo_guard_builder = Inr g"
    by (simp add: gb_Build_def demo_guard_builder_def gb_JWKS_def gb_Audience_def gb_Issuer_def gb_New_def
        buildVerifier_def demo_remote_builder_def trim trim_issuer_def[symmetric])
  have sent: "fst (RoundTrip (Some (NewHTTPClient (\<lambda>r. r) (Some (\<lambda>_ _. Inr (ct_response demo_client_token) :: unit + token_response))
      ''sms'' [''sms.send.otp''])) (Some ?req)) =
      Inr (?req\<lparr>or_header := [''Authorization'' \<mapsto> ''Bearer tok'']\<rparr>)"
    by (simp add: NewHTTPClient_def RoundTrip_decides demo_client_token_def)
  have covered: "\<forall>scope\<in>set (NormalizeScopes [''sms.send.otp'']).
      \<exists>granted\<in>set (Fields (tr_Scope (ct_response demo_client_token))). ScopeCovers granted scope" by code_simp
  have plain: "plain_request (sv_tokens demo_ed25519_server)
      (asked ''svc'' (cc_ClientSecret (demo_client_config ''svc'')) ''sms'' [''sms.send.otp'']) resp"
    if "issue id (\<lambda>t. t - t mod second) (find_any (\<lambda>_ _. Inl ErrClientNotFound)) (sv_tokens demo_ed25519_server) 0 ?random
      (asked ''svc'' (cc_ClientSecret (demo_client_config ''svc'')) ''sms'' [''sms.send.otp'']) = Inr resp" for resp
    using that demo_ed25519_issues
    by (auto simp: plain_request_def demo_ed25519_simps asked_def demo_client_config_def demo_response_def)
  let ?R = "Require (reference_parser demo_token_view) (ev_algs demo_jwt_env) (60 * second) g [''sms.send.otp'']
      demo_context"
  have "cx_next ?R \<and> (\<exists>cl. MustClaims ?R = Inr cl \<and> cl_ClientID cl = ''svc'' \<and>
      cl_Scope cl = tr_Scope (ct_response demo_client_token))"
    by (rule fresh_token_accepted[OF demo_ed25519_build demo_ed25519_facts(1,2) demo_signing_laws reference_parser_laws
          demo_ed25519_facts(5) _ demo_ed25519_facts(4) _ demo_client_ready[OF demo_ed25519_limit, of "''svc''"] _ _ _ plain _ demo_exchange _ demo_client_token_fresh(1) _ sent
          demo_readable[folded demo_ed25519_facts(3)] _ commit _ g[unfolded demo_guard_builder_def algs[symmetric]] _ _ _ _ covered])
      (use demo_exchange_fits demo_client_token_fresh(2) in \<open>simp_all add: demo_ed25519_simps trim demo_client_config_def demo_remote_def
        demo_remote_builder_def demo_jwks_wire_def demo_context_def minute_def second_def\<close>)
  then show ?thesis using g unfolding algs by (auto simp: demo_client_token_def demo_response_def)
qed

end
