(* ===== verification/Demo_Services.thy ===== *)
theory Demo_Services
  imports Full_Chain
begin

text \<open>
  The two example programs, \<open>examples/gin-billing-service\<close> and \<open>examples/gin-orders-client\<close>: a resource
  server that creates invoices, and a client that orders one.

  The environment of a program is a map of its variables. The billing service's route
  \<open>POST /invoices\<close> is the guard, then the handler on the context the guard leaves behind; binding
  the JSON body is the parameter \<open>bind\<close>. Of the client, \<open>base\<close> is the round tripper of
  \<open>http.DefaultClient\<close>, whose answer is an error or a status and the outcome of reading the body.
\<close>

definition getenv :: "(string \<rightharpoonup> string) \<Rightarrow> string \<Rightarrow> string \<Rightarrow> string" where
  "getenv env key fallback =
     (case env key of None \<Rightarrow> fallback | Some val \<Rightarrow> if val \<noteq> [] then val else fallback)"

subsection \<open>The billing service\<close>

definition billing_guard :: "(string \<rightharpoonup> string) \<Rightarrow> ('q, 'j, 'h) guard_builder option" where
  "billing_guard env =
     (let issuer = getenv env ''ORIONIS_ISSUER'' ''http://localhost:8080'';
          jwksURL = getenv env ''ORIONIS_JWKS_URL'' (issuer @ ''/.well-known/jwks.json'');
          audience = getenv env ''ORIONIS_AUDIENCE'' ''billing-api'' in
      gb_JWKS (gb_Audience (gb_Issuer gb_New issuer) audience) jwksURL)"

datatype 'b invoice_answer = InvoiceBadRequest 'b | InvoiceCreated string string int string string

text \<open>The handler: a body that binds is an order and an amount. \<open>MustClaims\<close> panics without claims.\<close>

definition invoices_handler ::
  "'b + string \<times> int \<Rightarrow> gin_context \<Rightarrow> claims_panic panic + 'b invoice_answer" where
  "invoices_handler bind c =
     (case MustClaims c of
        Inl panic \<Rightarrow> Inl panic
      | Inr claims \<Rightarrow>
          (case bind of
             Inl err \<Rightarrow> Inr (InvoiceBadRequest err)
           | Inr (order, amount) \<Rightarrow>
               Inr (InvoiceCreated ''inv_demo_001'' order amount (cl_ClientID claims) (cl_Scope claims))))"

text \<open>The route: nothing of the handler runs unless the guard continued the chain.\<close>

datatype 'b invoices_outcome = Refused gin_context | Handled "claims_panic panic + 'b invoice_answer"

definition post_invoices ::
  "('q, 'j) jwt_parser \<Rightarrow> jwt_algs \<Rightarrow> time \<Rightarrow> ('q, 'j) guard \<Rightarrow> 'b + string \<times> int \<Rightarrow> gin_context \<Rightarrow>
     'b invoices_outcome" where
  "post_invoices parse A now guard bind c =
     (let c' = Require parse A now guard [''billing.invoice.create''] c in
      if cx_next c' then Handled (invoices_handler bind c') else Refused c')"

text \<open>\<open>GET /healthz\<close>, in front of which there is no guard.\<close>

definition billing_healthz :: "nat \<times> (string \<rightharpoonup> string)" where
  "billing_healthz = (200, [''status'' \<mapsto> ''ok'', ''service'' \<mapsto> ''billing-api''])"

text \<open>\<open>run\<close> up to \<open>r.Run\<close>: the guard of the engine and the address it listens on.\<close>

definition billing_run where
  "billing_run remote A env =
     (case gb_Build remote A (billing_guard env) of
        Inl err \<Rightarrow> Inl err
      | Inr guard \<Rightarrow> Inr (guard, getenv env ''BILLING_LISTEN'' '':8081''))"

subsection \<open>The orders client\<close>

definition orders_client :: "(string \<rightharpoonup> string) \<Rightarrow> ('h, 'e) client_builder" where
  "orders_client env =
     cb_For
       (cb_As (cb_TokenURL cb_New (getenv env ''ORIONIS_TOKEN_URL'' ''http://localhost:8080/oauth/token''))
          (getenv env ''ORIONIS_CLIENT_ID'' ''orders-service'')
          (getenv env ''ORIONIS_CLIENT_SECRET'' ''orders-local-secret-change-me''))
       ''billing-api'' [''billing.invoice.create'']"

datatype ('e, 'r) orders_error =
    CreateClient client_config_error | CreateRequest 'e | CallBilling "'r transport_error" | CallFailed 'e
  | ReadBilling 'e

definition orders_body :: string where
  "orders_body = ''{\"order_id\":\"ord_demo_001\",\"amount\":1500}''"

definition orders_run ::
  "'h \<Rightarrow> 'e \<Rightarrow> (('h, 'e) token_provider \<Rightarrow> string \<Rightarrow> string list \<Rightarrow> 'r + token_response) \<Rightarrow>
     (string \<Rightarrow> string \<Rightarrow> string \<Rightarrow> 'e + out_request) \<Rightarrow> (out_request \<Rightarrow> 'e + nat \<times> ('e + 'y)) \<Rightarrow>
     (string \<rightharpoonup> string) \<Rightarrow> ('e, 'r) orders_error + nat \<times> 'y" where
  "orders_run defaultClient missing token_of new_request base env =
     (let billingURL = getenv env ''BILLING_URL'' ''http://localhost:8081/invoices'' in
      case cb_BuildHTTPClient defaultClient missing token_of (orders_client env) base of
        Inl err \<Rightarrow> Inl (CreateClient err)
      | Inr hc \<Rightarrow>
          (case new_request ''POST'' billingURL orders_body of
             Inl err \<Rightarrow> Inl (CreateRequest err)
           | Inr req0 \<Rightarrow>
               let req = req0\<lparr>or_header := (or_header req0)(''Content-Type'' \<mapsto> ''application/json'')\<rparr> in
               (case fst (RoundTrip (Some hc) (Some req)) of
                  Inl err \<Rightarrow> Inl (CallBilling err)
                | Inr (Inl err) \<Rightarrow> Inl (CallFailed err)
                | Inr (Inr (status, body)) \<Rightarrow>
                    (case body of Inl err \<Rightarrow> Inl (ReadBilling err) | Inr raw \<Rightarrow> Inr (status, raw)))))"

subsection \<open>The order over the wire\<close>

text \<open>The request as the billing service's engine sees it, and the status of each outcome; Gin's recovery
  middleware, part of \<open>gin.Default\<close>, answers a panic with status 500.\<close>

definition incoming :: "out_request \<Rightarrow> gin_context" where
  "incoming sent =
     \<lparr>cx_authorization = (case or_header sent ''Authorization'' of None \<Rightarrow> [] | Some h \<Rightarrow> h),
      cx_values = Map.empty, cx_aborted = False, cx_next = False, cx_answer = None\<rparr>"

definition invoices_status :: "'b invoices_outcome \<Rightarrow> nat" where
  "invoices_status out =
     (case out of
        Refused c \<Rightarrow> (case cx_answer c of Some (status, _, _) \<Rightarrow> status | None \<Rightarrow> 200)
      | Handled (Inl _) \<Rightarrow> 500
      | Handled (Inr (InvoiceBadRequest _)) \<Rightarrow> 400
      | Handled (Inr (InvoiceCreated _ _ _ _ _)) \<Rightarrow> 201)"

definition billing_net ::
  "('q, 'j) jwt_parser \<Rightarrow> jwt_algs \<Rightarrow> time \<Rightarrow> ('q, 'j) guard \<Rightarrow> 'b + string \<times> int \<Rightarrow> out_request \<Rightarrow>
     'e + nat \<times> ('e + 'b invoices_outcome)" where
  "billing_net parse A now g bind sent =
     (let out = post_invoices parse A now g bind (incoming sent) in Inr (invoices_status out, Inr out))"

text \<open>Behind the guard the handler always finds its claims: \<open>MustClaims\<close> does not panic.\<close>

lemma invoices_never_panic:
  assumes "handler_ok (g_errorHandler g)" "\<not> cx_next c"
  shows "post_invoices parse A now g bind c \<noteq> Handled (Inl panic)"
proof -
  let ?cfg = "\<lparr>gc_Verifier = g_verifier g, gc_RequiredScopes = [''billing.invoice.create''],
      gc_ClaimsKey = g_claimsKey g, gc_ErrorHandler = Some (g_errorHandler g)\<rparr>"
  have R: "Require parse A now g [''billing.invoice.create''] c = middlewareFromConfig parse A now ?cfg c"
    by (simp add: Require_def firstScopes_def)
  show ?thesis
  proof (cases "cx_next (middlewareFromConfig parse A now ?cfg c)")
    case True
    then obtain cl where "passes parse A now (g_verifier g) [''billing.invoice.create''] (cx_authorization c) cl"
      using middleware_next[of ?cfg "g_errorHandler g" c parse A now] assms by auto
    then have "Claims (middlewareFromConfig parse A now ?cfg c) = Some cl"
      using middleware_passes[of parse A now ?cfg c cl] by (simp add: Claims_def)
    then show ?thesis
      by (simp add: post_invoices_def R Let_def invoices_handler_def MustClaims_def split: sum.split prod.split)
  qed (simp add: post_invoices_def R Let_def)
qed

text \<open>The client the demo builds when no variable is set.\<close>

definition orders_config :: "('h, 'e) client_config" where
  "orders_config = \<lparr>cc_TokenURL = ''http://localhost:8080/oauth/token'', cc_ClientID = ''orders-service'',
     cc_ClientSecret = ''orders-local-secret-change-me'', cc_Audience = ''billing-api'',
     cc_Scopes = [''billing.invoice.create''], cc_HTTPClient = None, cc_Authenticator = None, cc_RefreshSkew = 0\<rparr>"

lemma orders_client_default: "orders_client Map.empty = Some orders_config"
proof -
  have "TrimSpace ''http://localhost:8080/oauth/token'' = ''http://localhost:8080/oauth/token''"
    "TrimSpace ''orders-service'' = ''orders-service''" "TrimSpace ''billing-api'' = ''billing-api''" by code_simp+
  then show ?thesis
    by (simp add: orders_client_def orders_config_def getenv_def cb_For_def cb_As_def cb_ClientSecret_def cb_TokenURL_def
        cb_New_def cb_Audience_def cb_Scopes_def)
qed

lemma orders_build:
  "cb_Build hc missing (orders_client Map.empty) =
     Inr \<lparr>tp_tokenURL = ''http://localhost:8080/oauth/token'', tp_audience = ''billing-api'',
       tp_scopes = [''billing.invoice.create''], tp_httpClient = hc,
       tp_authenticator = ClientSecretBasic missing ''orders-service'' ''orders-local-secret-change-me'',
       tp_refreshSkew = defaultRefreshSkew\<rparr>"
proof -
  have "TrimSpace ''http://localhost:8080/oauth/token'' = ''http://localhost:8080/oauth/token''"
    "TrimSpace ''orders-service'' = ''orders-service''" "TrimSpace ''billing-api'' = ''billing-api''"
    "NormalizeScopes [''billing.invoice.create''] = [''billing.invoice.create'']" by code_simp+
  then show ?thesis
    by (simp add: orders_client_default cb_Build_def buildProvider_def client_normalizeConfig_def orders_config_def)
qed

lemma orders_ready:
  assumes "wire_laws W" "cb_Build hc missing (orders_client Map.empty) = Inr p" "100 \<le> sv_maxTokenRequestBody sv"
    and "hw_new_request W ''POST'' ''http://localhost:8080/oauth/token''
      (Encode (token_form ''billing-api'' [''billing.invoice.create''])) = Inr wreq"
  shows "client_ready W sv orders_config p ''billing-api'' [''billing.invoice.create'']"
proof -
  have p: "buildProvider hc missing orders_config = Inr p" "tp_tokenURL p = ''http://localhost:8080/oauth/token''"
    "tp_audience p = ''billing-api''" "tp_scopes p = [''billing.invoice.create'']"
    using assms(2) orders_build[of hc missing] by (auto simp: orders_client_default cb_Build_def)
  have "TrimSpace ''billing-api'' = ''billing-api''" "RawQuery ''http://localhost:8080/oauth/token'' = []"
    "NormalizeScopes [''billing.invoice.create''] = [''billing.invoice.create'']" by code_simp+
  moreover have "Encode (token_form ''billing-api'' [''billing.invoice.create'']) =
      ''audience=billing-api&grant_type=client_credentials&scope=billing.invoice.create''" by code_simp
  moreover from calculation have "target p [] [] = Some (''billing-api'', [''billing.invoice.create''])"
    by (simp add: target_def p)
  ultimately show ?thesis
    unfolding client_ready_def p(2) using assms(1,3,4) p(1) by (auto simp: orders_config_def)
qed

text \<open>A token issued for one concrete scope carries that scope.\<close>

lemma resolve_single:
  assumes "resolveRequestedScopes [s] allowed = Some issued" "wildcard_free s"
  shows "issued = NormalizeScopes [s]"
  using assms by (auto simp: resolveRequestedScopes_def go_simps Let_def split: if_splits)

lemma issued_single_scope:
  assumes "issue sha256 numeric_date find_client s now random request = Inr resp"
    and "rq_scopes request = [scope]" "wildcard_free scope" "NormalizeScopes [scope] = [scope]"
  shows "tr_Scope resp = scope"
proof -
  have "ScopeString [scope] = scope" using assms(4) by (simp add: ScopeString_def)
  then show ?thesis
    using assms(1-4) by (auto simp: issue_Inr issueAccessToken_Inr requested_scopes_def dest!: resolve_single)
qed

lemma orders_run_answered:
  assumes "cb_Build hc missing (orders_client Map.empty) = Inr p" "token_of p [] [] = Inr resp"
    and "new_request ''POST'' ''http://localhost:8081/invoices'' orders_body = Inr req0"
  shows "\<exists>sent. or_header sent ''Authorization'' = Some (''Bearer '' @ tr_AccessToken resp) \<and>
    orders_run hc missing token_of new_request (billing_net parse A now g bind) Map.empty =
      Inr (invoices_status (post_invoices parse A now g bind (incoming sent)), post_invoices parse A now g bind (incoming sent))"
proof -
  let ?req = "req0\<lparr>or_header := (or_header req0)(''Content-Type'' \<mapsto> ''application/json'')\<rparr>"
  let ?sent = "?req\<lparr>or_header := (or_header ?req)(''Authorization'' \<mapsto> ''Bearer '' @ tr_AccessToken resp)\<rparr>"
  have none: "NormalizeScopes [] = []" by code_simp
  have "orders_run hc missing token_of new_request (billing_net parse A now g bind) Map.empty =
      Inr (invoices_status (post_invoices parse A now g bind (incoming ?sent)), post_invoices parse A now g bind (incoming ?sent))"
    by (simp add: orders_run_def cb_BuildHTTPClient_def assms getenv_def NewHTTPClient_def RoundTrip_decides none
        billing_net_def Let_def)
  then show ?thesis by (intro exI[of _ ?sent]) simp
qed

text \<open>What the server issues for the client's request.\<close>

lemma order_issued:
  fixes fc :: "'s \<Rightarrow> string \<Rightarrow> 'e store_error + client"
  assumes "issue sha256 numeric_date (find_any fc) (sv_tokens sv) t0 random
      (asked ''orders-service'' secret ''billing-api'' [''billing.invoice.create'']) = Inr resp"
    and "buildServer tn scfg = Inr sv" "sv_issuer sv = ''http://localhost:8080''"
  shows "tr_Scope resp = ''billing.invoice.create''"
    and "plain_request (sv_tokens sv) (asked ''orders-service'' secret ''billing-api'' [''billing.invoice.create'']) resp"
proof -
  have scope: "wildcard_free ''billing.invoice.create''"
    "NormalizeScopes [''billing.invoice.create''] = [''billing.invoice.create'']" by code_simp+
  show "tr_Scope resp = ''billing.invoice.create''"
    using issued_single_scope[OF assms(1) _ scope] by (simp add: asked_def)
  moreover have "ts_issuer (sv_tokens sv) = ''http://localhost:8080''"
    using buildServer_ok[OF assms(2)] assms(3) unfolding server_ok_def by simp
  ultimately show "plain_request (sv_tokens sv) (asked ''orders-service'' secret ''billing-api'' [''billing.invoice.create'']) resp"
    by (simp add: plain_request_def asked_def)
qed

lemma billing_run_guard:
  "billing_run remote A Map.empty = Inr (g, listen) \<Longrightarrow>
   gb_Build remote A (gb_JWKS (gb_Audience (gb_Issuer gb_New ''http://localhost:8080'') ''billing-api'')
     ''http://localhost:8080/.well-known/jwks.json'') = Inr g"
  by (auto simp: billing_run_def billing_guard_def getenv_def split: sum.splits)

lemma invoice_created:
  assumes "cx_next (Require parse A now g [''billing.invoice.create''] c)"
    and "MustClaims (Require parse A now g [''billing.invoice.create''] c) = Inr cl"
  shows "post_invoices parse A now g (Inr (order, amount)) c =
    Handled (Inr (InvoiceCreated ''inv_demo_001'' order amount (cl_ClientID cl) (cl_Scope cl)))"
  using assms by (simp add: post_invoices_def invoices_handler_def Let_def)

subsection \<open>Property\<close>


subsection \<open>A server for the examples\<close>

text \<open>The clients of \<open>config/orionis.example.yaml\<close>, a server for them with one key, and a library that signs the
  one token of the example.\<close>

definition orders_registration :: client where
  "orders_registration = \<lparr>c_ID = ''orders-service'', c_Secrets = [''orders-local-secret-change-me''],
     c_SecretSHA256Hex = [], c_AllowedAudiences = [''billing-api'', ''dispatch-api''],
     c_AllowedScopes = [''billing.invoice.create'', ''billing.invoice.read'', ''dispatch.order.read''],
     c_DefaultScopes = [''billing.invoice.read''], c_Disabled = False\<rparr>"

definition billing_registration :: client where
  "billing_registration = \<lparr>c_ID = ''billing-service'', c_Secrets = [''billing-local-secret-change-me''],
     c_SecretSHA256Hex = [], c_AllowedAudiences = [''dispatch-api''], c_AllowedScopes = [''dispatch.order.read''],
     c_DefaultScopes = [''dispatch.order.read''], c_Disabled = False\<rparr>"

definition orders_claims :: claims where
  "orders_claims =
     \<lparr>cl_Issuer = ''http://localhost:8080'', cl_Subject = ''orders-service'', cl_Audience = [''billing-api''],
      cl_ExpiresAt = Some (15 * minute), cl_NotBefore = Some 0, cl_IssuedAt = Some 0,
      cl_ID = RawURL_EncodeToString ''0123456789abcdef'', cl_ClientID = ''orders-service'',
      cl_Scope = ''billing.invoice.create'', cl_TokenUse = TokenUseAccess\<rparr>"

definition orders_env :: "(string \<rightharpoonup> string, unit) auth_env" where
  "orders_env = demo_env\<lparr>ev_jwt_sign := (\<lambda>alg kid cl priv. if kid = ''k1'' \<and> cl = orders_claims then Inr ''tok'' else Inl ())\<rparr>"

definition orders_view :: jwt_view where
  "orders_view = \<lparr>jv_kid = (\<lambda>t. Some ''k1''), jv_alg = (\<lambda>t. ''EdDSA''), jv_claims = (\<lambda>t. Some orders_claims),
     jv_signature = (\<lambda>t alg pk. t = ''tok'' \<and> pk = Ed25519PublicKey (replicate 32 CHR ''k''))\<rparr>"

definition orders_server_config :: "(unit, unit signer_error, nat) config" where
  "orders_server_config = zero_config\<lparr>cf_Issuer := ''http://localhost:8080'',
     cf_Signers := [Some (ed25519_as_signer orders_env demo_key)],
     cf_Clients := [orders_registration, billing_registration]\<rparr>"

definition orders_server :: "(unit, unit signer_error, nat) server" where
  "orders_server = server_of (normalizeConfig 0 orders_server_config) (ed25519_as_signer orders_env demo_key)"

lemma orders_signing_laws: "signing_laws (\<lambda>priv. priv = replicate 64 CHR ''k'') orders_view orders_env"
proof -
  have "space_free ''tok''" by code_simp
  then show ?thesis
    by (simp add: signing_laws_def orders_view_def orders_env_def demo_env_def demo_algs_def demo_key_pair)
qed

lemma orders_server_build: "buildServer 0 orders_server_config = Inr orders_server"
proof -
  have "trim_issuer ''http://localhost:8080'' = ''http://localhost:8080''" by code_simp
  moreover have "client_ok (client_Normalize orders_registration)"
    by (rule client_Validate_None[THEN iffD1]) code_simp
  moreover have "client_ok (client_Normalize billing_registration)"
    by (rule client_Validate_None[THEN iffD1]) code_simp
  moreover have "c_ID (client_Normalize orders_registration) = ''orders-service''"
    "c_ID (client_Normalize billing_registration) = ''billing-service''" by code_simp+
  moreover have "TrimSpace ''k1'' = ''k1''" by code_simp
  ultimately have "config_ok (normalizeConfig 0 orders_server_config) [ed25519_as_signer orders_env demo_key]"
    by (simp add: config_ok_def orders_server_config_def zero_config_def demo_key_def)
  then show ?thesis
    unfolding buildServer_Inr
    by (intro exI conjI)
      (auto simp: orders_server_def active_of_def orders_server_config_def zero_config_def)
qed

lemma orders_server_simps:
  "ts_issuer (sv_tokens orders_server) = ''http://localhost:8080''" "sv_issuer orders_server = ''http://localhost:8080''"
  "ts_accessTokenTTL (sv_tokens orders_server) = 15 * minute"
  "ts_signer (sv_tokens orders_server) = ed25519_as_signer orders_env demo_key"
  "ts_store (sv_tokens orders_server) =
     Inr (NewMemoryClientStore [client_Normalize orders_registration, client_Normalize billing_registration])"
  "sv_signers orders_server = [Some (ed25519_as_signer orders_env demo_key)]"
  "sv_maxTokenRequestBody orders_server = 1048576" "cf_Store orders_server_config = None"
proof -
  have "trim_issuer ''http://localhost:8080'' = ''http://localhost:8080''" by code_simp
  then show "ts_issuer (sv_tokens orders_server) = ''http://localhost:8080''"
    "sv_issuer orders_server = ''http://localhost:8080''" "ts_accessTokenTTL (sv_tokens orders_server) = 15 * minute"
    "ts_signer (sv_tokens orders_server) = ed25519_as_signer orders_env demo_key"
    "ts_store (sv_tokens orders_server) =
      Inr (NewMemoryClientStore [client_Normalize orders_registration, client_Normalize billing_registration])"
    "sv_signers orders_server = [Some (ed25519_as_signer orders_env demo_key)]"
    "sv_maxTokenRequestBody orders_server = 1048576" "cf_Store orders_server_config = None"
    by (simp_all add: orders_server_def server_of_def orders_server_config_def zero_config_def
        normalizeConfig_def defaultAccessTokenTTL_def DefaultMaxTokenRequestBody_def)
qed

definition orders_response :: token_response where
  "orders_response = \<lparr>tr_AccessToken = ''tok'', tr_TokenType = ''Bearer'', tr_ExpiresIn = 900,
     tr_Scope = ''billing.invoice.create''\<rparr>"

definition orders_token :: cached_token where
  "orders_token = \<lparr>ct_response = orders_response, ct_expiresAt = 901 * second\<rparr>"

lemma orders_issued:
  "issue id (\<lambda>t. t - t mod second) (find_any (\<lambda>_ _. Inl ErrClientNotFound)) (sv_tokens orders_server) 0
     (Inr ''0123456789abcdef'')
     (asked ''orders-service'' ''orders-local-secret-change-me'' ''billing-api'' [''billing.invoice.create'']) =
   (Inr orders_response :: unit signer_error issue_error + token_response)"
proof -
  let ?c = "client_Normalize orders_registration"
  have "(FindClient (NewMemoryClientStore [client_Normalize orders_registration, client_Normalize billing_registration])
      ''orders-service'' :: unit signer_error store_error + client) = Inr ?c" by code_simp
  moreover have "VerifySecret id ?c ''orders-local-secret-change-me''" "\<not> c_Disabled ?c" "client_Normalize ?c = ?c"
    by code_simp+
  ultimately have auth: "authenticate id (find_any (\<lambda>_ _. Inl ErrClientNotFound)) (ts_store (sv_tokens orders_server))
      ''orders-service'' ''orders-local-secret-change-me'' = (Inr ?c :: unit signer_error store_error + client)"
    unfolding authenticate_Inr orders_server_simps by (simp add: find_any_def)
  have code: "resolveRequestedScopes [''billing.invoice.create''] (c_AllowedScopes ?c) = Some [''billing.invoice.create'']"
    "TrimSpace ''billing-api'' \<in> set (c_AllowedAudiences ?c)" "ScopeString [''billing.invoice.create''] = ''billing.invoice.create''"
    "TrimSpace (c_ID orders_registration) = ''orders-service''" by code_simp+
  have ttl: "to_int64 (Seconds (15 * minute)) = 900"
    using to_int64_Seconds[of "15 * minute"] by (simp add: minute_def second_def)
  have "new_claims (\<lambda>t. t - t mod second) (sv_tokens orders_server) 0 (RawURL_EncodeToString ''0123456789abcdef'')
      ?c ''billing-api'' [''billing.invoice.create''] = orders_claims"
    by (simp add: new_claims_def orders_claims_def code(3,4) orders_server_simps time_add_def minute_def second_def)
  moreover have "sg_Sign (ts_signer (sv_tokens orders_server)) orders_claims = Inr ''tok''"
    by (simp add: orders_server_simps ed25519_as_signer_def Sign_def demo_key_def ed25519_PrivateKeySize_def orders_env_def)
  ultimately have "issueAccessToken (\<lambda>t. t - t mod second) (sv_tokens orders_server) 0 (Inr ''0123456789abcdef'')
      ?c ''billing-api'' [''billing.invoice.create''] = Inr orders_response"
    by (simp add: issueAccessToken_Inr orders_response_def orders_server_simps code(3) ttl TokenTypeBearer_def)
  then show ?thesis
    unfolding issue_Inr using auth code(1,2) by (simp add: asked_def requested_scopes_def)
qed

lemma orders_exchange_fits:
  "fits demo_http_wire (ht_body (TokenHTTP id (\<lambda>t. t - t mod second)
     (\<lambda>_ _. Inl ErrClientNotFound :: unit signer_error store_error + client) orders_server 0
     (Inr ''0123456789abcdef'') (http_of (hw_media demo_http_wire)
     (client_request ''http://localhost:8080/oauth/token'' ''orders-service'' ''orders-local-secret-change-me''
        ''billing-api'' [''billing.invoice.create'']))))"
proof -
  have aim: "RawQuery ''http://localhost:8080/oauth/token'' = []" "TrimSpace ''billing-api'' = ''billing-api''"
    "''billing-api'' \<noteq> []" "NormalizeScopes [''billing.invoice.create''] = [''billing.invoice.create'']"
    "TrimSpace ''orders-service'' = ''orders-service''" by code_simp+
  have "Encode (token_form ''billing-api'' [''billing.invoice.create'']) =
      ''audience=billing-api&grant_type=client_credentials&scope=billing.invoice.create''" by code_simp
  then have limit: "int (length (Encode (token_form ''billing-api'' [''billing.invoice.create'']))) \<le>
      sv_maxTokenRequestBody orders_server"
    by (simp add: orders_server_simps)
  have basic: "BasicAuth (tq_header (client_request ''http://localhost:8080/oauth/token'' ''orders-service''
      ''orders-local-secret-change-me'' ''billing-api'' [''billing.invoice.create''])) =
      Some (''orders-service'', ''orders-local-secret-change-me'')" by (rule BasicAuth_client_request) simp
  note http = TokenHTTP_client_request[OF demo_http_wire_laws aim(1) limit aim(2-4) basic]
  have escaped: "QueryEscape ''tok'' = ''tok''" "QueryEscape ''Bearer'' = ''Bearer''"
    "QueryEscape ''billing.invoice.create'' = ''billing.invoice.create''" by code_simp+
  show ?thesis
    unfolding http aim(5) orders_issued
    by (simp add: fits_def demo_http_wire_def demo_json_of_def orders_response_def escaped unary_def maxTokenResponseBody_def)
qed

definition orders_provider :: "(unit, unit) token_provider" where
  "orders_provider = \<lparr>tp_tokenURL = ''http://localhost:8080/oauth/token'', tp_audience = ''billing-api'',
     tp_scopes = [''billing.invoice.create''], tp_httpClient = (),
     tp_authenticator = ClientSecretBasic () ''orders-service'' ''orders-local-secret-change-me'',
     tp_refreshSkew = defaultRefreshSkew\<rparr>"

lemma orders_provider_build: "cb_Build () () (orders_client Map.empty) = Inr orders_provider"
  by (simp add: orders_build orders_provider_def)

lemma orders_exchange:
  "requestToken (served_net demo_http_wire (TokenHTTP id (\<lambda>t. t - t mod second)
     (\<lambda>_ _. Inl ErrClientNotFound :: unit signer_error store_error + client) orders_server 0
     (Inr ''0123456789abcdef''))) orders_provider second ''billing-api'' [''billing.invoice.create''] = Inr orders_token"
proof -
  let ?cfg = "orders_config :: (unit, unit) client_config"
  have id: "TrimSpace ''orders-service'' = ''orders-service''" by code_simp
  have ready: "client_ready demo_http_wire orders_server ?cfg orders_provider ''billing-api'' [''billing.invoice.create'']"
    by (rule orders_ready[OF demo_http_wire_laws orders_provider_build]) (simp_all add: orders_server_simps demo_http_wire_def)
  have answer: "issue id (\<lambda>t. t - t mod second) (find_any (\<lambda>_ _. Inl ErrClientNotFound)) (sv_tokens orders_server) 0
      (Inr ''0123456789abcdef'')
      (asked ''orders-service'' (cc_ClientSecret ?cfg) ''billing-api'' [''billing.invoice.create'']) =
    (Inr orders_response :: unit signer_error issue_error + token_response)"
    using orders_issued by (simp add: orders_config_def)
  have "requestToken (served_net demo_http_wire (TokenHTTP id (\<lambda>t. t - t mod second)
      (\<lambda>_ _. Inl ErrClientNotFound :: unit signer_error store_error + client) orders_server 0
      (Inr ''0123456789abcdef''))) orders_provider second ''billing-api'' [''billing.invoice.create''] =
    client_outcome second (Inr orders_response :: unit signer_error issue_error + token_response)"
    by (rule exchange_of_ready_client[OF ready _ _ _ answer])
      (use orders_exchange_fits in \<open>auto simp: id orders_config_def orders_provider_def wire_response_def
        orders_response_def min_int64_def max_int64_def\<close>)
  moreover have "wrap64 (900 * second) = 900 * second"
    by (rule wrap64_id) (simp_all add: second_def min_int64_def max_int64_def)
  ultimately show ?thesis by (simp add: client_outcome_def orders_response_def orders_token_def)
qed

text \<open>The keys are fetched at two seconds, the order is placed at five.\<close>

definition orders_fetch :: "(unit, string) remote_provider \<times> string remote_error option" where
  "orders_fetch = refresh_commit (=) AliveCtx (2 * second)
     (fetch demo_algs AliveCtx (ask_jwks (served_jwks demo_jwks_wire (JWKSHTTP orders_server))
        ''http://localhost:8080/.well-known/jwks.json'')) demo_remote"

definition orders_keys ::
  "string \<Rightarrow> unit option \<Rightarrow> duration \<Rightarrow> duration \<Rightarrow> unit + (string \<Rightarrow> string \<Rightarrow> string remote_error key_error + public_key)" where
  "orders_keys url hc every stale = Inr (remote_answer (fst orders_fetch) (5 * second))"

definition orders_request :: "string \<Rightarrow> string \<Rightarrow> string \<Rightarrow> unit + out_request" where
  "orders_request verb url body = Inr \<lparr>or_header = Map.empty, or_body_open = True\<rparr>"


end
