(* ===== verification/Auth_Main.thy ===== *)
theory Auth_Main
  imports Auth_App
begin

text \<open>
  The authorization server as a program: loading the configuration (\<open>internal/authapp/config.go\<close>,
  \<open>config_aws.go\<close>, \<open>config_decoder.go\<close>, \<open>config_yaml.go\<close>) and starting and stopping
  (\<open>cmd/orionis-auth/main.go\<close>, \<open>http_server.go\<close>).

  Parameters: the JSON and YAML libraries (\<open>config_codec\<close>), the AppConfig loader of Confucius, the
  environment and the files of \<open>auth_env\<close>, and what happens while the HTTP server runs
  (\<open>serve_event\<close>). Command-line flags are those of the package \<open>flag\<close>, for its one string flag.
  Logging and the process' exit code are left out.
\<close>

subsection \<open>Decoding\<close>

text \<open>A YAML node: its tag, its children and the rest of what the library keeps.\<close>

datatype 'y yaml_node = YamlNode (yn_tag: string) (yn_info: 'y) (yn_content: "'y yaml_node list")

text \<open>One call of the YAML decoder's \<open>Decode\<close> on the bytes that are left.\<close>

datatype ('y, 'e) yaml_event = YamlEOF | YamlFails 'e | YamlDocument "'y yaml_node" string

record ('y, 'v, 'e) config_codec =
  json_Valid :: "string \<Rightarrow> bool"
  json_Unmarshal :: "string \<Rightarrow> 'e + wire_config"
  json_Marshal :: "'v \<Rightarrow> 'e + string"
  yaml_Decode :: "string \<Rightarrow> ('y, 'e) yaml_event"
  yaml_value :: "'y yaml_node \<Rightarrow> 'e + 'v"

datatype 'e decode_error =
    JsonError 'e | YamlError 'e | YamlEmpty | TrailingYaml 'e | SeveralDocuments | ValueError 'e | MarshalError 'e

fun preserveYAMLStrings :: "'y yaml_node \<Rightarrow> 'y yaml_node" where
  "preserveYAMLStrings (YamlNode tag info content) =
     YamlNode (if tag = ''!!timestamp'' then ''!!str'' else tag) info (map preserveYAMLStrings content)"

definition unmarshal :: "('y, 'v, 'e) config_codec \<Rightarrow> string \<Rightarrow> 'e decode_error + wire_config" where
  "unmarshal codec raw = (case json_Unmarshal codec raw of Inl err \<Rightarrow> Inl (JsonError err) | Inr w \<Rightarrow> Inr w)"

definition decodeYAMLConfig :: "('y, 'v, 'e) config_codec \<Rightarrow> string \<Rightarrow> 'e decode_error + wire_config" where
  "decodeYAMLConfig codec raw =
     (case yaml_Decode codec raw of
        YamlEOF \<Rightarrow> Inl YamlEmpty
      | YamlFails err \<Rightarrow> Inl (YamlError err)
      | YamlDocument document rest \<Rightarrow>
          (case yaml_Decode codec rest of
             YamlFails err \<Rightarrow> Inl (TrailingYaml err)
           | YamlDocument _ _ \<Rightarrow> Inl SeveralDocuments
           | YamlEOF \<Rightarrow>
               (case yaml_value codec (preserveYAMLStrings document) of
                  Inl err \<Rightarrow> Inl (ValueError err)
                | Inr v \<Rightarrow>
                    (case json_Marshal codec v of
                       Inl err \<Rightarrow> Inl (MarshalError err)
                     | Inr raw \<Rightarrow> unmarshal codec raw))))"

definition byte_order_mark :: string where "byte_order_mark = [CHR 0xEF, CHR 0xBB, CHR 0xBF]"

definition decodeConfig :: "('y, 'v, 'e) config_codec \<Rightarrow> string \<Rightarrow> 'e decode_error + wire_config" where
  "decodeConfig codec raw =
     (let raw = TrimPrefix raw byte_order_mark in
      if json_Valid codec raw then unmarshal codec raw else decodeYAMLConfig codec raw)"

subsection \<open>AWS AppConfig\<close>

record aws_options =
  ao_region :: string
  ao_application :: string
  ao_environment :: string
  ao_profile :: string

definition env_trimmed :: "('f, 'e) auth_env \<Rightarrow> string \<Rightarrow> string" where
  "env_trimmed env name = TrimSpace (ev_Getenv env name)"

text \<open>The loop over the three required variables, in its order.\<close>

definition awsConfigOptionsFromEnv :: "('f, 'e) auth_env \<Rightarrow> string + aws_options" where
  "awsConfigOptionsFromEnv env =
     (let region = env_trimmed env ''AWS_REGION'';
          region = (if region = [] then env_trimmed env ''AWS_DEFAULT_REGION'' else region);
          region = (if region = [] then ''eu-central-1'' else region);
          application = env_trimmed env ''AWS_APPCONFIG_APPLICATION'';
          environment = env_trimmed env ''AWS_APPCONFIG_ENVIRONMENT'';
          profile = env_trimmed env ''AWS_APPCONFIG_PROFILE'' in
      if application = [] then Inl ''AWS_APPCONFIG_APPLICATION''
      else if environment = [] then Inl ''AWS_APPCONFIG_ENVIRONMENT''
      else if profile = [] then Inl ''AWS_APPCONFIG_PROFILE''
      else Inr \<lparr>ao_region = region, ao_application = application, ao_environment = environment,
                ao_profile = profile\<rparr>)"

text \<open>A context as far as its deadline goes: the time that is left, if there is a limit.\<close>

type_synonym deadline = "duration option"

definition WithTimeout :: "deadline \<Rightarrow> duration \<Rightarrow> deadline" where
  "WithTimeout ctx d = (case ctx of None \<Rightarrow> Some d | Some left \<Rightarrow> Some (min left d))"

definition appConfigStartupTimeout :: duration where "appConfigStartupTimeout = 30 * second"

text \<open>\<open>loader options deadline decode\<close>: the library's loader, with the decoder it is given.\<close>

type_synonym ('d, 'l) aws_loader = "aws_options \<Rightarrow> deadline \<Rightarrow> (string \<Rightarrow> 'd + wire_config) \<Rightarrow> 'l + wire_config"

datatype ('p, 'e) load_config_error =
    ConfigPathRequired | ConfigUnreadable string "'e option" | ConfigUndecodable string "'e decode_error"
  | ConfigNotCompiled "'p compile_error" | AwsOptionRequired string | AwsNotLoaded | AwsNotValid

text \<open>The \<open>configLoader\<close> interface: its method \<open>Load\<close>, which fills the wire configuration.\<close>

type_synonym 'l config_loader = "deadline \<Rightarrow> 'l + wire_config"

definition newAWSConfigLoader ::
  "('y, 'v, 'e) config_codec \<Rightarrow> ('e decode_error, 'l) aws_loader \<Rightarrow> aws_options \<Rightarrow> 'l config_loader" where
  "newAWSConfigLoader codec loader options = (\<lambda>ctx. loader options ctx (decodeConfig codec))"

definition loadAWSConfig ::
  "'p parse_duration \<Rightarrow> ('f, 'e) auth_env \<Rightarrow> deadline option \<Rightarrow> (aws_options \<Rightarrow> 'l config_loader) \<Rightarrow>
     ('p, 'e) load_config_error + auth_config" where
  "loadAWSConfig parse_duration env ctx factory =
     (case awsConfigOptionsFromEnv env of
        Inl name \<Rightarrow> Inl (AwsOptionRequired name)
      | Inr options \<Rightarrow>
          let ctx = (case ctx of None \<Rightarrow> None | Some ctx \<Rightarrow> ctx);
              ctx = WithTimeout ctx appConfigStartupTimeout in
          (case factory options ctx of
             Inl _ \<Rightarrow> Inl AwsNotLoaded
           | Inr wire \<Rightarrow>
               (case compileConfig parse_duration (runtimeConfig wire) of
                  Inl _ \<Rightarrow> Inl AwsNotValid
                | Inr resolved \<Rightarrow> Inr (rc_raw resolved))))"

subsection \<open>LoadConfig\<close>

definition loadFileConfig ::
  "('y, 'v, 'e) config_codec \<Rightarrow> 'p parse_duration \<Rightarrow> ('f, 'e) auth_env \<Rightarrow> 'f \<Rightarrow> string \<Rightarrow>
     ('p, 'e) load_config_error + auth_config" where
  "loadFileConfig codec parse_duration env files path =
     (if TrimSpace path = [] then Inl ConfigPathRequired
      else
        let resolvedPath = expandPath (ev_home_join env) path in
        (case ReadFile (ev_os env) files resolvedPath of
           ReadNotExist \<Rightarrow> Inl (ConfigUnreadable resolvedPath None)
         | ReadError err \<Rightarrow> Inl (ConfigUnreadable resolvedPath (Some err))
         | ReadOK raw \<Rightarrow>
             (case decodeConfig codec raw of
                Inl err \<Rightarrow> Inl (ConfigUndecodable resolvedPath err)
              | Inr wire \<Rightarrow>
                  (case compileConfig parse_duration (runtimeConfig wire) of
                     Inl err \<Rightarrow> Inl (ConfigNotCompiled err)
                   | Inr resolved \<Rightarrow> Inr (rc_raw resolved)))))"

text \<open>\<open>strings.EqualFold(s, t)\<close> for an ASCII \<open>t\<close>: besides the other case of an ASCII letter, U+017F folds
  to \<open>s\<close> and U+212A to \<open>k\<close>.\<close>

fun EqualFoldASCII :: "string \<Rightarrow> string \<Rightarrow> bool" where
  "EqualFoldASCII s [] = (s = [])"
| "EqualFoldASCII s (t # ts) =
     (if fold_byte t = CHR ''s'' \<and> prefix [CHR 0xC5, CHR 0xBF] s then EqualFoldASCII (drop 2 s) ts
      else if fold_byte t = CHR ''k'' \<and> prefix [CHR 0xE2, CHR 0x84, CHR 0xAA] s
      then EqualFoldASCII (drop 3 s) ts
      else (case s of [] \<Rightarrow> False | c # cs \<Rightarrow> fold_byte c = fold_byte t \<and> EqualFoldASCII cs ts))"

definition is_aws :: "string \<Rightarrow> bool" where
  "is_aws source = EqualFoldASCII (TrimSpace source) ''aws''"

definition LoadConfigContext ::
  "('y, 'v, 'e) config_codec \<Rightarrow> 'p parse_duration \<Rightarrow> ('f, 'e) auth_env \<Rightarrow> ('e decode_error, 'l) aws_loader \<Rightarrow>
     'f \<Rightarrow> deadline option \<Rightarrow> string \<Rightarrow> ('p, 'e) load_config_error + auth_config" where
  "LoadConfigContext codec parse_duration env loader files ctx source =
     (if is_aws source then loadAWSConfig parse_duration env ctx (newAWSConfigLoader codec loader)
      else loadFileConfig codec parse_duration env files source)"

definition LoadConfig where
  "LoadConfig codec parse_duration env loader files path =
     LoadConfigContext codec parse_duration env loader files (Some None) path"

subsection \<open>The command: flags\<close>

datatype flag_error = FlagHelp | BadFlagSyntax string | FlagNotDefined string | FlagNeedsArgument string

text \<open>\<open>split_flag\<close>: the name of a flag and the value after the first equals sign that is not its first
  byte.\<close>

fun split_at_equals :: "string \<Rightarrow> string \<times> string option" where
  "split_at_equals [] = ([], None)"
| "split_at_equals (c # s) =
     (if c = CHR ''='' then ([], Some s) else (let (name, val) = split_at_equals s in (c # name, val)))"

definition split_flag :: "string \<Rightarrow> string \<times> string option" where
  "split_flag name =
     (case name of [] \<Rightarrow> ([], None) | c # s \<Rightarrow> (let (rest, val) = split_at_equals s in (c # rest, val)))"

text \<open>\<open>FlagSet.Parse\<close> for the one string flag \<open>config\<close>: the flag's value afterwards.\<close>

fun parse_flags :: "string \<Rightarrow> string list \<Rightarrow> flag_error + string" where
  "parse_flags config [] = Inr config"
| "parse_flags config (s # args) =
     (if length s < 2 \<or> hd s \<noteq> CHR ''-'' \<or> s = ''--'' then Inr config
      else
        let flag = (if s ! 1 = CHR ''-'' then drop 2 s else drop 1 s) in
        if flag = [] \<or> hd flag \<in> {CHR ''-'', CHR ''=''} then Inl (BadFlagSyntax s)
        else
          (case split_flag flag of
             (name, val) \<Rightarrow>
               if name \<noteq> ''config'' then
                 (if name = ''help'' \<or> name = ''h'' then Inl FlagHelp else Inl (FlagNotDefined name))
               else
                 (case val of
                    Some v \<Rightarrow> parse_flags v args
                  | None \<Rightarrow> (case args of [] \<Rightarrow> Inl (FlagNeedsArgument name) | v # args \<Rightarrow> parse_flags v args))))"

definition main_getenv :: "('f, 'e) auth_env \<Rightarrow> string \<Rightarrow> string \<Rightarrow> string" where
  "main_getenv env key fallback = (if ev_Getenv env key \<noteq> [] then ev_Getenv env key else fallback)"

subsection \<open>The command: running\<close>

datatype gin_mode = DebugMode | ReleaseMode
datatype gin_middleware = Logger | Recovery

definition parseLogLevel :: "string \<Rightarrow> 'p compile_error + log_level" where
  "parseLogLevel logLevel = ParseLogLevel logLevel"

text \<open>The level and the mode that the process is put into.\<close>

definition configureRuntimeMode :: "string \<Rightarrow> 'p compile_error + log_level \<times> gin_mode" where
  "configureRuntimeMode logLevel =
     (case parseLogLevel logLevel of
        Inl err \<Rightarrow> Inl err
      | Inr level \<Rightarrow> Inr (level, if level \<le> LevelDebug then DebugMode else ReleaseMode))"

definition newGinEngine :: "log_level \<Rightarrow> gin_middleware list" where
  "newGinEngine level = (if level \<le> LevelDebug then [Logger, Recovery] else [Recovery])"

record 'h http_server =
  hs_Addr :: string
  hs_Handler :: 'h
  hs_ReadHeaderTimeout :: duration
  hs_ReadTimeout :: duration
  hs_WriteTimeout :: duration
  hs_IdleTimeout :: duration

definition defaultReadHeaderTimeout :: duration where "defaultReadHeaderTimeout = 5 * second"
definition defaultReadTimeout :: duration where "defaultReadTimeout = 15 * second"
definition defaultWriteTimeout :: duration where "defaultWriteTimeout = 15 * second"
definition defaultIdleTimeout :: duration where "defaultIdleTimeout = 60 * second"
definition defaultShutdownTimeout :: duration where "defaultShutdownTimeout = 10 * second"

definition newHTTPServer :: "string \<Rightarrow> 'h \<Rightarrow> 'h http_server" where
  "newHTTPServer addr handler =
     \<lparr>hs_Addr = addr, hs_Handler = handler, hs_ReadHeaderTimeout = defaultReadHeaderTimeout,
      hs_ReadTimeout = defaultReadTimeout, hs_WriteTimeout = defaultWriteTimeout,
      hs_IdleTimeout = defaultIdleTimeout\<rparr>"

datatype 'e serve_error = ErrServerClosed | ServeError 'e

text \<open>What ends the server first: the serving goroutine returns, or the context is done; then
  \<open>Shutdown\<close> is called with its timeout and the goroutine's result is awaited.\<close>

datatype 'e serve_event =
    Returned "'e serve_error option" | Interrupted "duration \<Rightarrow> 'e option" "'e serve_error option"

definition serveHTTPServer :: "duration \<Rightarrow> 'e serve_event \<Rightarrow> 'e serve_error option" where
  "serveHTTPServer shutdownTimeout event =
     (case event of
        Interrupted shutdown served \<Rightarrow>
          (case shutdown shutdownTimeout of
             Some err \<Rightarrow> Some (ServeError err)
           | None \<Rightarrow> if served \<noteq> None \<and> served \<noteq> Some ErrServerClosed then served else None)
      | Returned served \<Rightarrow> if served = Some ErrServerClosed then None else served)"

datatype ('p, 'e) run_error =
    FlagsInvalid flag_error | LoadFailed "('p, 'e) load_config_error" | LogLevelInvalid "'p compile_error"
  | RuntimeFailed "('p, 'e) new_error" | AwsRuntimeFailed | MountFailed | ServeFailed "'e serve_error"

type_synonym ('s, 'e, 'c) app_handler = "gin_middleware list \<times> gin_engine \<times> ('s, 'e, 'c) auth_runtime"

text \<open>\<open>run\<close>; \<open>world\<close> is how serving ends, given the server it was started on. \<open>None\<close> is success.\<close>

definition run ::
  "('y, 'v, 'e) config_codec \<Rightarrow> 'p parse_duration \<Rightarrow> ('e decode_error, 'l) aws_loader \<Rightarrow> 'c \<Rightarrow>
     ('f, 'e) auth_env \<Rightarrow> (('s, 'e signer_error, 'c) app_handler http_server \<Rightarrow> 'e serve_event) \<Rightarrow>
     deadline option \<Rightarrow> string list \<Rightarrow> 'f \<Rightarrow> ('p, 'e) run_error option \<times> 'f" where
  "run codec parse_duration loader time_Now env world parent args files =
     (case parse_flags (main_getenv env ''ORIONIS_CONFIG'' ''config/orionis.example.json'') args of
        Inl err \<Rightarrow> (if err = FlagHelp then None else Some (FlagsInvalid err), files)
      | Inr cfgPath \<Rightarrow>
      (case LoadConfigContext codec parse_duration env loader files parent cfgPath of
        Inl err \<Rightarrow> (Some (LoadFailed err), files)
      | Inr cfg \<Rightarrow>
      (case configureRuntimeMode (ac_LogLevel cfg) of
        Inl err \<Rightarrow> (Some (LogLevelInvalid err), files)
      | Inr (level, mode) \<Rightarrow>
      (case runtime_New parse_duration time_Now env files cfg of
        (Inl err, files) \<Rightarrow> (Some (if is_aws cfgPath then AwsRuntimeFailed else RuntimeFailed err), files)
      | (Inr runtime, files) \<Rightarrow>
      (case runtime_Mount (Some runtime) (Some []) of
        None \<Rightarrow> (Some MountFailed, files)
      | Some engine \<Rightarrow>
          (map_option ServeFailed
             (serveHTTPServer defaultShutdownTimeout
               (world (newHTTPServer (ListenAddr cfg) (newGinEngine level, engine, runtime)))), files))))))"

subsection \<open>What loading guarantees\<close>

text \<open>Wherever a configuration comes from, it is the normal form of one that compiles.\<close>

lemma LoadConfigContext_Inr:
  assumes "LoadConfigContext codec pd env loader files ctx source = Inr cfg"
  shows "\<exists>wire r. compileConfig pd (runtimeConfig wire) = Inr r \<and> cfg = rc_raw r"
  using assms
  by (auto simp: LoadConfigContext_def loadAWSConfig_def loadFileConfig_def Let_def
      split: if_splits sum.splits read_result.splits)

lemma preserveYAMLStrings_tags: "yn_tag (preserveYAMLStrings n) \<noteq> ''!!timestamp''"
  by (cases n) simp

lemma preserveYAMLStrings_idem: "preserveYAMLStrings (preserveYAMLStrings n) = preserveYAMLStrings n"
  by (induction n) simp

text \<open>A document that is complete JSON is never read as YAML.\<close>

lemma decodeConfig_json:
  assumes "json_Valid codec (TrimPrefix raw byte_order_mark)"
  shows "decodeConfig codec raw = unmarshal codec (TrimPrefix raw byte_order_mark)"
  using assms by (simp add: decodeConfig_def)

text \<open>Errors that are free of what the configuration holds: those of the command line, of the
  environment and of the network, and the fixed messages of the AWS path.\<close>

definition redacted :: "('p, 'e) run_error \<Rightarrow> bool" where
  "redacted err =
     (case err of
        FlagsInvalid _ \<Rightarrow> True
      | LoadFailed (AwsOptionRequired name) \<Rightarrow> True
      | LoadFailed AwsNotLoaded \<Rightarrow> True
      | LoadFailed AwsNotValid \<Rightarrow> True
      | AwsRuntimeFailed \<Rightarrow> True
      | ServeFailed _ \<Rightarrow> True
      | _ \<Rightarrow> False)"

lemma loaded_log_level:
  fixes pd :: "'p parse_duration"
  assumes "LoadConfigContext codec pd env loader files ctx source = Inr cfg"
  shows "\<exists>lvl. configureRuntimeMode (ac_LogLevel cfg) =
    (Inr (lvl, if lvl = LevelDebug then DebugMode else ReleaseMode) :: 'p compile_error + log_level \<times> gin_mode)"
proof -
  obtain wire r where "compileConfig pd (runtimeConfig wire) = Inr r" "cfg = rc_raw r"
    using LoadConfigContext_Inr[OF assms] by blast
  then have "(ParseLogLevel (ac_LogLevel cfg) :: 'p compile_error + log_level) = Inr (rc_logLevel r)"
    by (simp add: compiled_log_level)
  then show ?thesis by (simp add: configureRuntimeMode_def parseLogLevel_def)
qed

lemma loadAWSConfig_errors:
  "loadAWSConfig pd env ctx factory = Inl err \<Longrightarrow> redacted (LoadFailed err)"
  by (auto simp: redacted_def loadAWSConfig_def Let_def split: sum.splits)

text \<open>The configured issuer, when it has no white space at its ends, is in normal form.\<close>

lemma compiled_issuer:
  assumes "compileConfig pd cfg = Inr r" "TrimSpace (ac_Issuer (rc_raw r)) = ac_Issuer (rc_raw r)"
  shows "trim_issuer (ac_Issuer (rc_raw r)) = ac_Issuer (rc_raw r)" "ac_Issuer (rc_raw r) \<noteq> []"
  using compileConfig_ok[OF assms(1)] assms(2) TrimRight_id[of "ac_Issuer (rc_raw r)" "CHR ''/''"]
  by (auto simp: compiled_ok_def trim_issuer_def)

subsection \<open>Properties\<close>


text \<open>C15: what AWS AppConfig serves stays out of the error messages: whatever the hosted document, the
  loader and the decoders do, a failed start from the source \<open>aws\<close> reports only the command line, a
  missing variable, a fixed message, or the HTTP server's error.\<close>

theorem aws_errors_redacted:
  fixes pd :: "'p parse_duration"
  assumes "parse_flags (main_getenv env ''ORIONIS_CONFIG'' ''config/orionis.example.json'') args = Inr path"
    and "is_aws path" "run codec pd loader time_Now env world parent args files = (Some err, files')"
  shows "redacted err"
proof (cases "LoadConfigContext codec pd env loader files parent path")
  case (Inl e)
  then have "redacted (LoadFailed e)"
    using assms(2) loadAWSConfig_errors by (auto simp: LoadConfigContext_def)
  then show ?thesis using assms(3) Inl by (auto simp: run_def assms(1))
next
  case (Inr cfg)
  obtain lvl where "configureRuntimeMode (ac_LogLevel cfg) =
      (Inr (lvl, if lvl = LevelDebug then DebugMode else ReleaseMode) :: 'p compile_error + log_level \<times> gin_mode)"
    using loaded_log_level[OF Inr] by blast
  then show ?thesis
    using assms(2,3) Inr
    by (auto simp: run_def assms(1) runtime_Mount_def redacted_def split: prod.splits sum.splits)
qed

text \<open>A program with one configuration file, and one whose source is AWS but whose variables are missing.\<close>

definition demo_wire :: wire_config where
  "demo_wire =
     (let l = \<lparr>we_Enabled = None, we_Limit = Some 5, we_Window = None\<rparr> in
      \<lparr>wc_Listen = [], wc_LogLevel = '' Info'', wc_Issuer = ''https://auth/'', wc_BasePath = ''auth/'',
       wc_AccessTokenTTL = [], wc_ActiveKID = [], wc_Key = None, wc_Keys = None, wc_RateLimits = \<lparr>wr_Token = l, wr_Readyz = l\<rparr>,
       wc_AuditLogs = \<lparr>al_Enabled = None\<rparr>, wc_Clients = [demo_client]\<rparr>)"

lemma demo_wire: "runtimeConfig demo_wire = demo_auth_config"
  by (simp add: runtimeConfig_def demo_wire_def Let_def wire_limits_def wire_endpoint_def demo_auth_config_def demo_limit_config_def)

definition demo_config_codec :: "(unit, unit, unit) config_codec" where
  "demo_config_codec = \<lparr>json_Valid = (\<lambda>_. True), json_Unmarshal = (\<lambda>_. Inr demo_wire),
     json_Marshal = (\<lambda>_. Inl ()), yaml_Decode = (\<lambda>_. YamlEOF), yaml_value = (\<lambda>_. Inl ())\<rparr>"

definition demo_serve :: "(unit, unit signer_error, unit) app_handler http_server \<Rightarrow> unit serve_event" where
  "demo_serve server = Interrupted (\<lambda>_. None) (Some ErrServerClosed)"

lemma demo_load:
  "LoadConfigContext demo_config_codec (\<lambda>_. Inl ()) demo_env (\<lambda>_ _ _. Inl ()) [''c.json'' \<mapsto> ''{}''] None ''c.json'' =
     Inr (rc_raw demo_resolved)"
proof -
  have "\<not> is_aws ''c.json''" "TrimSpace ''c.json'' = ''c.json''"
    "TrimPrefix ''{}'' byte_order_mark = ''{}''" "\<not> HasPrefix ''c.json'' ''~/''" by code_simp+
  then show ?thesis
    by (simp add: LoadConfigContext_def loadFileConfig_def expandPath_def demo_env_def demo_os_def
        decodeConfig_def unmarshal_def demo_config_codec_def demo_wire demo_compile)
qed


theorem aws_errors_redacted_witness:
  "redacted (LoadFailed (AwsOptionRequired ''AWS_APPCONFIG_APPLICATION'') :: (unit, unit) run_error)"
proof -
  have flags: "parse_flags (main_getenv demo_env ''ORIONIS_CONFIG'' ''config/orionis.example.json'')
      [''--config=Aws''] = Inr ''Aws''" by code_simp
  have aws: "is_aws ''Aws''" by code_simp
  have getenv: "ev_Getenv demo_env name = []" for name by (simp add: demo_env_def)
  have "run demo_config_codec (\<lambda>_. Inl ()) (\<lambda>_ _ _. Inl ()) () demo_env demo_serve None [''--config=Aws''] Map.empty =
      (Some (LoadFailed (AwsOptionRequired ''AWS_APPCONFIG_APPLICATION'') :: (unit, unit) run_error), Map.empty)"
    unfolding run_def flags sum.case
    by (simp add: LoadConfigContext_def aws loadAWSConfig_def awsConfigOptionsFromEnv_def env_trimmed_def getenv)
  from aws_errors_redacted[OF flags aws this] show ?thesis .
qed

end
