(* ===== verification/Audit_Log.thy ===== *)
theory Audit_Log
  imports Auth_App Server_Http
begin

text \<open>
  \<open>internal/authapp/audit.go\<close>: what the audit handler writes about a request, and the address the
  limiter and the audit log know a caller by.

  A request is what the handler reads of it after the chain has run: the matched route (blank when
  there is none), the URL's path, the remote address, the credentials \<open>BasicAuth\<close> finds and the
  parsed form, if it was parsed. An entry is the list of attributes of the log line.
\<close>

record gin_request =
  gr_Method :: string
  gr_FullPath :: string
  gr_URLPath :: string
  gr_RemoteAddr :: string
  gr_BasicAuth :: "(string \<times> string) option"
  gr_PostForm :: "vals option"

subsection \<open>The remote address\<close>

text \<open>The host of \<open>net.SplitHostPort\<close>; \<open>None\<close> when it returns an error.\<close>

definition SplitHost :: "string \<Rightarrow> string option" where
  "SplitHost hostport =
     (if CHR '':'' \<notin> set hostport then None
      else
        let before = rev (drop 1 (dropWhile (\<lambda>c. c \<noteq> CHR '':'') (rev hostport))) in
        if hd hostport = CHR ''['' then
          (let inner = takeWhile (\<lambda>c. c \<noteq> CHR '']'') (drop 1 hostport);
               after = drop (length inner + 2) hostport in
           if CHR '']'' \<notin> set hostport \<or> before \<noteq> CHR ''['' # inner @ [CHR '']''] then None
           else if CHR ''['' \<in> set (drop 1 hostport) \<or> CHR '']'' \<in> set after then None
           else Some inner)
        else if CHR '':'' \<in> set before \<or> CHR ''['' \<in> set hostport \<or> CHR '']'' \<in> set hostport then None
        else Some before)"

definition remoteIPFromRequest :: "gin_request \<Rightarrow> string" where
  "remoteIPFromRequest r =
     (case SplitHost (gr_RemoteAddr r) of Some host \<Rightarrow> host | None \<Rightarrow> TrimSpace (gr_RemoteAddr r))"

subsection \<open>The log entry\<close>

definition requestPath :: "gin_request \<Rightarrow> string" where
  "requestPath r = (if gr_FullPath r \<noteq> [] then gr_FullPath r else gr_URLPath r)"

definition safeAuditClientID :: "gin_request \<Rightarrow> string" where
  "safeAuditClientID r =
     (case gr_BasicAuth r of
        Some (cid, _) \<Rightarrow> TrimSpace cid
      | None \<Rightarrow> (case gr_PostForm r of Some form \<Rightarrow> TrimSpace (Get form ''client_id'') | None \<Rightarrow> []))"

record audit_entry =
  ae_endpoint :: string
  ae_method :: string
  ae_path :: string
  ae_status :: int
  ae_outcome :: string
  ae_duration_ms :: int
  ae_remote_ip :: string
  ae_client_id :: "string option"

definition Milliseconds :: "duration \<Rightarrow> int" where
  "Milliseconds d = sgn d * (\<bar>d\<bar> div 1000000)"

definition audit :: "string \<Rightarrow> gin_request \<Rightarrow> int \<Rightarrow> duration \<Rightarrow> audit_entry" where
  "audit endpoint r writerStatus elapsed =
     (let status = (if writerStatus = 0 then 200 else writerStatus);
          clientID = (if endpoint = ''token'' then safeAuditClientID r else []) in
      \<lparr>ae_endpoint = endpoint, ae_method = gr_Method r, ae_path = requestPath r, ae_status = status,
       ae_outcome = auditOutcome status, ae_duration_ms = Milliseconds elapsed,
       ae_remote_ip = remoteIPFromRequest r,
       ae_client_id = (if clientID \<noteq> [] then Some clientID else None)\<rparr>)"

subsection \<open>One address for all connections of a host\<close>

definition host_text :: "string \<Rightarrow> bool" where
  "host_text s \<longleftrightarrow> CHR ''['' \<notin> set s \<and> CHR '']'' \<notin> set s"

lemma before_last_colon:
  assumes "CHR '':'' \<notin> set port"
  shows "rev (drop 1 (dropWhile (\<lambda>c. c \<noteq> CHR '':'') (rev (host @ CHR '':'' # port)))) = host"
proof -
  have "dropWhile (\<lambda>c. c \<noteq> CHR '':'') (rev port @ CHR '':'' # rev host) = CHR '':'' # rev host"
    using assms by (subst dropWhile_append2) auto
  then show ?thesis by simp
qed

lemma SplitHost_plain:
  assumes "host_text host" "host_text port" "CHR '':'' \<notin> set host" "CHR '':'' \<notin> set port"
  shows "SplitHost (host @ CHR '':'' # port) = Some host"
proof -
  have "hd (host @ CHR '':'' # port) \<noteq> CHR ''[''" using assms(1) by (cases host) (auto simp: host_text_def)
  then show ?thesis
    using assms before_last_colon[OF assms(4), of host] by (simp add: SplitHost_def host_text_def)
qed

lemma SplitHost_bracketed:
  assumes "host_text host" "host_text port" "CHR '':'' \<notin> set port"
  shows "SplitHost (CHR ''['' # host @ CHR '']'' # CHR '':'' # port) = Some host"
proof -
  have inner: "takeWhile (\<lambda>c. c \<noteq> CHR '']'') (host @ CHR '']'' # CHR '':'' # port) = host"
    using assms(1) by (simp add: host_text_def takeWhile_tail) (metis takeWhile_append2 takeWhile_eq_all_conv append_Nil2 takeWhile.simps(2))
  show ?thesis
    using assms before_last_colon[OF assms(3), of "CHR ''['' # host @ [CHR '']'']"]
    by (simp add: SplitHost_def host_text_def inner Let_def)
qed

text \<open>The connections of one host share the limiter's window of an endpoint, whatever their ports.\<close>

lemma remote_address:
  assumes "host_text host" "host_text port" "CHR '':'' \<notin> set port"
  shows "CHR '':'' \<notin> set host \<Longrightarrow>
      remoteIPFromRequest (r\<lparr>gr_RemoteAddr := host @ CHR '':'' # port\<rparr>) = host"
    and "remoteIPFromRequest (r\<lparr>gr_RemoteAddr := CHR ''['' # host @ CHR '']'' # CHR '':'' # port\<rparr>) = host"
  using SplitHost_plain[OF assms(1,2) _ assms(3)] SplitHost_bracketed[OF assms]
  by (simp_all add: remoteIPFromRequest_def)

lemma credentials_not_read [simp]:
  "requestPath (r\<lparr>gr_BasicAuth := b\<rparr>) = requestPath r" "requestPath (r\<lparr>gr_PostForm := f\<rparr>) = requestPath r"
  "remoteIPFromRequest (r\<lparr>gr_BasicAuth := b\<rparr>) = remoteIPFromRequest r"
  "remoteIPFromRequest (r\<lparr>gr_PostForm := f\<rparr>) = remoteIPFromRequest r"
  by (simp_all add: requestPath_def remoteIPFromRequest_def cong: option.case_cong)

subsection \<open>Property\<close>

text \<open>C38: the audit log carries no secret: an entry is the same whatever the password of the basic
  credentials is, and without them it depends on the form through the field \<open>client_id\<close> only; the
  entries of other endpoints depend on neither.\<close>

theorem audit_log_redacts:
  assumes "form1 ''client_id'' = form2 ''client_id''"
  shows "audit endpoint (r\<lparr>gr_BasicAuth := Some (cid, secret1), gr_PostForm := f1\<rparr>) status elapsed =
      audit endpoint (r\<lparr>gr_BasicAuth := Some (cid, secret2), gr_PostForm := f2\<rparr>) status elapsed \<and>
    audit endpoint (r\<lparr>gr_BasicAuth := None, gr_PostForm := Some form1\<rparr>) status elapsed =
      audit endpoint (r\<lparr>gr_BasicAuth := None, gr_PostForm := Some form2\<rparr>) status elapsed \<and>
    audit ''readyz'' (r\<lparr>gr_BasicAuth := b1, gr_PostForm := f1\<rparr>) status elapsed =
      audit ''readyz'' (r\<lparr>gr_BasicAuth := b2, gr_PostForm := f2\<rparr>) status elapsed"
  using assms
  by (simp add: audit_def safeAuditClientID_def Get_def)

theorem audit_log_redacts_witness:
  "audit ''token'' \<lparr>gr_Method = ''POST'', gr_FullPath = ''/oauth/token'', gr_URLPath = ''/oauth/token'',
      gr_RemoteAddr = ''10.0.0.1:5'', gr_BasicAuth = None,
      gr_PostForm = Some ((\<lambda>_. [])(''client_id'' := [''svc''], ''client_secret'' := [''s3cret'']))\<rparr> 200 1000000 =
   audit ''token'' \<lparr>gr_Method = ''POST'', gr_FullPath = ''/oauth/token'', gr_URLPath = ''/oauth/token'',
      gr_RemoteAddr = ''10.0.0.1:5'', gr_BasicAuth = None,
      gr_PostForm = Some ((\<lambda>_. [])(''client_id'' := [''svc'']))\<rparr> 200 1000000"
  using audit_log_redacts[where ?form1.0 = "(\<lambda>_. [])(''client_id'' := [''svc''], ''client_secret'' := [''s3cret''])"
      and ?form2.0 = "(\<lambda>_. [])(''client_id'' := [''svc''])" and endpoint = "''token''"
      and r = "\<lparr>gr_Method = ''POST'', gr_FullPath = ''/oauth/token'', gr_URLPath = ''/oauth/token'',
        gr_RemoteAddr = ''10.0.0.1:5'', gr_BasicAuth = None, gr_PostForm = None\<rparr>"
      and status = 200 and elapsed = 1000000]
  by simp

end
