(* ===== verification/App_Requests.thy ===== *)
theory App_Requests
  imports Audit_Log
begin

text \<open>
  Requests to the running auth application: the routes that \<open>internal/authapp/routes.go\<close> mounts, each with
  its handler chain of audit log, limiter and endpoint (\<open>audit.go\<close>, \<open>ratelimit.go\<close>), over the state they share,
  the limiter's windows and the log.

  Which route a request takes is Gin's: \<open>lookup\<close> answers with the full path and the entry of the table.
  A request comes with what the handlers read while it runs: the clock, in the limiter and in the token
  service, its duration, the random bytes, and what \<open>PostForm\<close> holds once the form has been parsed.
  Requests are taken in the order in which they pass the limiter.
\<close>

subsection \<open>strconv.Itoa\<close>

fun Itoa_digits :: "nat \<Rightarrow> string" where
  "Itoa_digits n =
     (if n < 10 then [char_of (48 + n)] else Itoa_digits (n div 10) @ [char_of (48 + n mod 10)])"

declare Itoa_digits.simps [simp del]

definition Itoa :: "int \<Rightarrow> string" where
  "Itoa i = (if i < 0 then CHR ''-'' # Itoa_digits (nat (- i)) else Itoa_digits (nat i))"

text \<open>The digits read back as the number.\<close>

lemma Itoa_digits_value: "foldl (\<lambda>v c. 10 * v + (of_char c - 48)) 0 (Itoa_digits n) = n"
proof (induction n rule: Itoa_digits.induct)
  case (1 n)
  show ?case
  proof (cases "n < 10")
    case True
    then show ?thesis by (simp add: Itoa_digits.simps[of n])
  next
    case False
    then show ?thesis using 1 by (simp add: Itoa_digits.simps[of n])
  qed
qed

subsection \<open>Requests and the state they share\<close>

record 'e app_request =
  aq_Method :: string
  aq_URLPath :: string
  aq_RemoteAddr :: string
  aq_ParseForm :: "int \<Rightarrow> (vals \<times> vals) option"
  aq_PostForm :: vals
  aq_BasicAuth :: "(string \<times> string) option"
  aq_now :: time
  aq_issueTime :: time
  aq_elapsed :: duration
  aq_random :: "'e + string"

record app_state =
  as_limiter :: rate_limiter
  as_log :: "audit_entry list"

type_synonym route_entry = "string \<times> string \<times> auth_handler gin_handler list"
type_synonym gin_lookup = "route_entry list \<Rightarrow> string \<Rightarrow> string \<Rightarrow> (string \<times> route_entry) option"

definition http_request_of :: "'e app_request \<Rightarrow> http_request" where
  "http_request_of q = \<lparr>hr_Method = aq_Method q, hr_ParseForm = aq_ParseForm q, hr_BasicAuth = aq_BasicAuth q\<rparr>"

definition gin_request_of :: "'e app_request \<Rightarrow> string \<Rightarrow> vals option \<Rightarrow> gin_request" where
  "gin_request_of q full form =
     \<lparr>gr_Method = aq_Method q, gr_FullPath = full, gr_URLPath = aq_URLPath q, gr_RemoteAddr = aq_RemoteAddr q,
      gr_BasicAuth = aq_BasicAuth q, gr_PostForm = form\<rparr>"

definition aq_ip :: "'e app_request \<Rightarrow> string" where
  "aq_ip q = remoteIPFromRequest (gin_request_of q [] None)"

lemma remoteIP_gin_request_of [simp]: "remoteIPFromRequest (gin_request_of q full form) = aq_ip q"
  by (simp add: aq_ip_def remoteIPFromRequest_def gin_request_of_def split: option.split)

subsection \<open>The handler chain\<close>

definition StatusTooManyRequests :: nat where "StatusTooManyRequests = 429"

definition tooManyRequests :: "int \<Rightarrow> http_response" where
  "tooManyRequests secs =
     writeJSON [''Retry-After'' \<mapsto> Itoa secs] StatusTooManyRequests
       (OAuthErrorBody ''rate_limited'' ''too many requests'')"

text \<open>What an endpoint answers, and the form it leaves parsed in the request.\<close>

definition endpoint_answer ::
  "(string \<Rightarrow> string) \<Rightarrow> (time \<Rightarrow> time) \<Rightarrow> ('s \<Rightarrow> string \<Rightarrow> 'e store_error + client) \<Rightarrow> ('s, 'e, 'c) server \<Rightarrow>
     'e app_request \<Rightarrow> auth_handler \<Rightarrow> http_response" where
  "endpoint_answer sha256 numeric_date fc auth q h =
     (let r = http_request_of q in
      case h of
        TokenHandler \<Rightarrow> TokenHTTP sha256 numeric_date fc auth (aq_issueTime q) (aq_random q) r
      | JWKSHandler \<Rightarrow> JWKSHTTP auth r
      | DiscoveryHandler \<Rightarrow> DiscoveryHTTP auth r
      | HealthHandler \<Rightarrow> HealthHTTP auth r)"

definition parsed_form :: "'e app_request \<Rightarrow> auth_handler \<Rightarrow> vals option" where
  "parsed_form q h = (if h = TokenHandler \<and> aq_Method q = MethodPost then Some (aq_PostForm q) else None)"

definition response_status :: "http_response option \<Rightarrow> int" where
  "response_status r = (case r of None \<Rightarrow> 0 | Some r \<Rightarrow> int (ht_status r))"

fun serve_chain ::
  "(auth_handler \<Rightarrow> http_response) \<Rightarrow> 'e app_request \<Rightarrow> string \<Rightarrow> app_state \<Rightarrow> auth_handler gin_handler list \<Rightarrow>
     app_state \<times> http_response option \<times> vals option" where
  "serve_chain answer q full s [] = (s, None, None)"
| "serve_chain answer q full s (Endpoint h # hs) = (s, Some (answer h), parsed_form q h)"
| "serve_chain answer q full s (RateLimitHandler endpoint limit # hs) =
     (case rateLimit endpoint limit (aq_ip q) (aq_now q) (as_limiter s) of
        (l, Next) \<Rightarrow> serve_chain answer q full (s\<lparr>as_limiter := l\<rparr>) hs
      | (l, TooManyRequests secs) \<Rightarrow> (s\<lparr>as_limiter := l\<rparr>, Some (tooManyRequests secs), None))"
| "serve_chain answer q full s (AuditHandler endpoint # hs) =
     (case serve_chain answer q full s hs of
        (s, r, form) \<Rightarrow>
          (s\<lparr>as_log := as_log s @
               [audit endpoint (gin_request_of q full form) (response_status r) (aq_elapsed q)]\<rparr>, r, form))"

text \<open>\<open>None\<close> when Gin finds no route and answers by itself.\<close>

definition app_serve ::
  "gin_lookup \<Rightarrow> (auth_handler \<Rightarrow> http_response) \<Rightarrow> resolved_config \<Rightarrow> app_state \<Rightarrow> 'e app_request \<Rightarrow>
     app_state \<times> http_response option" where
  "app_serve lookup answer cfg s q =
     (case lookup (snd (mountAuthRoutes cfg)) (aq_Method q) (aq_URLPath q) of
        None \<Rightarrow> (s, None)
      | Some (full, method, path, chain) \<Rightarrow>
          (case serve_chain answer q full s chain of (s, r, _) \<Rightarrow> (s, r)))"

definition initial_state :: "resolved_config \<Rightarrow> app_state" where
  "initial_state cfg = \<lparr>as_limiter = rsec_limiter (newRuntimeSecurity cfg), as_log = []\<rparr>"

fun app_run ::
  "gin_lookup \<Rightarrow> ('e app_request \<Rightarrow> auth_handler \<Rightarrow> http_response) \<Rightarrow> resolved_config \<Rightarrow> app_state \<Rightarrow>
     'e app_request list \<Rightarrow> app_state \<times> http_response option list" where
  "app_run lookup answer cfg s [] = (s, [])"
| "app_run lookup answer cfg s (q # qs) =
     (let (s, r) = app_serve lookup (answer q) cfg s q; (s, rs) = app_run lookup answer cfg s qs in (s, r # rs))"

text \<open>Gin answers with an entry of the table for the request's method.\<close>

definition lookup_law :: "gin_lookup \<Rightarrow> bool" where
  "lookup_law lookup \<longleftrightarrow>
     (\<forall>table method url full e. lookup table method url = Some (full, e) \<longrightarrow> e \<in> set table \<and> fst e = method)"

text \<open>The path of the route that a request takes.\<close>

definition route_taken :: "gin_lookup \<Rightarrow> resolved_config \<Rightarrow> 'e app_request \<Rightarrow> string option" where
  "route_taken lookup cfg q =
     map_option (\<lambda>(full, method, path, chain). path)
       (lookup (snd (mountAuthRoutes cfg)) (aq_Method q) (aq_URLPath q))"

subsection \<open>Requests and the limiter\<close>

text \<open>The call of the limiter that a request makes, if it makes one, and the limits by key.\<close>

definition limited_call :: "gin_lookup \<Rightarrow> resolved_config \<Rightarrow> 'e app_request \<Rightarrow> (time \<times> string) list" where
  "limited_call lookup cfg q =
     (if route_taken lookup cfg q = Some route_Token \<and> el_enabled (rc_tokenLimit cfg)
      then [(aq_now q, ''token|'' @ aq_ip q)]
      else if route_taken lookup cfg q = Some route_Ready \<and> el_enabled (rc_readyzLimit cfg)
      then [(aq_now q, ''readyz|'' @ aq_ip q)] else [])"

definition limits_of :: "resolved_config \<Rightarrow> string \<Rightarrow> int \<times> duration" where
  "limits_of cfg key =
     (let l = (if HasPrefix key ''token'' then rc_tokenLimit cfg else rc_readyzLimit cfg) in (el_limit l, el_window l))"

lemma limits_of_simps:
  "limits_of cfg (''token|'' @ ip) = (el_limit (rc_tokenLimit cfg), el_window (rc_tokenLimit cfg))"
  "limits_of cfg (''readyz|'' @ ip) = (el_limit (rc_readyzLimit cfg), el_window (rc_readyzLimit cfg))"
  by (simp_all add: limits_of_def HasPrefix_iff Let_def)

lemmas limits_of_chars [simp] = limits_of_simps [simplified]

lemma route_paths [simp]:
  "route_Token \<noteq> route_Ready" "route_Ready \<noteq> route_Token" "route_JWKS \<noteq> route_Token" "route_JWKS \<noteq> route_Ready" "route_Discovery \<noteq> route_Token"
  "route_Discovery \<noteq> route_Ready" "route_Health \<noteq> route_Token" "route_Health \<noteq> route_Ready"
  by (simp_all add: route_Token_def route_Ready_def route_JWKS_def route_Discovery_def route_Health_def)

lemma route_entry_cases:
  assumes "(method, path, chain) \<in> set (snd (mountAuthRoutes cfg))"
  shows "path = route_Token \<and> method = MethodPost \<and>
      chain = handlers (newRuntimeSecurity cfg) ''token'' (rc_tokenLimit cfg) TokenHandler \<or>
    path = route_Ready \<and> method = MethodGet \<and>
      chain = handlers (newRuntimeSecurity cfg) ''readyz'' (rc_readyzLimit cfg) HealthHandler \<or>
    path \<notin> {route_Token, route_Ready} \<and> (\<exists>h. h \<noteq> TokenHandler \<and> chain = [Endpoint h])"
  using assms by (auto simp: mountAuthRoutes_def Let_def MethodPost_def MethodGet_def)

text \<open>What is behind the limiter of an endpoint.\<close>

definition limited_answer ::
  "string \<Rightarrow> effective_rate_limit \<Rightarrow> auth_handler \<Rightarrow> (auth_handler \<Rightarrow> http_response) \<Rightarrow> 'e app_request \<Rightarrow>
     rate_limiter \<Rightarrow> rate_limiter \<times> http_response \<times> vals option" where
  "limited_answer endpoint limit h answer q l =
     (if \<not> el_enabled limit then (l, answer h, parsed_form q h)
      else
        (case rateLimit endpoint limit (aq_ip q) (aq_now q) l of
           (l, Next) \<Rightarrow> (l, answer h, parsed_form q h)
         | (l, TooManyRequests secs) \<Rightarrow> (l, tooManyRequests secs, None)))"

lemma serve_handlers:
  assumes "limited_answer endpoint limit h answer q (as_limiter s) = (l, r, form)"
  shows "serve_chain answer q full s (handlers sec endpoint limit h) =
    (s\<lparr>as_limiter := l, as_log := as_log s @
       (if rsec_auditEnabled sec
        then [audit endpoint (gin_request_of q full form) (int (ht_status r)) (aq_elapsed q)] else [])\<rparr>, Some r, form)"
  using assms
  by (auto simp: limited_answer_def handlers_def response_status_def split: prod.splits limited.splits if_splits)

lemma limited_answer_run:
  assumes "limited_answer endpoint limit h answer q l = (l', r, form)" "el_enabled limit"
    and "cfg (endpoint @ ''|'' @ aq_ip q) = (el_limit limit, el_window limit)"
  shows "\<exists>ok. limiter_run cfg l [(aq_now q, endpoint @ ''|'' @ aq_ip q)] = (l', [ok]) \<and>
    (ok \<longrightarrow> r = answer h \<and> form = parsed_form q h) \<and> (\<not> ok \<longrightarrow> (\<exists>secs. r = tooManyRequests secs) \<and> form = None)"
  using assms
  by (auto simp: limited_answer_def rateLimit_def Let_def split: prod.splits if_splits)

lemma limiter_run_append:
  "limiter_run cfg l (xs @ ys) =
     (let (l1, oks1) = limiter_run cfg l xs; (l2, oks2) = limiter_run cfg l1 ys in (l2, oks1 @ oks2))"
  by (induction xs arbitrary: l) (auto simp: Let_def split: prod.splits)

lemma length_limiter_run: "length (snd (limiter_run cfg l calls)) = length calls"
  by (induction calls arbitrary: l) (auto simp: Let_def split_beta)

lemma admitted_run_append:
  "admitted_run cfg l (xs @ ys) key a =
     admitted_run cfg l xs key a + admitted_run cfg (fst (limiter_run cfg l xs)) ys key a"
  using length_limiter_run[of cfg l xs]
  by (simp add: admitted_run_def limiter_run_append Let_def split_beta zip_append)

text \<open>One request, by the route it takes.\<close>

lemma app_serve_route:
  assumes "lookup_law lookup" "app_serve lookup answer cfg s q = (s', r)"
  shows "route_taken lookup cfg q = None \<and> s' = s \<and> r = None \<or>
    (\<exists>path h. route_taken lookup cfg q = Some path \<and> path \<notin> {route_Token, route_Ready} \<and> h \<noteq> TokenHandler \<and>
       s' = s \<and> r = Some (answer h)) \<or>
    (\<exists>endpoint path limit h full l x form.
       (endpoint, path, limit, h) \<in> {(''token'', route_Token, rc_tokenLimit cfg, TokenHandler),
         (''readyz'', route_Ready, rc_readyzLimit cfg, HealthHandler)} \<and>
       route_taken lookup cfg q = Some path \<and> (h = TokenHandler \<longrightarrow> aq_Method q = MethodPost) \<and>
       limited_answer endpoint limit h answer q (as_limiter s) = (l, x, form) \<and> r = Some x \<and>
       s' = s\<lparr>as_limiter := l, as_log := as_log s @
         (if rc_auditEnabled cfg
          then [audit endpoint (gin_request_of q full form) (int (ht_status x)) (aq_elapsed q)] else [])\<rparr>)"
proof (cases "lookup (snd (mountAuthRoutes cfg)) (aq_Method q) (aq_URLPath q)")
  case None
  then show ?thesis using assms(2) by (simp add: app_serve_def route_taken_def)
next
  case (Some fe)
  obtain full verb path chain where fe: "fe = (full, verb, path, chain)" by (metis surj_pair)
  have taken: "route_taken lookup cfg q = Some path" by (simp add: route_taken_def Some fe)
  have mounted: "(verb, path, chain) \<in> set (snd (mountAuthRoutes cfg))" "verb = aq_Method q"
    using assms(1) Some by (auto simp: lookup_law_def fe)
  have sec: "rsec_auditEnabled (newRuntimeSecurity cfg) = rc_auditEnabled cfg" by (simp add: newRuntimeSecurity_def)
  have limited: ?thesis
    if e: "(endpoint, path, limit, h) \<in> {(''token'', route_Token, rc_tokenLimit cfg, TokenHandler),
         (''readyz'', route_Ready, rc_readyzLimit cfg, HealthHandler)}"
      and m: "h = TokenHandler \<longrightarrow> aq_Method q = MethodPost"
      and chain: "chain = handlers (newRuntimeSecurity cfg) endpoint limit h" for endpoint limit h
  proof -
    obtain l x form where a: "limited_answer endpoint limit h answer q (as_limiter s) = (l, x, form)" by (metis surj_pair)
    from serve_handlers[OF a] have "app_serve lookup answer cfg s q =
        (s\<lparr>as_limiter := l, as_log := as_log s @
         (if rc_auditEnabled cfg
          then [audit endpoint (gin_request_of q full form) (int (ht_status x)) (aq_elapsed q)] else [])\<rparr>, Some x)"
      by (simp add: app_serve_def Some fe chain sec)
    then show ?thesis using assms(2) e m taken a by (intro disjI2) (metis Pair_inject)
  qed
  from route_entry_cases[OF mounted(1)] consider
    "path = route_Token" "verb = MethodPost" "chain = handlers (newRuntimeSecurity cfg) ''token'' (rc_tokenLimit cfg) TokenHandler"
    | "path = route_Ready" "chain = handlers (newRuntimeSecurity cfg) ''readyz'' (rc_readyzLimit cfg) HealthHandler"
    | h where "path \<notin> {route_Token, route_Ready}" "h \<noteq> TokenHandler" "chain = [Endpoint h]" by blast
  then show ?thesis
  proof cases
    case 1
    then show ?thesis by (intro limited[of "''token''" "rc_tokenLimit cfg" TokenHandler]) (simp_all add: mounted(2))
  next
    case 2
    then show ?thesis by (intro limited[of "''readyz''" "rc_readyzLimit cfg" HealthHandler]) simp_all
  next
    case 3
    then have "s' = s" "r = Some (answer h)" using assms(2) Some by (simp_all add: app_serve_def fe)
    then show ?thesis using 3(1,2) taken by blast
  qed
qed

lemma app_serve_limiter:
  assumes "lookup_law lookup" "app_serve lookup answer cfg s q = (s', r)"
  shows "\<exists>oks. limiter_run (limits_of cfg) (as_limiter s) (limited_call lookup cfg q) = (as_limiter s', oks) \<and>
    (oks = [False] \<longrightarrow> (\<exists>secs. r = Some (tooManyRequests secs)))"
  using app_serve_route[OF assms]
proof (elim disjE exE conjE)
  fix endpoint path limit h full l x form
  assume e: "(endpoint, path, limit, h) \<in> {(''token'', route_Token, rc_tokenLimit cfg, TokenHandler),
      (''readyz'', route_Ready, rc_readyzLimit cfg, HealthHandler)}"
    and taken: "route_taken lookup cfg q = Some path"
    and a: "limited_answer endpoint limit h answer q (as_limiter s) = (l, x, form)" and r: "r = Some x"
    and s': "s' = s\<lparr>as_limiter := l, as_log := as_log s @
      (if rc_auditEnabled cfg
       then [audit endpoint (gin_request_of q full form) (int (ht_status x)) (aq_elapsed q)] else [])\<rparr>"
  have call: "limited_call lookup cfg q = (if el_enabled limit then [(aq_now q, endpoint @ ''|'' @ aq_ip q)] else [])"
    and lim: "limits_of cfg (endpoint @ ''|'' @ aq_ip q) = (el_limit limit, el_window limit)"
    using e taken by (auto simp: limited_call_def)
  show ?thesis
  proof (cases "el_enabled limit")
    case True
    then show ?thesis using limited_answer_run[where cfg = "limits_of cfg", OF a True lim] call r s' by auto
  next
    case False
    then show ?thesis using a call s' by (auto simp: limited_answer_def)
  qed
qed (auto simp: limited_call_def)

subsection \<open>Counting what reaches the token endpoint\<close>

text \<open>The token requests of an address in \<open>[a, a + window)\<close> that are not turned away.\<close>

definition guesses ::
  "gin_lookup \<Rightarrow> resolved_config \<Rightarrow> string \<Rightarrow> time \<Rightarrow> 'e app_request list \<Rightarrow> http_response option list \<Rightarrow> nat" where
  "guesses lookup cfg ip a qs rs =
     length (filter (\<lambda>(q, r). route_taken lookup cfg q = Some route_Token \<and> aq_ip q = ip \<and> a \<le> aq_now q \<and>
       aq_now q < a + el_window (rc_tokenLimit cfg) \<and> response_status r \<noteq> 429) (zip qs rs))"

lemma response_status_tooMany [simp]: "response_status (Some (tooManyRequests secs)) = 429"
  by (simp add: response_status_def tooManyRequests_def StatusTooManyRequests_def)

lemma guesses_le:
  assumes "lookup_law lookup" "el_enabled (rc_tokenLimit cfg)"
  shows "guesses lookup cfg ip a qs (snd (app_run lookup answer cfg s qs)) \<le>
    admitted_run (limits_of cfg) (as_limiter s) (concat (map (limited_call lookup cfg) qs)) (''token|'' @ ip) a"
proof (induction qs arbitrary: s)
  case (Cons q qs)
  obtain s' r where serve: "app_serve lookup (answer q) cfg s q = (s', r)" by (metis surj_pair)
  obtain oks where oks: "limiter_run (limits_of cfg) (as_limiter s) (limited_call lookup cfg q) = (as_limiter s', oks)"
      "oks = [False] \<longrightarrow> (\<exists>secs. r = Some (tooManyRequests secs))"
    using app_serve_limiter[OF assms(1) serve] by blast
  let ?P = "route_taken lookup cfg q = Some route_Token \<and> aq_ip q = ip \<and> a \<le> aq_now q \<and>
      aq_now q < a + el_window (rc_tokenLimit cfg) \<and> response_status r \<noteq> 429"
  have "(if ?P then 1 else 0) \<le>
      admitted_run (limits_of cfg) (as_limiter s) (limited_call lookup cfg q) (''token|'' @ ip) a"
  proof (cases ?P)
    case True
    then have call: "limited_call lookup cfg q = [(aq_now q, ''token|'' @ ip)]"
      using assms(2) by (simp add: limited_call_def)
    then have "length oks = 1" using oks(1) length_limiter_run[of "limits_of cfg" "as_limiter s" "limited_call lookup cfg q"]
      by simp
    moreover have "oks \<noteq> [False]" using True oks(2) by auto
    ultimately have "oks = [True]" by (cases oks) auto
    then show ?thesis using True oks(1) call by (simp add: admitted_run_def)
  qed (simp only: if_False zero_le)
  moreover have "guesses lookup cfg ip a (q # qs) (snd (app_run lookup answer cfg s (q # qs))) =
      (if ?P then 1 else 0) + guesses lookup cfg ip a qs (snd (app_run lookup answer cfg s' qs))"
    by (simp add: guesses_def serve split_beta Let_def)
  ultimately show ?case using Cons.IH[of s'] by (simp add: admitted_run_append oks(1))
qed (simp add: guesses_def)

lemma limited_calls_sorted:
  fixes qs :: "'e app_request list"
  assumes "sorted (map aq_now qs)"
  shows "sorted (map fst (concat (map (limited_call lookup cfg) qs)))"
    and "length (concat (map (limited_call lookup cfg) qs)) \<le> length qs"
proof -
  have now: "fst c = aq_now q" if "c \<in> set (limited_call lookup cfg q)" for c and q :: "'e app_request"
    using that by (auto simp: limited_call_def split: if_splits)
  have len: "length (limited_call lookup cfg q) \<le> 1" for q :: "'e app_request" by (simp add: limited_call_def)
  show "length (concat (map (limited_call lookup cfg) qs)) \<le> length qs"
  proof (induction qs)
    case (Cons q qs)
    then show ?case using len[of q] by simp
  qed simp
  show "sorted (map fst (concat (map (limited_call lookup cfg) qs)))"
    using assms
  proof (induction qs)
    case (Cons q qs)
    then have tail: "sorted (map fst (concat (map (limited_call lookup cfg) qs)))" by simp
    have own: "sorted (map fst (limited_call lookup cfg q))" by (simp add: limited_call_def)
    have later: "aq_now q \<le> fst c" if c: "c \<in> set (concat (map (limited_call lookup cfg) qs))" for c
    proof -
      obtain x where "x \<in> set qs" "c \<in> set (limited_call lookup cfg x)" using c by auto
      then show ?thesis using now Cons.prems by simp
    qed
    then have "fst b \<le> fst c" if "b \<in> set (limited_call lookup cfg q)"
        "c \<in> set (concat (map (limited_call lookup cfg) qs))" for b c using that now[OF that(1)] later by simp
    then show ?case using tail own by (auto simp only: sorted_append map_append concat.simps list.map set_map)
  qed simp
qed

text \<open>The token endpoint itself never answers with the limiter's status.\<close>

lemma issue_status: "issue sha256 nd fc s now random rq = Inl (OAuthError status code d) \<Longrightarrow> status \<in> {400, 401, 403}"
  by (auto simp: issue_def newOAuthError_def issueAccessToken_def Let_def StatusBadRequest_def StatusUnauthorized_def
      StatusForbidden_def split: if_splits sum.splits option.splits)

lemma TokenHTTP_status: "ht_status (TokenHTTP sha256 nd fc auth now random r) \<in> {200, 400, 401, 403, 405, 500}"
  by (auto simp: TokenHTTP_def writeOAuthError_def Let_def StatusMethodNotAllowed_def StatusBadRequest_def
      StatusInternalServerError_def StatusOK_def dest!: issue_status split: option.split sum.split issue_error.split)

lemma app_run_token_answers:
  assumes "lookup_law lookup" "(q, r) \<in> set (zip qs (snd (app_run lookup answer cfg s qs)))"
    and "route_taken lookup cfg q = Some route_Token"
  shows "r = Some (answer q TokenHandler) \<or> (\<exists>secs. r = Some (tooManyRequests secs))"
  using assms(2)
proof (induction qs arbitrary: s)
  case (Cons q' qs)
  obtain s' r' where serve: "app_serve lookup (answer q') cfg s q' = (s', r')" by (metis surj_pair)
  show ?case
  proof (cases "(q, r) = (q', r')")
    case True
    then show ?thesis
      using app_serve_route[OF assms(1) serve] assms(3)
      by (auto simp: limited_answer_def split: if_splits prod.splits limited.splits)
  next
    case False
    then show ?thesis using Cons by (auto simp: serve Let_def split_beta)
  qed
qed simp

text \<open>What the log says of one request.\<close>

definition summary :: "audit_entry \<Rightarrow> string \<times> int \<times> string \<times> string" where
  "summary e = (ae_endpoint e, ae_status e, ae_outcome e, ae_remote_ip e)"

definition audited ::
  "gin_lookup \<Rightarrow> resolved_config \<Rightarrow> 'e app_request \<Rightarrow> http_response option \<Rightarrow> (string \<times> int \<times> string \<times> string) list" where
  "audited lookup cfg q r =
     (let entry = (\<lambda>endpoint. (endpoint, response_status r, auditOutcome (response_status r), aq_ip q)) in
      if \<not> rc_auditEnabled cfg then []
      else if route_taken lookup cfg q = Some route_Token then [entry ''token'']
      else if route_taken lookup cfg q = Some route_Ready then [entry ''readyz''] else [])"

lemma endpoint_answer_status:
  "ht_status (endpoint_answer sha256 nd fc auth q TokenHandler) \<notin> {0, 429}"
  "ht_status (endpoint_answer sha256 nd fc auth q HealthHandler) = 200"
  using TokenHTTP_status[of sha256 nd fc auth "aq_issueTime q" "aq_random q" "http_request_of q"]
  by (auto simp: endpoint_answer_def HealthHTTP_def StatusOK_def Let_def)

lemma limited_answer_status:
  assumes "limited_answer endpoint limit h (endpoint_answer sha256 nd fc auth q) q l = (l', x, form)"
    and "h \<in> {TokenHandler, HealthHandler}"
  shows "ht_status x \<noteq> 0"
  using assms endpoint_answer_status[of sha256 nd fc auth q]
  by (auto simp: limited_answer_def tooManyRequests_def StatusTooManyRequests_def split: if_splits prod.splits limited.splits)

lemma app_serve_log:
  assumes "lookup_law lookup" "app_serve lookup (endpoint_answer sha256 nd fc auth q) cfg s q = (s', r)"
  shows "map summary (as_log s') = map summary (as_log s) @ audited lookup cfg q r"
  using app_serve_route[OF assms]
proof (elim disjE exE conjE)
  fix endpoint path limit h full l x form
  assume e: "(endpoint, path, limit, h) \<in> {(''token'', route_Token, rc_tokenLimit cfg, TokenHandler),
      (''readyz'', route_Ready, rc_readyzLimit cfg, HealthHandler)}"
    and taken: "route_taken lookup cfg q = Some path" and r: "r = Some x"
    and a: "limited_answer endpoint limit h (endpoint_answer sha256 nd fc auth q) q (as_limiter s) = (l, x, form)"
    and s': "s' = s\<lparr>as_limiter := l, as_log := as_log s @
      (if rc_auditEnabled cfg
       then [audit endpoint (gin_request_of q full form) (int (ht_status x)) (aq_elapsed q)] else [])\<rparr>"
  have "ht_status x \<noteq> 0" using limited_answer_status[OF a] e by auto
  then have "summary (audit endpoint (gin_request_of q full form) (int (ht_status x)) (aq_elapsed q)) =
      (endpoint, response_status r, auditOutcome (response_status r), aq_ip q)"
    by (simp add: summary_def audit_def Let_def response_status_def r)
  then show ?thesis using e taken s' by (auto simp: audited_def)
qed (auto simp: audited_def)

subsection \<open>Properties\<close>


text \<open>C39: the audit log is complete: with it enabled, the run leaves exactly one entry for each token and each
  readiness request, in their order, with the endpoint, the status that was sent, its outcome and the
  address, those that were turned away included; other requests leave none, and without it nothing is
  logged.\<close>

theorem requests_audited:
  assumes "lookup_law lookup"
    and "app_run lookup (endpoint_answer sha256 nd fc auth) cfg (initial_state cfg) qs = (s, answers)"
  shows "map summary (as_log s) = concat (map (\<lambda>(q, r). audited lookup cfg q r) (zip qs answers))"
proof -
  have "map summary (as_log s) =
      map summary (as_log s0) @ concat (map (\<lambda>(q, r). audited lookup cfg q r) (zip qs answers))"
    if "app_run lookup (endpoint_answer sha256 nd fc auth) cfg s0 qs = (s, answers)" for s0
    using that
  proof (induction qs arbitrary: s0 answers)
    case (Cons q qs)
    then show ?case using app_serve_log[OF assms(1)] by (auto simp: Let_def split: prod.splits)
  qed simp
  from this[OF assms(2)] show ?thesis by (simp add: initial_state_def)
qed

text \<open>Gin's lookup for static routes, and a caller who guesses passwords.\<close>

definition exact_lookup :: "string \<Rightarrow> gin_lookup" where
  "exact_lookup base table method url =
     map_option (Pair url) (find (\<lambda>(m, p, _). m = method \<and> base @ p = url) table)"

lemma exact_lookup_law: "lookup_law (exact_lookup base)"
  by (auto simp: lookup_law_def exact_lookup_def find_Some_iff in_set_conv_nth)

definition guess :: "string \<Rightarrow> time \<Rightarrow> unit app_request" where
  "guess secret t = \<lparr>aq_Method = ''POST'', aq_URLPath = ''/auth/oauth/token'', aq_RemoteAddr = ''10.0.0.1:80'',
     aq_ParseForm = (\<lambda>_. Some (demo_form, (\<lambda>_. []))), aq_PostForm = (\<lambda>_. []), aq_BasicAuth = Some (''svc'', secret),
     aq_now = t, aq_issueTime = t, aq_elapsed = 0, aq_random = Inr ''0123456789abcdef''\<rparr>"

definition guess_run :: "app_state \<times> http_response option list" where
  "guess_run = app_run (exact_lookup ''/auth'') (endpoint_answer id id (\<lambda>_ _. Inl ErrClientNotFound) demo_server)
     demo_resolved (initial_state demo_resolved) [guess ''a'' 0, guess ''b'' 1, guess ''c'' 2]"

lemma demo_resolved_simps:
  "rc_basePath demo_resolved = ''/auth''" "el_enabled (rc_tokenLimit demo_resolved)" "el_limit (rc_tokenLimit demo_resolved) = 5"
  "rc_auditEnabled demo_resolved"
  by (simp_all add: demo_resolved_def resolved_of_def Let_def normalizeRuntimeConfig_def demo_auth_config_def boolDefault_def)

lemma guess_route: "route_taken (exact_lookup ''/auth'') demo_resolved (guess secret t) = Some route_Token"
  by (simp add: route_taken_def exact_lookup_def mountAuthRoutes_def Let_def guess_def route_Token_def)


theorem requests_audited_witness:
  "\<exists>s answers. guess_run = (s, answers) \<and> length (as_log s) = 3 \<and>
     map (\<lambda>e. fst (summary e)) (as_log s) = [''token'', ''token'', ''token'']"
proof -
  obtain s answers where run: "guess_run = (s, answers)" by (metis surj_pair)
  then obtain r1 r2 r3 where "answers = [r1, r2, r3]" by (auto simp: guess_run_def Let_def split: prod.splits)
  then have log: "map summary (as_log s) =
      concat (map (\<lambda>q_r. audited (exact_lookup ''/auth'') demo_resolved (fst q_r) (snd q_r))
        [(guess ''a'' 0, r1), (guess ''b'' 1, r2), (guess ''c'' 2, r3)])"
    using requests_audited[OF exact_lookup_law run[unfolded guess_run_def]] by simp
  then have logged: "map fst (map summary (as_log s)) = [''token'', ''token'', ''token'']"
    by (simp add: audited_def guess_route demo_resolved_simps Let_def)
  note this [THEN arg_cong, where f = length]
  then have "length (as_log s) = 3" by simp
  moreover have "map (\<lambda>e. fst (summary e)) (as_log s) = map fst (map summary (as_log s))" by simp
  ultimately show ?thesis using run logged by metis
qed

end
