(* ===== verification/Spec2Isabelle.thy ===== *)
theory Spec2Isabelle
  imports Orion_Prelude Go_Strings Go_Encoding Go_Float Go_Paths Go_Url String_Set Scope_Claims
    Call_Bounds Server_Client Server_Store Slice_Store Slice_Config Jwk_Keys Jwk_Providers Http_Json Jwk_Remote
    Token_Service Server_Config Server_Http Verifier Gin_Guard Token_Client Token_Cache Client_Server
    Rate_Limit Gin_Routes Runtime_Config Auth_App End_To_End Full_Chain Demo_Services Auth_Main
    Audit_Log App_Requests
begin

text \<open>
  A model of Orionis, an OAuth 2.0 client-credentials toolkit written in Go. An authorization server
  issues signed access tokens to registered clients; a client library requests and caches them; a
  resource server verifies them with keys it fetches from the authorization server and guards its
  handlers with the scopes they carry.

  The parts and their theories.

  \<^item> \<open>Orion_Prelude\<close>, \<open>Go_Strings\<close>, \<open>Go_Encoding\<close>, \<open>Go_Float\<close>, \<open>Go_Paths\<close>, \<open>Go_Url\<close>: what the
    program uses of the language and its standard library (queries, forms and basic credentials byte
    by byte in the last). A Go string is a list of bytes; white space, control
    characters and letter case are decided on UTF-8 encodings. Times and durations are integers in
    nanoseconds, wrapped to 64 bits where the code's arithmetic can overflow (\<open>wrap64\<close>, \<open>time_sub\<close>
    saturates as Go's does); \<open>Seconds\<close> rounds to a 53-bit significand.
  \<^item> \<open>String_Set\<close> (\<open>internal/stringset\<close>) and \<open>Scope_Claims\<close> (\<open>scopes.go\<close>, \<open>claims.go\<close>, \<open>token.go\<close>): scope
    lists in normal form, the wildcard order on scopes, the claims of a token and the bearer header.
  \<^item> \<open>Server_Client\<close> (\<open>server/client.go\<close>, \<open>server/scopes.go\<close>), \<open>Server_Store\<close> (\<open>server/store.go\<close>),
    \<open>Token_Service\<close> (\<open>server/token_service.go\<close>, \<open>util.go\<close>, \<open>signer.go\<close>), \<open>Server_Config\<close>
    (\<open>server/config.go\<close>, \<open>server.go\<close>, \<open>internal/authroute\<close>) and \<open>Server_Http\<close> (\<open>server/http.go\<close>): the
    authorization server. The store is a map from client ids to clients, the service issues a token
    or an error value for a request, the handlers map requests to responses.
  \<^item> \<open>Slice_Store\<close> and \<open>Slice_Config\<close>: the client store and the configuration once more, over a heap of
    arrays with slices as references, with the copies of \<open>cloneClient\<close>, \<open>cloneConfig\<close> and \<open>cloneStrings\<close>
    and callers who write to every array they know; they justify slices as values elsewhere.
  \<^item> \<open>Jwk_Keys\<close> (\<open>jwk/key.go\<close>, \<open>jwk/decode.go\<close>), \<open>Jwk_Providers\<close> (\<open>jwk/static.go\<close>, \<open>jwk/ed25519.go\<close>) and
    \<open>Jwk_Remote\<close> (\<open>jwk/remote.go\<close>, over \<open>Http_Json\<close>, \<open>internal/httpjson\<close>): key sets, the provider over
    a fixed set, the Ed25519 signer, and the provider that fetches and refreshes its set. The last is
    a step relation: goroutines with program counters, the refresh gate as a lock, and one step per
    critical section.
  \<^item> \<open>Verifier\<close> (\<open>verifier.go\<close>) and \<open>Gin_Guard\<close> (\<open>ginorion/builder.go\<close>, \<open>middleware.go\<close>, \<open>claims.go\<close>,
    \<open>errors.go\<close>): verification of a token and the guard in front of a handler.
  \<^item> \<open>Token_Client\<close> and \<open>Token_Cache\<close> (\<open>client/\<close>): the token request and the transport, and the cache
    shared by concurrent callers, whose requests are single-flight and are cancelled when nobody
    waits. The cache is a step relation as well; \<open>Call_Bounds\<close> has the argument, shared with the
    remote provider, that calls take boundedly many steps.
  \<^item> \<open>Gin_Routes\<close> (\<open>ginorion/routes.go\<close>): mounting the server's endpoints on an application's router.
  \<^item> \<open>Rate_Limit\<close> and \<open>Audit_Log\<close> (\<open>internal/authapp/ratelimit.go\<close>, \<open>audit.go\<close>), \<open>Runtime_Config\<close>
    (\<open>config.go\<close>, \<open>runtime_config.go\<close>), \<open>Auth_App\<close> (\<open>signing.go\<close>, \<open>app.go\<close>, \<open>routes.go\<close>) and \<open>Auth_Main\<close>
    (\<open>config_aws.go\<close>, \<open>config_decoder.go\<close>, \<open>config_yaml.go\<close>, \<open>cmd/orionis-auth\<close>): the server as a
    program, from its configuration to the end of the process.
  \<^item> \<open>App_Requests\<close>: sequences of requests to that program, through routes, audit log, limiter and
    endpoint, over the limiter's windows and the log.
  \<^item> \<open>End_To_End\<close>: token endpoint, published keys, verifier and guard composed. \<open>Client_Server\<close>: the client
    library's request, as a form and a header on the wire, answered by the token endpoint.
    \<open>Full_Chain\<close>: both, with the guard's keys fetched from the server and the token from the client's
    cache. \<open>Demo_Services\<close>: the example programs (\<open>examples/\<close>) on top of the chain.

  Conventions. A receiver or argument that the code compares with \<open>nil\<close> is an option; an error is the
  left side of a sum; a slice or a copied map is a value. A method keeps its name unless the name is
  taken, then it has a prefix for its receiver. State that the code mutates under a lock is passed
  through the operation that holds the lock.

  Contracts are locales, interpreted on the definitions that provide them: \<open>string_normaliser\<close> of string
  lists, \<open>client_store\<close> (the in-memory store and the store of a built server), \<open>key_provider\<close> (static
  and remote), \<open>signer_loader\<close> (the Ed25519 loader) and \<open>ranked_calls\<close> (remote provider and cache).

  What is shown.

  \<^item> Authority. A token is issued only to an enabled client that proved its secret, for an audience and
    concrete scopes the client may have and asked for; the scope resolution is the set it ought to be;
    every failed login gets the same answer. The client library gets exactly what the service
    answers to the request its caller meant, except that client ids with a colon are locked out.
  \<^item> Lifetimes. An issued token lives for the configured time, up to the truncation of its dates; the
    bound of \<open>2 ^ 22\<close> seconds (48 days) is where \<open>Seconds\<close> and the conversion to an integer are shown
    exact. \<open>End_To_End\<close> needs dates below \<open>2 ^ 53\<close> seconds, which JSON numbers represent exactly.
  \<^item> Verification. A token is accepted exactly when it is signed by the key its provider serves, in
    time, and for the right issuer, audience and use; a guarded handler runs exactly when its scopes
    are covered; a token of the server passes a guard over the server's published keys until it
    expires, and a token that the client's cache considers fresh is accepted; no key is used with an
    algorithm of another family.
  \<^item> Concurrency. A remote key is fresh, stale within the bound, or newly fetched; one goroutine fetches
    at a time, there is no deadlock, and one caller's cancellation is not another's failure. A cached
    token was requested for the audience and scopes it is served for and has not expired; a key has at
    most one request under way, which is cancelled exactly when no caller is left. Calls of both take
    boundedly many steps of their own.
  \<^item> Limits. The sweeping limiter is the plain fixed-window counter; a refused caller is admitted after
    the time it is told to wait. However many token requests an address sends to the program, at most
    twice the limit in any window are not turned away; and the audit log has one entry for each.
  \<^item> Isolation. No caller of the client store can change what it holds by writing to slices it passed
    in or got out.
  \<^item> Start-up. A configuration that compiles is fit to serve and compiles again to itself; a program
    that starts serves it or reports a key that does not load; what AWS hosts stays out of the errors,
    and secrets stay out of the audit log.

  Parameters stand for code that is not in the repository or has its effect outside the program: the
  JWT library (\<open>jwt_laws\<close>, \<open>signing_laws\<close>), SHA-256, the key codecs, the file system and environment,
  \<open>net/http\<close>, the JSON and YAML libraries, \<open>time.ParseDuration\<close>, Gin's route lookup and registration, and
  the AppConfig loader of Confucius. Their documented behaviour is a named hypothesis where a theorem
  needs it, and each such theorem has a witness with a concrete instance. Unicode case mapping is
  modelled as far as comparisons with ASCII text can tell.

  A \<open>Must\<close> function panics with the error of the function it wraps; the panic is a value.

  Not modelled: the log lines other than the audit entries, and the process' exit codes; the default HTTP
  clients and their timeouts, the limits of \<open>net/http\<close> on headers and form fields, and the overall
  deadline of the example client; spare capacity of slices (a builder's \<open>append\<close> always works on an
  array of its own, since each builder method starts with a copy).
\<close>

end
